(* ===== verification/VS_Prelude.thy ===== *)
theory VS_Prelude
  imports Complex_Main "HOL-Library.Word"
begin

text \<open>
  Shared vocabulary of the development: failures as values, the accesses of a
  \<^verbatim>\<open>std::vector\<close>, the conversions between C++ number types that the code performs, and
  the collections of rewrite rules the component theories extend.

  \<^item> \<open>err\<close> lists the ways an operation can fail: \<open>OutOfRange\<close> is the
    \<^verbatim>\<open>std::out_of_range\<close> thrown by \<^verbatim>\<open>vector::at\<close>, \<open>UB\<close> is a
    step the language leaves undefined (an unchecked index past the end, a dangling or null
    pointer, a signed overflow), \<open>JsonException\<close> is a \<^verbatim>\<open>wpi::json::exception\<close>, and
    \<open>CvAssertion\<close> is the exception of a failed \<^verbatim>\<open>CV_Assert\<close>.
  \<^item> \<open>dbl\<close> is a C++ floating point value: a finite number, an infinity or a NaN. Finite
    values are exact rationals; rounding of intermediate results is not modelled.
  \<^item> \<open>fcvtzs32\<close> is the conversion from \<^verbatim>\<open>double\<close> to \<^verbatim>\<open>int\<close> as the AArch64 target of the
    makefile performs it: towards zero, saturating, and 0 for a NaN.
\<close>

subsection \<open>Rule collections\<close>

named_theorems vs_defs \<open>definitions of the model's operations, for unfolding\<close>
named_theorems vs_simps \<open>derived rewrite rules about the model's operations\<close>
named_theorems lane_simps \<open>lane-wise meaning of the vector instructions\<close>

subsection \<open>Failures as values\<close>

datatype err = OutOfRange | UB | JsonException | CvAssertion | BadOptionalAccess

type_synonym 'a res = "err + 'a"

definition rbind :: "'a res \<Rightarrow> ('a \<Rightarrow> 'b res) \<Rightarrow> 'b res" where
  "rbind m f = (case m of Inl e \<Rightarrow> Inl e | Inr a \<Rightarrow> f a)"

lemma rbind_simps [simp]:
  "rbind (Inl e) f = Inl e"
  "rbind (Inr a) f = f a"
  by (simp_all add: rbind_def)

lemma rbind_eq_Inr [simp]: "rbind m f = Inr b \<longleftrightarrow> (\<exists>a. m = Inr a \<and> f a = Inr b)"
  by (cases m) auto

lemma rbind_eq_Inl: "rbind m f = Inl e \<longleftrightarrow> m = Inl e \<or> (\<exists>a. m = Inr a \<and> f a = Inl e)"
  by (cases m) auto

lemma rbind_assoc: "rbind (rbind m f) g = rbind m (\<lambda>a. rbind (f a) g)"
  by (cases m) simp_all

lemma rbind_cong [fundef_cong]:
  "m = m' \<Longrightarrow> (\<And>a. m' = Inr a \<Longrightarrow> f a = f' a) \<Longrightarrow> rbind m f = rbind m' f'"
  by (cases m') auto

text \<open>A loop over a list whose body may fail stops at the first failure.\<close>

primrec rfold :: "('a \<Rightarrow> 's \<Rightarrow> 's res) \<Rightarrow> 'a list \<Rightarrow> 's \<Rightarrow> 's res" where
  "rfold f [] s = Inr s"
| "rfold f (x # xs) s = rbind (f x s) (rfold f xs)"

lemma rfold_append: "rfold f (xs @ ys) s = rbind (rfold f xs s) (rfold f ys)"
proof (induction xs arbitrary: s)
  case (Cons x xs)
  then show ?case by (cases "f x s") simp_all
qed simp

text \<open>The invariant rule for such a loop: a body that succeeds and keeps the invariant on every
  element makes the whole loop succeed and keep it.\<close>

lemma rfold_invariant:
  assumes "P s"
    and "\<And>x s. x \<in> set xs \<Longrightarrow> P s \<Longrightarrow> \<exists>s'. f x s = Inr s' \<and> P s'"
  shows "\<exists>s'. rfold f xs s = Inr s' \<and> P s'"
  using assms
proof (induction xs arbitrary: s)
  case Nil
  then show ?case by simp
next
  case (Cons x xs)
  obtain s1 where s1: "f x s = Inr s1" "P s1"
    using Cons.prems by (meson list.set_intros(1))
  then have "\<exists>s'. rfold f xs s1 = Inr s' \<and> P s'"
    by (intro Cons.IH) (auto intro: Cons.prems(2))
  then show ?case using s1 by simp
qed

lemma rfold_preserves:
  assumes "rfold f xs s = Inr s'" "P s" "\<And>x s s'. x \<in> set xs \<Longrightarrow> P s \<Longrightarrow> f x s = Inr s' \<Longrightarrow> P s'"
  shows "P s'"
  using assms
proof (induction xs arbitrary: s)
  case (Cons x xs)
  then obtain s1 where "f x s = Inr s1" "rfold f xs s1 = Inr s'" by auto
  then show ?case using Cons.IH [of s1] Cons.prems by (meson list.set_intros)
qed simp

lemma rfold_upt:
  assumes "P 0 s" "\<And>i s. i < n \<Longrightarrow> P i s \<Longrightarrow> \<exists>s'. f i s = Inr s' \<and> P (Suc i) s'"
  shows "\<exists>s'. rfold f [0..<n] s = Inr s' \<and> P n s'"
  using assms
proof (induction n)
  case (Suc n)
  then obtain s1 where "rfold f [0..<n] s = Inr s1" "P n s1" by (meson less_SucI)
  moreover obtain s2 where "f n s1 = Inr s2" "P (Suc n) s2" using Suc.prems(2) calculation(2) by blast
  ultimately show ?case by (simp add: rfold_append)
qed simp

subsection \<open>Accesses of a vector\<close>

definition vec_at :: "'a list \<Rightarrow> nat \<Rightarrow> 'a res" where
  "vec_at xs i = (if i < length xs then Inr (xs ! i) else Inl OutOfRange)"

definition vec_idx :: "'a list \<Rightarrow> nat \<Rightarrow> 'a res" where
  "vec_idx xs i = (if i < length xs then Inr (xs ! i) else Inl UB)"

lemma vec_at_Inr [simp]: "vec_at xs i = Inr x \<longleftrightarrow> i < length xs \<and> xs ! i = x"
  by (auto simp: vec_at_def)

lemma vec_at_ok: "i < length xs \<Longrightarrow> vec_at xs i = Inr (xs ! i)"
  by (simp add: vec_at_def)

lemma vec_at_oob: "length xs \<le> i \<Longrightarrow> vec_at xs i = Inl OutOfRange"
  by (simp add: vec_at_def)

lemma vec_idx_ok: "i < length xs \<Longrightarrow> vec_idx xs i = Inr (xs ! i)"
  by (simp add: vec_idx_def)

lemma vec_idx_oob: "length xs \<le> i \<Longrightarrow> vec_idx xs i = Inl UB"
  by (simp add: vec_idx_def)

lemma vec_idx_Inr [simp]: "vec_idx xs i = Inr x \<longleftrightarrow> i < length xs \<and> xs ! i = x"
  by (auto simp: vec_idx_def)

subsection \<open>Integer conversions\<close>

text \<open>\<open>int32 z\<close> is the value of the 32-bit \<^verbatim>\<open>int\<close> that an integer \<open>z\<close> is converted to
  (reduction modulo \<open>2 ^ 32\<close>); \<open>c_int n\<close> is the cast \<^verbatim>\<open>(int)n\<close> of a \<^verbatim>\<open>size_t\<close>.\<close>

definition int32 :: "int \<Rightarrow> int" where
  "int32 z = (z + 2 ^ 31) mod 2 ^ 32 - 2 ^ 31"

definition c_int :: "nat \<Rightarrow> int" where
  "c_int n = int32 (int n)"

definition uint32 :: "int \<Rightarrow> int" where
  "uint32 z = z mod 2 ^ 32"

definition int16 :: "int \<Rightarrow> int" where
  "int16 z = (z + 2 ^ 15) mod 2 ^ 16 - 2 ^ 15"

definition int8 :: "int \<Rightarrow> int" where
  "int8 z = (z + 2 ^ 7) mod 2 ^ 8 - 2 ^ 7"

lemma int16_bounds: "- (2 ^ 15) \<le> int16 z" "int16 z < 2 ^ 15"
  by (simp_all add: int16_def)

lemma int16_id: "- (2 ^ 15) \<le> z \<Longrightarrow> z < 2 ^ 15 \<Longrightarrow> int16 z = z"
  by (simp add: int16_def)

lemma int8_bounds: "- (2 ^ 7) \<le> int8 z" "int8 z < 2 ^ 7"
  by (simp_all add: int8_def)

lemma int8_id: "- (2 ^ 7) \<le> z \<Longrightarrow> z < 2 ^ 7 \<Longrightarrow> int8 z = z"
  by (simp add: int8_def)

lemma int32_bounds: "- (2 ^ 31) \<le> int32 z" "int32 z < 2 ^ 31"
  by (simp_all add: int32_def)

lemma int32_id: "- (2 ^ 31) \<le> z \<Longrightarrow> z < 2 ^ 31 \<Longrightarrow> int32 z = z"
  by (simp add: int32_def)

lemma c_int_id [simp]: "n < 2 ^ 31 \<Longrightarrow> c_int n = int n"
  by (simp add: c_int_def int32_id)

lemma uint32_id: "0 \<le> z \<Longrightarrow> z < 2 ^ 32 \<Longrightarrow> uint32 z = z"
  by (simp add: uint32_def)

lemma uint32_int32 [simp]: "uint32 (int32 z) = uint32 z"
proof -
  have "((z + 2 ^ 31) mod 2 ^ 32 - 2 ^ 31) mod 2 ^ 32 = (z + 2 ^ 31 - 2 ^ 31) mod (2 ^ 32 :: int)"
    by (rule mod_diff_left_eq)
  then show ?thesis by (simp add: int32_def uint32_def)
qed

text \<open>An \<^verbatim>\<open>int\<close> compared with \<^verbatim>\<open>0xFFFFFFFF\<close> is converted to \<^verbatim>\<open>unsigned\<close> first, so the
  only \<^verbatim>\<open>int\<close> equal to it is -1.\<close>

lemma uint32_eq_max_iff:
  assumes "- (2 ^ 31) \<le> z" "z < 2 ^ 31"
  shows "uint32 z = 4294967295 \<longleftrightarrow> z = -1"
proof (cases "0 \<le> z")
  case True
  with assms show ?thesis by (simp add: uint32_id)
next
  case False
  have "z mod 2 ^ 32 = (z + 2 ^ 32) mod 2 ^ 32" by simp
  also have "\<dots> = z + 2 ^ 32" using False assms by (intro mod_pos_pos_trivial) auto
  finally show ?thesis by (auto simp: uint32_def)
qed

subsection \<open>Floating point values\<close>

datatype dbl = Fin rat | PosInf | NegInf | NaN

definition rat_trunc :: "rat \<Rightarrow> int" where
  "rat_trunc r = (if 0 \<le> r then \<lfloor>r\<rfloor> else \<lceil>r\<rceil>)"

definition sat :: "int \<Rightarrow> int \<Rightarrow> int \<Rightarrow> int" where
  "sat lo hi z = (if z < lo then lo else if hi < z then hi else z)"

fun fcvtzs32 :: "dbl \<Rightarrow> int" where
  "fcvtzs32 (Fin r) = sat (- (2 ^ 31)) (2 ^ 31 - 1) (rat_trunc r)"
| "fcvtzs32 PosInf = 2 ^ 31 - 1"
| "fcvtzs32 NegInf = - (2 ^ 31)"
| "fcvtzs32 NaN = 0"

definition of_int_dbl :: "int \<Rightarrow> dbl" where
  "of_int_dbl z = Fin (of_int z)"

text \<open>Division of doubles, and the conversion to \<^verbatim>\<open>uint64_t\<close> (AArch64: saturating, 0 for a NaN).\<close>

fun dbl_div :: "dbl \<Rightarrow> dbl \<Rightarrow> dbl" where
  "dbl_div (Fin a) (Fin b) =
     (if b \<noteq> 0 then Fin (a / b) else if 0 < a then PosInf else if a < 0 then NegInf else NaN)"
| "dbl_div (Fin a) PosInf = Fin 0"
| "dbl_div (Fin a) NegInf = Fin 0"
| "dbl_div PosInf (Fin b) = (if 0 \<le> b then PosInf else NegInf)"
| "dbl_div NegInf (Fin b) = (if 0 \<le> b then NegInf else PosInf)"
| "dbl_div _ _ = NaN"

fun fcvtzu64 :: "dbl \<Rightarrow> int" where
  "fcvtzu64 (Fin r) = sat 0 (2 ^ 64 - 1) (rat_trunc r)"
| "fcvtzu64 PosInf = 2 ^ 64 - 1"
| "fcvtzu64 _ = 0"

text \<open>The value of an \<^verbatim>\<open>int64_t\<close> an integer is converted to.\<close>

definition int64 :: "int \<Rightarrow> int" where
  "int64 z = (z + 2 ^ 63) mod 2 ^ 64 - 2 ^ 63"

lemma int64_id: "- (2 ^ 63) \<le> z \<Longrightarrow> z < 2 ^ 63 \<Longrightarrow> int64 z = z"
  by (simp add: int64_def)

lemma rat_trunc_of_int [simp]: "rat_trunc (of_int z) = z"
  by (simp add: rat_trunc_def)

lemma sat_bounds: "lo \<le> hi \<Longrightarrow> lo \<le> sat lo hi z" "lo \<le> hi \<Longrightarrow> sat lo hi z \<le> hi"
  by (simp_all add: sat_def)

lemma sat_id: "lo \<le> z \<Longrightarrow> z \<le> hi \<Longrightarrow> sat lo hi z = z"
  by (simp add: sat_def)

lemma fcvtzs32_bounds: "- (2 ^ 31) \<le> fcvtzs32 d" "fcvtzs32 d < 2 ^ 31"
  by (cases d; simp add: sat_def)+

lemma fcvtzs32_of_int:
  "- (2 ^ 31) \<le> z \<Longrightarrow> z < 2 ^ 31 \<Longrightarrow> fcvtzs32 (of_int_dbl z) = z"
  by (simp add: of_int_dbl_def sat_id)

subsection \<open>64-bit words\<close>

lemma unat_of_nat_64: "n < 2 ^ 64 \<Longrightarrow> unat (of_nat n :: 64 word) = n"
  by (simp add: unat_of_nat take_bit_nat_eq_self)

lemma unat_less_64: "unat (w :: 64 word) < 2 ^ 64"
  using unsigned_less [of w, where ?'a = nat] by simp

lemma unat_minus_1_64: "unat (- 1 :: 64 word) = 2 ^ 64 - 1"
  by (simp add: unsigned_minus_1_eq_mask mask_eq_exp_minus_1)

subsection \<open>Lists\<close>

lemma nth_list_update_same: "i < length xs \<Longrightarrow> xs[i := f (xs ! i)] ! i = f (xs ! i)"
  by simp

lemma map_update_const: "f x = f (xs ! i) \<Longrightarrow> i < length xs \<Longrightarrow> map f (xs[i := x]) = map f xs"
  by (metis list_update_id map_update nth_map)

end
