(* ===== verification/Json.thy ===== *)
theory Json
  imports VS_Prelude
begin

text \<open>
  The part of \<^verbatim>\<open>wpi::json\<close> (the vendored nlohmann library, \<^verbatim>\<open>include/wpi/json.h\<close>) that the
  program reads its configuration with: the value type, \<^verbatim>\<open>count\<close>, \<^verbatim>\<open>at\<close> by key and by index,
  \<^verbatim>\<open>get<T>\<close> for the types the code asks for, and the sequence a range-based \<^verbatim>\<open>for\<close> visits.
  Every \<^verbatim>\<open>json::exception\<close> is \<open>Inl JsonException\<close>. An object keeps its members as an
  association list; \<open>json_count\<close> and \<open>json_at\<close> use its first binding of a key, so that a
  list with repeated keys behaves like the \<^verbatim>\<open>std::map\<close> made of its first bindings.
\<close>

datatype json =
    JNull
  | JBool bool
  | JUInt nat
  | JInt int
  | JFloat dbl
  | JString string
  | JArray "json list"
  | JObject "(string \<times> json) list"

fun is_object :: "json \<Rightarrow> bool" where
  "is_object (JObject _) = True"
| "is_object _ = False"

fun json_count :: "json \<Rightarrow> string \<Rightarrow> nat" where
  "json_count (JObject ms) k = (if map_of ms k = None then 0 else 1)"
| "json_count _ k = 0"

fun json_at :: "json \<Rightarrow> string \<Rightarrow> json res" where
  "json_at (JObject ms) k = (case map_of ms k of None \<Rightarrow> Inl JsonException | Some v \<Rightarrow> Inr v)"
| "json_at _ k = Inl JsonException"

fun json_at_idx :: "json \<Rightarrow> nat \<Rightarrow> json res" where
  "json_at_idx (JArray xs) i = (if i < length xs then Inr (xs ! i) else Inl JsonException)"
| "json_at_idx _ i = Inl JsonException"

fun get_string :: "json \<Rightarrow> string res" where
  "get_string (JString s) = Inr s"
| "get_string _ = Inl JsonException"

text \<open>\<^verbatim>\<open>get<unsigned int>\<close> converts any number, and a boolean, with a \<^verbatim>\<open>static_cast\<close>; the cast
  from a floating point value saturates on the target, the casts from 64-bit integers reduce
  modulo \<open>2 ^ 32\<close>.\<close>

fun fcvtzu32 :: "dbl \<Rightarrow> int" where
  "fcvtzu32 (Fin r) = sat 0 (2 ^ 32 - 1) (rat_trunc r)"
| "fcvtzu32 PosInf = 2 ^ 32 - 1"
| "fcvtzu32 NegInf = 0"
| "fcvtzu32 NaN = 0"

fun get_unsigned :: "json \<Rightarrow> int res" where
  "get_unsigned (JUInt n) = Inr (uint32 (int n))"
| "get_unsigned (JInt z) = Inr (uint32 z)"
| "get_unsigned (JFloat d) = Inr (fcvtzu32 d)"
| "get_unsigned (JBool b) = Inr (if b then 1 else 0)"
| "get_unsigned _ = Inl JsonException"

text \<open>\<^verbatim>\<open>get<float>\<close> accepts a boolean as \<^verbatim>\<open>get<unsigned int>\<close> does; \<^verbatim>\<open>get<double>\<close> is the
  library's own floating point type and does not.\<close>

fun get_float :: "json \<Rightarrow> dbl res" where
  "get_float (JUInt n) = Inr (Fin (of_nat n))"
| "get_float (JInt z) = Inr (Fin (of_int z))"
| "get_float (JFloat d) = Inr d"
| "get_float (JBool b) = Inr (Fin (if b then 1 else 0))"
| "get_float _ = Inl JsonException"

fun get_double :: "json \<Rightarrow> dbl res" where
  "get_double (JUInt n) = Inr (Fin (of_nat n))"
| "get_double (JInt z) = Inr (Fin (of_int z))"
| "get_double (JFloat d) = Inr d"
| "get_double _ = Inl JsonException"

text \<open>A range-based \<^verbatim>\<open>for\<close> visits the elements of an array, the values of an object, nothing of
  a null, and a primitive value itself once.\<close>

fun json_items :: "json \<Rightarrow> json list" where
  "json_items (JArray xs) = xs"
| "json_items (JObject ms) = map snd ms"
| "json_items JNull = []"
| "json_items j = [j]"

text \<open>\<^verbatim>\<open>wpi::equals_lower\<close>: equality of two strings up to the case of ASCII letters.\<close>

definition toLower :: "char \<Rightarrow> char" where
  "toLower c = (if 65 \<le> (of_char c :: nat) \<and> (of_char c :: nat) \<le> 90
                then char_of ((of_char c :: nat) + 32) else c)"

definition equals_lower :: "string \<Rightarrow> string \<Rightarrow> bool" where
  "equals_lower a b \<longleftrightarrow> length a = length b \<and> map toLower a = map toLower b"

subsection \<open>Laws\<close>

lemma json_count_le_1: "json_count j k \<le> 1"
  by (cases j) auto

lemma json_count_pos_iff: "0 < json_count j k \<longleftrightarrow> (\<exists>v. json_at j k = Inr v)"
  by (cases j) (auto split: option.splits)

lemma json_at_counted: "json_count j k \<noteq> 0 \<Longrightarrow> \<exists>v. json_at j k = Inr v"
  using json_count_pos_iff by auto

lemma json_at_Inl: "json_at j k = Inl e \<Longrightarrow> e = JsonException"
  by (cases j) (auto split: option.splits)

lemma json_at_idx_Inl: "json_at_idx j i = Inl e \<Longrightarrow> e = JsonException"
  by (cases j) (auto split: if_splits)

lemma is_object_count: "0 < json_count j k \<Longrightarrow> is_object j"
  by (cases j) auto

lemma get_unsigned_bounds: "get_unsigned j = Inr v \<Longrightarrow> 0 \<le> v \<and> v < 2 ^ 32"
proof (cases j)
  case (JFloat d)
  assume "get_unsigned j = Inr v"
  with JFloat show ?thesis by (cases d) (auto simp: sat_def)
qed (auto simp: uint32_def split: if_splits)

lemma get_string_Inr [simp]: "get_string j = Inr s \<longleftrightarrow> j = JString s"
  by (cases j) auto

lemma equals_lower_refl [simp]: "equals_lower s s"
  by (simp add: equals_lower_def)

lemma equals_lower_sym: "equals_lower a b \<longleftrightarrow> equals_lower b a"
  by (auto simp: equals_lower_def)

lemma equals_lower_trans: "equals_lower a b \<Longrightarrow> equals_lower b c \<Longrightarrow> equals_lower a c"
  by (simp add: equals_lower_def)

text \<open>Two spellings that differ are told apart: the branches of a keyword chain exclude each
  other.\<close>

lemma equals_lower_excl:
  "equals_lower s a \<Longrightarrow> \<not> equals_lower a b \<Longrightarrow> \<not> equals_lower s b"
  using equals_lower_sym equals_lower_trans by blast

end
