(* ===== verification/Platform.thy ===== *)
theory Platform
  imports VS_Prelude
begin

text \<open>
  The boundary to the libraries the program is built on (cscore, NetworkTables, OpenCV), whose
  code is not part of the repository. A call that has an effect outside the program is a value
  of \<open>call\<close>, appended in program order to a log; what a call returns is an argument of the
  operation that makes it. \<open>cs_lib\<close> collects the answers of the cscore queries that depend
  only on a handle.

  \<open>last_put\<close> reads the log back: the value the program itself wrote last to an entry.
\<close>

type_synonym handle = int
type_synonym path = "string list"

text \<open>\<^verbatim>\<open>cs::VideoMode\<close>: the pixel format is the integer code of \<^verbatim>\<open>cs::VideoMode::PixelFormat\<close>.\<close>

record VideoMode =
  pixelFormat :: int
  width :: int
  height :: int
  fps :: int

definition VideoMode0 :: VideoMode where
  "VideoMode0 = \<lparr>pixelFormat = 0, width = 0, height = 0, fps = 0\<rparr>"

abbreviation (input) kUnknown :: int where "kUnknown \<equiv> 0"
abbreviation (input) kMJPEG :: int where "kMJPEG \<equiv> 1"
abbreviation (input) kYUYV :: int where "kYUYV \<equiv> 2"
abbreviation (input) kRGB565 :: int where "kRGB565 \<equiv> 3"
abbreviation (input) kBGR :: int where "kBGR \<equiv> 4"
abbreviation (input) kGray :: int where "kGray \<equiv> 5"

text \<open>The explicit conversion to \<^verbatim>\<open>bool\<close> of a video mode is true exactly when the pixel format
  is \<^emph>\<open>unknown\<close> (\<^verbatim>\<open>cscore_cpp.h\<close>).\<close>

definition VideoMode_bool :: "VideoMode \<Rightarrow> bool" where
  "VideoMode_bool m \<longleftrightarrow> pixelFormat m = kUnknown"

record cs_lib =
  usb_camera :: "string \<Rightarrow> string \<Rightarrow> handle"
  get_name :: "handle \<Rightarrow> string"
  get_mode :: "handle \<Rightarrow> VideoMode"
  is_connected :: "handle \<Rightarrow> bool"
  new_sink :: "string \<Rightarrow> handle"
  new_listener :: "path \<Rightarrow> handle"
  add_server :: "string \<Rightarrow> int option \<Rightarrow> handle"
  get_port :: "handle \<Rightarrow> int"

datatype nt_val =
    NtDouble dbl
  | NtFloat dbl
  | NtInteger int
  | NtBoolean bool
  | NtString string
  | NtOther

datatype call =
    NtPut path string nt_val
  | NtTopic path string int
  | NtDelete path string
  | NtFlush
  | NtRemoveListener handle
  | NtAddListener path handle
  | CsSetSource handle handle
  | CsSetVideoMode handle VideoMode
  | CsSetConfigJson handle
  | CsKeepOpen handle
  | CsSetBrightness handle int
  | CsSetWhiteBalanceAuto handle
  | CsSetWhiteBalanceManual handle int
  | CsSetExposureAuto handle
  | CsSetExposureManual handle int
  | CsPutFrame handle
  | CsSetCompression handle int
  | CsSetDefaultCompression handle int
  | PipeInit handle
  | PipeClose handle
  | PipeProcess handle
  | NtStartClient string
  | NtStartServer
  | NtSetServerTeam int
  | NtSetServer string
  | NtStartDSClient
  | NtStartClientTeam int
  | NtStartClientHost string
  | NtAddEntryListener path string
  | StdErr
  | Draw string
  | Sleep int
  | ThreadStart nat
  | ThreadJoin nat

type_synonym log = "call list"

fun last_put :: "log \<Rightarrow> path \<Rightarrow> string \<Rightarrow> nt_val option" where
  "last_put [] p k = None"
| "last_put (c # cs) p k =
     (case last_put cs p k of
        Some v \<Rightarrow> Some v
      | None \<Rightarrow> (case c of NtPut p' k' v \<Rightarrow> (if p' = p \<and> k' = k then Some v else None) | _ \<Rightarrow> None))"

lemma last_put_append:
  "last_put (cs @ ds) p k = (case last_put ds p k of Some v \<Rightarrow> Some v | None \<Rightarrow> last_put cs p k)"
proof (induction cs)
  case Nil
  then show ?case by (simp split: option.splits)
next
  case (Cons c cs)
  then show ?case by (cases "last_put ds p k") simp_all
qed

lemma last_put_snoc [simp]:
  "last_put (cs @ [NtPut p k v]) p' k' = (if p = p' \<and> k = k' then Some v else last_put cs p' k')"
  by (simp add: last_put_append)

text \<open>A log that never puts to an entry leaves its last value unchanged.\<close>

definition puts_to :: "path \<Rightarrow> string \<Rightarrow> call \<Rightarrow> bool" where
  "puts_to p k c \<longleftrightarrow> (\<exists>v. c = NtPut p k v)"

lemma last_put_none: "\<not> list_ex (puts_to p k) cs \<Longrightarrow> last_put cs p k = None"
  by (induction cs) (auto simp: puts_to_def split: call.splits)

lemma last_put_frame:
  "\<not> list_ex (puts_to p k) ds \<Longrightarrow> last_put (cs @ ds) p k = last_put cs p k"
  by (simp add: last_put_append last_put_none)

text \<open>Strings of natural numbers, \<^verbatim>\<open>std::to_string\<close>.\<close>

fun to_string :: "nat \<Rightarrow> string" where
  "to_string n = (if n < 10 then [char_of (48 + n)]
                  else to_string (n div 10) @ [char_of (48 + n mod 10)])"

declare to_string.simps [simp del]

definition digits_val :: "string \<Rightarrow> nat" where
  "digits_val s = foldl (\<lambda>a c. 10 * a + ((of_char c :: nat) - 48)) 0 s"

lemma digits_val_snoc: "digits_val (s @ [c]) = 10 * digits_val s + ((of_char c :: nat) - 48)"
  by (simp add: digits_val_def)

lemma digits_val_to_string: "digits_val (to_string n) = n"
proof (induction n rule: to_string.induct)
  case (1 n)
  show ?case
  proof (cases "n < 10")
    case True
    then show ?thesis
      by (simp add: to_string.simps [of n] digits_val_def)
  next
    case False
    then have "digits_val (to_string n) = 10 * (n div 10) + n mod 10"
      using "1.IH" by (simp add: to_string.simps [of n] digits_val_snoc)
    then show ?thesis by presburger
  qed
qed

lemma to_string_inj [simp]: "to_string m = to_string n \<longleftrightarrow> m = n"
  by (metis digits_val_to_string)

end
