(* ===== verification/Camera.thy ===== *)
theory Camera
  imports Json Platform
begin

text \<open>
  \<^verbatim>\<open>VisionCamera\<close> (\<^verbatim>\<open>core/visioncamera.h\<close>, \<^verbatim>\<open>core/visioncamera.cpp\<close>) and the video mode reader
  \<^verbatim>\<open>getJsonVideoMode\<close> (\<^verbatim>\<open>core/vision.cpp\<close>).

  A \<^verbatim>\<open>cv::Mat_\<close> is a header over a shared buffer: copying or assigning one shares the buffer, and
  writing an element writes the buffer. The model keeps the buffers in a store (\<open>mat_store\<close>), and
  a matrix is its shape and the number of its buffer. The static members \<^verbatim>\<open>default_matrix\<close> and
  \<^verbatim>\<open>default_distort\<close> own buffers 0 and 1, and a new camera's matrices are copies of these headers.
\<close>

subsection \<open>Matrices over shared buffers\<close>

type_synonym mat_store = "nat \<Rightarrow> dbl list"

record cvmat =
  mrows :: nat
  mcols :: nat
  mbuf :: nat

definition default_matrix :: cvmat where
  "default_matrix = \<lparr>mrows = 3, mcols = 3, mbuf = 0\<rparr>"

definition default_distort :: cvmat where
  "default_distort = \<lparr>mrows = 1, mcols = 5, mbuf = 1\<rparr>"

definition mat_store0 :: mat_store where
  "mat_store0 = (\<lambda>_. [])(0 := replicate 9 (Fin 0), 1 := replicate 5 (Fin 0))"

definition mat_area :: "cvmat \<Rightarrow> nat" where
  "mat_area a = mrows a * mcols a"

definition mat_data :: "mat_store \<Rightarrow> cvmat \<Rightarrow> dbl list" where
  "mat_data \<sigma> a = \<sigma> (mbuf a)"

definition mat_wf :: "mat_store \<Rightarrow> cvmat \<Rightarrow> bool" where
  "mat_wf \<sigma> a \<longleftrightarrow> length (\<sigma> (mbuf a)) = mat_area a"

text \<open>\<^verbatim>\<open>array[i][j] = v\<close>, unchecked.\<close>

definition mat_write :: "cvmat \<Rightarrow> nat \<Rightarrow> nat \<Rightarrow> dbl \<Rightarrow> mat_store \<Rightarrow> mat_store res" where
  "mat_write a i j v \<sigma> =
     (if i < mrows a \<and> j < mcols a \<and> i * mcols a + j < length (\<sigma> (mbuf a))
      then Inr (\<sigma>(mbuf a := (\<sigma> (mbuf a))[i * mcols a + j := v])) else Inl UB)"

text \<open>\<^verbatim>\<open>mat.reshape(0, r)\<close>: a new header over the same buffer.\<close>

definition mat_reshape :: "cvmat \<Rightarrow> nat \<Rightarrow> cvmat" where
  "mat_reshape a r = \<lparr>mrows = r, mcols = mat_area a div r, mbuf = mbuf a\<rparr>"

subsection \<open>The camera\<close>

record VisionCamera =
  m_handle :: handle
  config :: json
  calibration :: json
  raw :: handle
  camera_matrix :: cvmat
  distortion :: cvmat
  properties :: VideoMode
  ntable :: path
  nt_brightness :: "(path \<times> string) option"
  nt_exposure :: "(path \<times> string) option"
  nt_whitebalance :: "(path \<times> string) option"
  listener_handle :: handle

text \<open>\<^verbatim>\<open>getJsonVideoMode\<close> of \<^verbatim>\<open>vision.cpp\<close>.\<close>

definition format_code :: "string \<Rightarrow> int" where
  "format_code str =
     (if equals_lower str ''mjpeg'' then kMJPEG
      else if equals_lower str ''yuyv'' then kYUYV
      else if equals_lower str ''rgb565'' then kRGB565
      else if equals_lower str ''bgr'' then kBGR
      else if equals_lower str ''gray'' then kGray
      else kUnknown)"

definition read_field :: "json \<Rightarrow> string \<Rightarrow> (json \<Rightarrow> 'a res) \<Rightarrow> 'a option" where
  "read_field j k get = (case rbind (json_at j k) get of Inl _ \<Rightarrow> None | Inr v \<Rightarrow> Some v)"

definition getJsonVideoMode :: "json \<Rightarrow> VideoMode" where
  "getJsonVideoMode cfg =
     (let mode = VideoMode0;
          mode = (if json_count cfg ''pixel format'' \<noteq> 0 then
                    (case read_field cfg ''pixel format'' get_string of
                       Some str \<Rightarrow> mode\<lparr>pixelFormat := format_code str\<rparr>
                     | None \<Rightarrow> mode\<lparr>pixelFormat := kUnknown\<rparr>) else mode);
          mode = (if json_count cfg ''width'' \<noteq> 0 then
                    (case read_field cfg ''width'' get_unsigned of
                       Some w \<Rightarrow> mode\<lparr>width := int32 w\<rparr> | None \<Rightarrow> mode\<lparr>width := 0\<rparr>) else mode);
          mode = (if json_count cfg ''height'' \<noteq> 0 then
                    (case read_field cfg ''height'' get_unsigned of
                       Some h \<Rightarrow> mode\<lparr>height := int32 h\<rparr> | None \<Rightarrow> mode) else mode);
          mode = (if json_count cfg ''fps'' \<noteq> 0 then
                    (case read_field cfg ''fps'' get_unsigned of
                       Some f \<Rightarrow> mode\<lparr>fps := int32 f\<rparr> | None \<Rightarrow> mode) else mode)
      in mode)"

text \<open>\<^verbatim>\<open>getResolution\<close> of \<^verbatim>\<open>vision.h\<close>, as the width and height of the \<^verbatim>\<open>cv::Size\<close> it returns.\<close>

definition getResolution_vm :: "VideoMode \<Rightarrow> int \<times> int" where
  "getResolution_vm vm = (height vm, width vm)"

subsection \<open>Calibration\<close>

text \<open>The element loops of the calibration readers: the first \<^verbatim>\<open>json::exception\<close> is caught and
  ends the loop, keeping the elements written so far.\<close>

fun read_cells :: "(json \<Rightarrow> dbl res) \<Rightarrow> json \<Rightarrow> (nat \<times> nat) list \<Rightarrow> cvmat \<Rightarrow> mat_store \<Rightarrow> mat_store res" where
  "read_cells get matx [] a \<sigma> = Inr \<sigma>"
| "read_cells get matx ((i, j) # cs) a \<sigma> =
     (case rbind (json_at_idx matx i) (\<lambda>row. rbind (json_at_idx row j) get) of
        Inl _ \<Rightarrow> Inr \<sigma>
      | Inr v \<Rightarrow> rbind (mat_write a i j v \<sigma>) (read_cells get matx cs a))"

definition matrix_cells :: "(nat \<times> nat) list" where
  "matrix_cells = [(0,0), (0,1), (0,2), (1,0), (1,1), (1,2), (2,0), (2,1), (2,2)]"

definition distort_cells :: "(nat \<times> nat) list" where
  "distort_cells = [(0,0), (0,1), (0,2), (0,3), (0,4)]"

definition read_calib ::
    "(json \<Rightarrow> dbl res) \<Rightarrow> string \<Rightarrow> (nat \<times> nat) list \<Rightarrow> VisionCamera \<Rightarrow> cvmat \<Rightarrow> mat_store \<Rightarrow> (bool \<times> mat_store) res" where
  "read_calib get key cells cam a \<sigma> =
     (if is_object (calibration cam) then
        (case json_at (calibration cam) key of
           Inl _ \<Rightarrow> Inr (True, \<sigma>)
         | Inr matx \<Rightarrow> rbind (read_cells get matx cells a \<sigma>) (\<lambda>\<sigma>'. Inr (True, \<sigma>')))
      else Inr (False, \<sigma>))"

definition getJsonCameraMatrix_d :: "VisionCamera \<Rightarrow> cvmat \<Rightarrow> mat_store \<Rightarrow> (bool \<times> mat_store) res" where
  "getJsonCameraMatrix_d = read_calib get_double ''camera_matrix'' matrix_cells"

definition getJsonCameraMatrix_f :: "VisionCamera \<Rightarrow> cvmat \<Rightarrow> mat_store \<Rightarrow> (bool \<times> mat_store) res" where
  "getJsonCameraMatrix_f = read_calib get_float ''camera_matrix'' matrix_cells"

definition getJsonDistortionCoefs_d :: "VisionCamera \<Rightarrow> cvmat \<Rightarrow> mat_store \<Rightarrow> (bool \<times> mat_store) res" where
  "getJsonDistortionCoefs_d = read_calib get_double ''distortion'' distort_cells"

definition getJsonDistortionCoefs_f :: "VisionCamera \<Rightarrow> cvmat \<Rightarrow> mat_store \<Rightarrow> (bool \<times> mat_store) res" where
  "getJsonDistortionCoefs_f = read_calib get_float ''distortion'' distort_cells"

text \<open>The second reader of \<^verbatim>\<open>setCalibrationJson\<close> runs only if the first returned true.\<close>

definition setCalibrationJson :: "json \<Rightarrow> VisionCamera \<Rightarrow> mat_store \<Rightarrow> (bool \<times> VisionCamera \<times> mat_store) res" where
  "setCalibrationJson j cam \<sigma> =
     (if \<not> is_object j then Inr (False, cam, \<sigma>)
      else (let cam' = cam\<lparr>calibration := j\<rparr> in
        rbind (getJsonCameraMatrix_f cam' (camera_matrix cam') \<sigma>) (\<lambda>(ok, \<sigma>1).
          if ok then rbind (getJsonDistortionCoefs_f cam' (distortion cam') \<sigma>1)
                       (\<lambda>(ok2, \<sigma>2). Inr (ok2, cam', \<sigma>2))
          else Inr (False, cam', \<sigma>1))))"

definition setCameraMatrix :: "cvmat \<Rightarrow> VisionCamera \<Rightarrow> bool \<times> VisionCamera" where
  "setCameraMatrix m cam =
     (if mat_area m \<noteq> mat_area default_matrix then (False, cam)
      else (True, cam\<lparr>camera_matrix := mat_reshape m 3\<rparr>))"

definition setDistortionCoefs :: "cvmat \<Rightarrow> VisionCamera \<Rightarrow> bool \<times> VisionCamera" where
  "setDistortionCoefs m cam =
     (if mat_area m \<noteq> mat_area default_distort then (False, cam)
      else (True, cam\<lparr>distortion := mat_reshape m 1\<rparr>))"

subsection \<open>Constructors, move and destruction\<close>

text \<open>The members' default initialisers, with the base class over handle \<open>h\<close>.\<close>

definition VisionCamera0 :: "cs_lib \<Rightarrow> handle \<Rightarrow> VisionCamera" where
  "VisionCamera0 L h =
     \<lparr>m_handle = h, config = JNull, calibration = JNull, raw = 0,
      camera_matrix = default_matrix, distortion = default_distort, properties = VideoMode0,
      ntable = [''Cameras'', get_name L h],
      nt_brightness = None, nt_exposure = None, nt_whitebalance = None, listener_handle = 0\<rparr>"

definition VisionCamera_handle :: "cs_lib \<Rightarrow> handle \<Rightarrow> VisionCamera \<times> log" where
  "VisionCamera_handle L h =
     (let cam = (VisionCamera0 L h)\<lparr>raw := new_sink L (get_name L h @ ''_cvraw''), properties := get_mode L h\<rparr>
      in (cam, [CsSetSource (raw cam) (m_handle cam)]))"

text \<open>The constructors from a \<^verbatim>\<open>VideoSource\<close>, a \<^verbatim>\<open>UsbCamera\<close> and an \<^verbatim>\<open>HttpCamera\<close> have the same
  body; each takes the handle of its argument.\<close>

definition VisionCamera_source :: "cs_lib \<Rightarrow> handle \<Rightarrow> json \<Rightarrow> VisionCamera \<times> log" where
  "VisionCamera_source L h cfg =
     (let cam = (VisionCamera0 L h)\<lparr>config := cfg, raw := new_sink L (get_name L h @ ''_cvraw''),
                   properties := get_mode L h\<rparr>;
          cam = (if VideoMode_bool (properties cam) then cam\<lparr>properties := getJsonVideoMode cfg\<rparr> else cam)
      in (cam, [CsSetSource (raw cam) (m_handle cam)]))"

text \<open>The \<^verbatim>\<open>UsbCamera\<close> opened from a configuration; a missing name or path leaves the default
  camera, handle 0.\<close>

definition open_usb :: "cs_lib \<Rightarrow> json \<Rightarrow> handle \<times> log" where
  "open_usb L cfg =
     (case rbind (json_at cfg ''name'') (\<lambda>n. rbind (get_string n) (\<lambda>name.
             rbind (json_at cfg ''path'') (\<lambda>p. rbind (get_string p) (\<lambda>path. Inr (usb_camera L name path))))) of
        Inr h \<Rightarrow> (h, [CsSetConfigJson h, CsKeepOpen h])
      | Inl _ \<Rightarrow> (0, [StdErr, CsSetConfigJson 0, CsKeepOpen 0]))"

definition VisionCamera_json2 :: "cs_lib \<Rightarrow> json \<Rightarrow> json \<Rightarrow> mat_store \<Rightarrow> (VisionCamera \<times> mat_store \<times> log) res" where
  "VisionCamera_json2 L cfg cal \<sigma> =
     (let cam = (VisionCamera0 L 0)\<lparr>config := cfg, calibration := cal\<rparr>;
          (h, cs) = open_usb L cfg;
          cam = cam\<lparr>m_handle := h\<rparr>
      in rbind (getJsonCameraMatrix_f cam (camera_matrix cam) \<sigma>) (\<lambda>(_, \<sigma>).
         rbind (getJsonDistortionCoefs_f cam (distortion cam) \<sigma>) (\<lambda>(_, \<sigma>).
         let cam = cam\<lparr>raw := new_sink L (get_name L h @ ''_cvraw'')\<rparr>;
             cs = cs @ [CsSetSource (raw cam) h];
             cam = cam\<lparr>properties := get_mode L h\<rparr>;
             cam = (if VideoMode_bool (properties cam)
                    then cam\<lparr>properties := getJsonVideoMode (config cam)\<rparr> else cam)
         in Inr (cam, \<sigma>, cs))))"

definition VisionCamera_json :: "cs_lib \<Rightarrow> json \<Rightarrow> VisionCamera \<times> log" where
  "VisionCamera_json L cfg =
     (let cam = (VisionCamera0 L 0)\<lparr>config := cfg\<rparr>;
          (h, cs) = open_usb L cfg;
          cam = cam\<lparr>m_handle := h, raw := new_sink L (get_name L h @ ''_cvraw'')\<rparr>;
          cs = cs @ [CsSetSource (raw cam) h];
          cam = cam\<lparr>properties := get_mode L h\<rparr>;
          cam = (if \<not> VideoMode_bool (properties cam)
                 then cam\<lparr>properties := getJsonVideoMode (config cam)\<rparr> else cam)
      in (cam, cs))"

text \<open>The move constructor and move assignment: the moved-from object keeps handle 0 and listener 0,
  its json values are null. The second component is the moved-from object.\<close>

definition moved_from :: "VisionCamera \<Rightarrow> VisionCamera" where
  "moved_from other = other\<lparr>m_handle := 0, config := JNull, calibration := JNull, raw := 0,
     camera_matrix := \<lparr>mrows = 0, mcols = 0, mbuf = mbuf (camera_matrix other)\<rparr>,
     distortion := \<lparr>mrows = 0, mcols = 0, mbuf = mbuf (distortion other)\<rparr>,
     nt_brightness := None, nt_exposure := None, nt_whitebalance := None, listener_handle := 0\<rparr>"

definition VisionCamera_move :: "VisionCamera \<Rightarrow> VisionCamera \<times> VisionCamera" where
  "VisionCamera_move other = (other, moved_from other)"

definition VisionCamera_move_assign :: "VisionCamera \<Rightarrow> VisionCamera \<Rightarrow> VisionCamera \<times> VisionCamera" where
  "VisionCamera_move_assign this other =
     (this\<lparr>m_handle := m_handle other, config := config other, calibration := calibration other,
        raw := raw other, camera_matrix := camera_matrix other, distortion := distortion other,
        properties := properties other, ntable := ntable other,
        nt_brightness := nt_brightness other, nt_whitebalance := nt_whitebalance other,
        nt_exposure := nt_exposure other, listener_handle := listener_handle other\<rparr>,
      moved_from other)"

definition VisionCamera_destroy :: "VisionCamera \<Rightarrow> log" where
  "VisionCamera_destroy cam = [NtRemoveListener (listener_handle cam)]"

subsection \<open>Accessors\<close>

definition isValidJson :: "VisionCamera \<Rightarrow> bool" where
  "isValidJson cam = is_object (config cam)"

definition getJson :: "VisionCamera \<Rightarrow> json" where
  "getJson cam = config cam"

definition isValidStreamJson :: "VisionCamera \<Rightarrow> bool" where
  "isValidStreamJson cam \<longleftrightarrow> json_count (config cam) ''stream'' > 0"

definition getStreamJson :: "VisionCamera \<Rightarrow> json res" where
  "getStreamJson cam =
     (if json_count (config cam) ''stream'' > 0 then json_at (config cam) ''stream'' else Inr JNull)"

text \<open>\<^verbatim>\<open>getFrame\<close>: the frame time of the sink if the camera is connected (the frame and time
  the sink delivers are the arguments), else a blank frame of the camera's resolution and 0.\<close>

datatype 'f frame = Grabbed 'f | Blank int int

definition getResolution :: "VisionCamera \<Rightarrow> int \<times> int" where
  "getResolution cam = (width (properties cam), height (properties cam))"

definition getFrame :: "cs_lib \<Rightarrow> VisionCamera \<Rightarrow> (nat \<times> 'f) \<Rightarrow> nat \<times> 'f frame" where
  "getFrame L cam grab =
     (if is_connected L (m_handle cam) then (fst grab, Grabbed (snd grab))
      else (0, Blank (fst (getResolution cam)) (snd (getResolution cam))))"

definition getFrameNoTmO :: "cs_lib \<Rightarrow> VisionCamera \<Rightarrow> (nat \<times> 'f) \<Rightarrow> nat \<times> 'f frame" where
  "getFrameNoTmO L cam grab =
     (if is_connected L (m_handle cam) then (fst grab, Grabbed (snd grab))
      else (0, Blank (fst (getResolution cam)) (snd (getResolution cam))))"

definition getWidth :: "VisionCamera \<Rightarrow> int" where
  "getWidth cam = width (properties cam)"

definition getHeight :: "VisionCamera \<Rightarrow> int" where
  "getHeight cam = height (properties cam)"

text \<open>\<^verbatim>\<open>getPixels\<close> multiplies two \<^verbatim>\<open>int\<close>s; a product outside the type is undefined.\<close>

definition getPixels :: "VisionCamera \<Rightarrow> int res" where
  "getPixels cam =
     (let p = width (properties cam) * height (properties cam) in
      if - (2 ^ 31) \<le> p \<and> p < 2 ^ 31 then Inr p else Inl UB)"

definition getConfigFPS :: "VisionCamera \<Rightarrow> int" where
  "getConfigFPS cam = fps (properties cam)"

subsection \<open>Adjustable settings\<close>

definition priv_setBrightness :: "VisionCamera \<Rightarrow> int \<Rightarrow> int \<times> log" where
  "priv_setBrightness cam val =
     (let val = (if val > 100 then 100 else if val < 0 then 0 else val)
      in (val, [CsSetBrightness (m_handle cam) val]))"

definition priv_setWhiteBalance :: "VisionCamera \<Rightarrow> int \<Rightarrow> int \<times> log" where
  "priv_setWhiteBalance cam val =
     (val, [if val < 0 then CsSetWhiteBalanceAuto (m_handle cam)
            else CsSetWhiteBalanceManual (m_handle cam) val])"

definition priv_setExposure :: "VisionCamera \<Rightarrow> int \<Rightarrow> int \<times> log" where
  "priv_setExposure cam val =
     (let val = (if val > 100 then 100 else val)
      in (val, [if val < 0 then CsSetExposureAuto (m_handle cam)
                else CsSetExposureManual (m_handle cam) val]))"

text \<open>Writing an \<^verbatim>\<open>nt::IntegerEntry\<close>; one that has no topic yet does nothing.\<close>

definition entry_set :: "(path \<times> string) option \<Rightarrow> int \<Rightarrow> log" where
  "entry_set e v = (case e of None \<Rightarrow> [] | Some (p, k) \<Rightarrow> [NtPut p k (NtInteger v)])"

definition setBrightness :: "VisionCamera \<Rightarrow> int \<Rightarrow> log" where
  "setBrightness cam val = (let (v, cs) = priv_setBrightness cam val in cs @ entry_set (nt_brightness cam) v)"

definition setWhiteBalance :: "VisionCamera \<Rightarrow> int \<Rightarrow> log" where
  "setWhiteBalance cam val = (let (v, cs) = priv_setWhiteBalance cam val in cs @ entry_set (nt_whitebalance cam) v)"

definition setExposure :: "VisionCamera \<Rightarrow> int \<Rightarrow> log" where
  "setExposure cam val = (let (v, cs) = priv_setExposure cam val in cs @ entry_set (nt_exposure cam) v)"

text \<open>The getters read the entry (a 64-bit integer, the argument) into an \<^verbatim>\<open>int\<close>.\<close>

definition getBrightness :: "int \<Rightarrow> int" where
  "getBrightness entry = int32 entry"

definition getExposure :: "int \<Rightarrow> int" where
  "getExposure entry = int32 entry"

definition getWhiteBalance :: "int \<Rightarrow> int" where
  "getWhiteBalance entry = int32 entry"

definition setNetworkBase :: "cs_lib \<Rightarrow> path \<Rightarrow> VisionCamera \<Rightarrow> VisionCamera" where
  "setNetworkBase L table cam = cam\<lparr>ntable := table @ [''Cameras'', get_name L (m_handle cam)]\<rparr>"

definition setNetworkAdjustable :: "cs_lib \<Rightarrow> VisionCamera \<Rightarrow> VisionCamera \<times> log" where
  "setNetworkAdjustable L cam =
     (let cam = cam\<lparr>nt_brightness := Some (ntable cam, ''Brightness''),
                    nt_whitebalance := Some (ntable cam, ''WhiteBalance''),
                    nt_exposure := Some (ntable cam, ''Exposure'')\<rparr>;
          cs = [NtTopic (ntable cam) ''Brightness'' 50, NtTopic (ntable cam) ''WhiteBalance'' (-1),
                NtTopic (ntable cam) ''Exposure'' (-1)]
               @ setBrightness cam 50 @ setWhiteBalance cam (-1) @ setExposure cam (-1)
               @ [NtRemoveListener (listener_handle cam)];
          l = new_listener L (ntable cam)
      in (cam\<lparr>listener_handle := l\<rparr>, cs @ [NtAddListener (ntable cam) l]))"

text \<open>The listener of \<^verbatim>\<open>setNetworkAdjustable\<close>. The conditional expression that reads the value
  mixes \<^verbatim>\<open>int64_t\<close>, \<^verbatim>\<open>double\<close>, \<^verbatim>\<open>float\<close> and \<^verbatim>\<open>unsigned\<close>, so its type is \<^verbatim>\<open>double\<close>: an
  integer goes through \<^verbatim>\<open>double\<close>, and the marker \<^verbatim>\<open>0xFFFFFFFF\<close> of a value that is no number
  becomes \<open>2 ^ 32\<close> (rounded by the \<^verbatim>\<open>float\<close> in between). \<open>key\<close> is the entry the event is
  about; the test \<^verbatim>\<open>val != 0xFFFFFFFF\<close> compares as \<^verbatim>\<open>unsigned\<close>.\<close>

fun event_double :: "nt_val \<Rightarrow> dbl" where
  "event_double (NtInteger i) = of_int_dbl i"
| "event_double (NtDouble d) = d"
| "event_double (NtFloat d) = d"
| "event_double _ = of_int_dbl (2 ^ 32)"

definition event_val :: "nt_val \<Rightarrow> int" where
  "event_val v = fcvtzs32 (event_double v)"

definition camera_listener :: "VisionCamera \<Rightarrow> path \<times> string \<Rightarrow> nt_val \<Rightarrow> log" where
  "camera_listener cam key v =
     (if uint32 (event_val v) \<noteq> 4294967295 then
        (if nt_brightness cam = Some key then snd (priv_setBrightness cam (event_val v))
         else if nt_exposure cam = Some key then snd (priv_setExposure cam (event_val v))
         else if nt_whitebalance cam = Some key then snd (priv_setWhiteBalance cam (event_val v))
         else [])
      else [])"

subsection \<open>Laws of the calibration readers\<close>

lemmas calib_defs = getJsonCameraMatrix_d_def getJsonCameraMatrix_f_def
  getJsonDistortionCoefs_d_def getJsonDistortionCoefs_f_def read_calib_def

lemma mat_write_ok:
  assumes "mat_wf \<sigma> a" "i < mrows a" "j < mcols a"
  shows "mat_write a i j v \<sigma> = Inr (\<sigma>(mbuf a := (\<sigma> (mbuf a))[i * mcols a + j := v]))"
proof -
  have "i * mcols a + j < Suc i * mcols a" using assms(3) by simp
  also have "\<dots> \<le> mrows a * mcols a" using assms(2) by (intro mult_le_mono1) simp
  finally show ?thesis using assms by (simp add: mat_write_def mat_wf_def mat_area_def)
qed

text \<open>On a matrix of the expected shape the element loop succeeds whatever the json holds, keeps
  the shape and touches no other buffer.\<close>

lemma read_cells_total:
  assumes "mat_wf \<sigma> a" "\<And>i j. (i, j) \<in> set cs \<Longrightarrow> i < mrows a \<and> j < mcols a"
  shows "\<exists>\<sigma>'. read_cells get matx cs a \<sigma> = Inr \<sigma>' \<and> mat_wf \<sigma>' a \<and> (\<forall>b. b \<noteq> mbuf a \<longrightarrow> \<sigma>' b = \<sigma> b)"
  using assms
proof (induction cs arbitrary: \<sigma>)
  case Nil
  then show ?case by simp
next
  case (Cons c cs)
  obtain i j where c: "c = (i, j)" by (cases c)
  then have ij: "i < mrows a" "j < mcols a" using Cons.prems(2) by auto
  show ?case
  proof (cases "rbind (json_at_idx matx i) (\<lambda>row. rbind (json_at_idx row j) get)")
    case (Inl e)
    with c Cons.prems(1) show ?thesis by auto
  next
    case (Inr v)
    let ?\<sigma> = "\<sigma>(mbuf a := (\<sigma> (mbuf a))[i * mcols a + j := v])"
    have "mat_wf ?\<sigma> a" using Cons.prems(1) by (simp add: mat_wf_def)
    then obtain \<sigma>' where "read_cells get matx cs a ?\<sigma> = Inr \<sigma>'" "mat_wf \<sigma>' a"
        "\<forall>b. b \<noteq> mbuf a \<longrightarrow> \<sigma>' b = ?\<sigma> b"
      using Cons.IH [OF \<open>mat_wf ?\<sigma> a\<close>] Cons.prems(2) by (metis list.set_intros(2))
    with c Inr mat_write_ok [OF Cons.prems(1) ij] show ?thesis by auto
  qed
qed

lemma matrix_cells_in: "(i, j) \<in> set matrix_cells \<Longrightarrow> i < 3 \<and> j < 3"
  by (auto simp: matrix_cells_def)

lemma distort_cells_in: "(i, j) \<in> set distort_cells \<Longrightarrow> i < 1 \<and> j < 5"
  by (auto simp: distort_cells_def)

lemma read_calib_total:
  assumes "mat_wf \<sigma> a" "\<And>i j. (i, j) \<in> set cs \<Longrightarrow> i < mrows a \<and> j < mcols a"
  shows "\<exists>\<sigma>'. read_calib get key cs cam a \<sigma> = Inr (is_object (calibration cam), \<sigma>')
           \<and> mat_wf \<sigma>' a \<and> (\<forall>b. b \<noteq> mbuf a \<longrightarrow> \<sigma>' b = \<sigma> b)"
proof (cases "is_object (calibration cam)")
  case True
  show ?thesis
  proof (cases "json_at (calibration cam) key")
    case (Inl e)
    with True assms(1) show ?thesis by (simp add: read_calib_def)
  next
    case (Inr matx)
    with True read_cells_total [OF assms, where get = get and matx = matx] show ?thesis
      by (auto simp: read_calib_def)
  qed
next
  case False
  with assms(1) show ?thesis by (simp add: read_calib_def)
qed

text \<open>The store invariant of the program: the two default buffers have their sizes.\<close>

definition store_ok :: "mat_store \<Rightarrow> bool" where
  "store_ok \<sigma> \<longleftrightarrow> length (\<sigma> 0) = 9 \<and> length (\<sigma> 1) = 5"

lemma store_ok0 [simp]: "store_ok mat_store0"
  by (simp add: store_ok_def mat_store0_def)

lemma json2_fresh:
  assumes "store_ok \<sigma>"
  shows "\<exists>cam \<sigma>' cs. VisionCamera_json2 L cfg cal \<sigma> = Inr (cam, \<sigma>', cs) \<and> store_ok \<sigma>'
           \<and> camera_matrix cam = default_matrix \<and> distortion cam = default_distort
           \<and> calibration cam = cal \<and> config cam = cfg \<and> m_handle cam = fst (open_usb L cfg)"
proof -
  let ?cam = "(VisionCamera0 L 0)\<lparr>config := cfg, calibration := cal, m_handle := fst (open_usb L cfg)\<rparr>"
  have m: "mat_wf \<sigma> default_matrix"
    using assms by (simp add: store_ok_def mat_wf_def default_matrix_def mat_area_def)
  obtain \<sigma>1 where 1: "getJsonCameraMatrix_f ?cam default_matrix \<sigma> = Inr (is_object cal, \<sigma>1)"
      "mat_wf \<sigma>1 default_matrix" "\<forall>b. b \<noteq> 0 \<longrightarrow> \<sigma>1 b = \<sigma> b"
    using read_calib_total [OF m, where cs = matrix_cells and get = get_float
        and key = "''camera_matrix''" and cam = ?cam]
    by (auto simp: getJsonCameraMatrix_f_def default_matrix_def dest: matrix_cells_in)
  have d: "mat_wf \<sigma>1 default_distort"
    using assms 1(3) by (simp add: store_ok_def mat_wf_def default_distort_def mat_area_def)
  obtain \<sigma>2 where 2: "getJsonDistortionCoefs_f ?cam default_distort \<sigma>1 = Inr (is_object cal, \<sigma>2)"
      "mat_wf \<sigma>2 default_distort" "\<forall>b. b \<noteq> 1 \<longrightarrow> \<sigma>2 b = \<sigma>1 b"
    using read_calib_total [OF d, where cs = distort_cells and get = get_float
        and key = "''distortion''" and cam = ?cam]
    by (auto simp: getJsonDistortionCoefs_f_def default_distort_def dest: distort_cells_in)
  have "store_ok \<sigma>2"
    using 1(2) 2(2,3) by (simp add: store_ok_def mat_wf_def default_matrix_def default_distort_def mat_area_def)
  with 1(1) 2(1) show ?thesis
    by (auto simp: VisionCamera_json2_def Let_def VisionCamera0_def split_beta)
qed

lemma json2_shares_default:
  assumes "VisionCamera_json2 L cfg cal \<sigma> = Inr (cam, \<sigma>', cs)"
  shows "camera_matrix cam = default_matrix" "distortion cam = default_distort"
  using assms by (auto simp: VisionCamera_json2_def Let_def VisionCamera0_def split_beta split: if_splits)

subsection \<open>Properties\<close>


definition demo_lib :: cs_lib where
  "demo_lib = \<lparr>usb_camera = (\<lambda>n p. 7), get_name = (\<lambda>h. ''cam''), get_mode = (\<lambda>h. VideoMode0),
     is_connected = (\<lambda>h. True), new_sink = (\<lambda>n. 9), new_listener = (\<lambda>p. 11),
     add_server = (\<lambda>n p. 13), get_port = (\<lambda>h. 1181)\<rparr>"

definition demo_calib :: "rat \<Rightarrow> json" where
  "demo_calib r = JObject [(''camera_matrix'',
     JArray [JArray [JFloat (Fin r), JFloat (Fin 0), JFloat (Fin 2)],
             JArray [JFloat (Fin 0), JFloat (Fin r), JFloat (Fin 3)],
             JArray [JFloat (Fin 0), JFloat (Fin 0), JFloat (Fin 1)]])]"


text \<open>The calibration readers report success for every calibration that is a json object,
  even one they cannot read: on a matrix of the right shape they never fail, the result is whether
  the calibration is an object, and no other buffer changes. (The header documents the result as
  whether the array was filled.)\<close>

theorem calibration_reader_result:
  assumes "mat_wf \<sigma> m" "mrows m = 3" "mcols m = 3" "mat_wf \<sigma> d" "mrows d = 1" "mcols d = 5"
  shows "(\<exists>\<sigma>'. getJsonCameraMatrix_f cam m \<sigma> = Inr (is_object (calibration cam), \<sigma>')
           \<and> mat_wf \<sigma>' m \<and> (\<forall>b. b \<noteq> mbuf m \<longrightarrow> \<sigma>' b = \<sigma> b))
    \<and> (\<exists>\<sigma>'. getJsonDistortionCoefs_f cam d \<sigma> = Inr (is_object (calibration cam), \<sigma>')
           \<and> mat_wf \<sigma>' d \<and> (\<forall>b. b \<noteq> mbuf d \<longrightarrow> \<sigma>' b = \<sigma> b))"
  unfolding getJsonCameraMatrix_f_def getJsonDistortionCoefs_f_def using assms
  by (auto intro!: read_calib_total dest: matrix_cells_in distort_cells_in)

theorem calibration_reader_result_witness:
  "(\<exists>\<sigma>'. getJsonCameraMatrix_f ((VisionCamera0 demo_lib 0)\<lparr>calibration := JObject []\<rparr>) default_matrix mat_store0
      = Inr (True, \<sigma>'))"
proof -
  have "mat_wf mat_store0 default_matrix" "mat_wf mat_store0 default_distort"
    by (simp_all add: mat_wf_def mat_area_def mat_store0_def default_matrix_def default_distort_def)
  from calibration_reader_result [OF this(1) _ _ this(2),
      of "(VisionCamera0 demo_lib 0)\<lparr>calibration := JObject []\<rparr>"]
  show ?thesis by (auto simp: default_matrix_def default_distort_def)
qed

text \<open>Cameras built from json share one calibration buffer. The matrices of a new camera are
  copies of the headers \<^verbatim>\<open>default_matrix\<close> and \<^verbatim>\<open>default_distort\<close>, so reading the calibration of a
  second camera overwrites that of the first: afterwards both cameras, and the default every
  uncalibrated pipeline points at, hold the same numbers.\<close>

theorem json_cameras_share_calibration:
  assumes "VisionCamera_json2 L cfg1 cal1 \<sigma> = Inr (c1, \<sigma>1, l1)"
    and "VisionCamera_json2 L cfg2 cal2 \<sigma>1 = Inr (c2, \<sigma>2, l2)"
  shows "(mat_data \<sigma>2 (camera_matrix c1) = mat_data \<sigma>2 (camera_matrix c2))
    \<and> (mat_data \<sigma>2 (distortion c1) = mat_data \<sigma>2 (distortion c2))
    \<and> (mat_data \<sigma>2 default_matrix = mat_data \<sigma>2 (camera_matrix c2))"
  using json2_shares_default [OF assms(1)] json2_shares_default [OF assms(2)] by simp_all

lemma json2_calibrated:
  "\<exists>cam \<sigma>' cs. VisionCamera_json2 demo_lib (JObject []) (demo_calib r) \<sigma> = Inr (cam, \<sigma>', cs)
     \<and> \<sigma>' 0 = [Fin r, Fin 0, Fin 2, Fin 0, Fin r, Fin 3, Fin 0, Fin 0, Fin 1] \<and> \<sigma>' 1 = \<sigma> 1
     \<and> camera_matrix cam = default_matrix"
  if "length (\<sigma> 0) = 9"
proof -
  let ?cam = "(VisionCamera0 demo_lib 0)\<lparr>config := JObject [], calibration := demo_calib r\<rparr>"
  have "length (\<sigma> 0) = Suc (Suc (Suc (Suc (Suc (Suc (Suc (Suc (Suc 0))))))))" using that by simp
  then have 1: "getJsonCameraMatrix_f ?cam default_matrix \<sigma> =
      Inr (True, \<sigma>(0 := [Fin r, Fin 0, Fin 2, Fin 0, Fin r, Fin 3, Fin 0, Fin 0, Fin 1]))"
    by (auto simp: calib_defs matrix_cells_def mat_write_def length_Suc_conv demo_calib_def default_matrix_def)
  have 2: "getJsonDistortionCoefs_f ?cam default_distort \<sigma>' = Inr (True, \<sigma>')" for \<sigma>'
    by (simp add: calib_defs demo_calib_def)
  show ?thesis using 1 2
    by (auto simp: VisionCamera_json2_def open_usb_def VisionCamera0_def Let_def demo_lib_def)
qed

theorem json_cameras_share_calibration_witness:
  "\<exists>c1 \<sigma>1 l1 c2 \<sigma>2 l2.
     VisionCamera_json2 demo_lib (JObject []) (demo_calib 5) mat_store0 = Inr (c1, \<sigma>1, l1)
     \<and> VisionCamera_json2 demo_lib (JObject []) (demo_calib 6) \<sigma>1 = Inr (c2, \<sigma>2, l2)
     \<and> mat_data \<sigma>2 (camera_matrix c1) = mat_data \<sigma>2 (camera_matrix c2)
     \<and> mat_data \<sigma>2 (camera_matrix c1) \<noteq> mat_data \<sigma>1 (camera_matrix c1)"
proof -
  obtain c1 \<sigma>1 l1 where 1: "VisionCamera_json2 demo_lib (JObject []) (demo_calib 5) mat_store0 = Inr (c1, \<sigma>1, l1)"
      "\<sigma>1 0 = [Fin 5, Fin 0, Fin 2, Fin 0, Fin 5, Fin 3, Fin 0, Fin 0, Fin 1]" "camera_matrix c1 = default_matrix"
    using json2_calibrated [of mat_store0 5] by (auto simp: mat_store0_def)
  then obtain c2 \<sigma>2 l2 where 2: "VisionCamera_json2 demo_lib (JObject []) (demo_calib 6) \<sigma>1 = Inr (c2, \<sigma>2, l2)"
      "\<sigma>2 0 = [Fin 6, Fin 0, Fin 2, Fin 0, Fin 6, Fin 3, Fin 0, Fin 0, Fin 1]"
    using json2_calibrated [of \<sigma>1 6] by auto
  have "mat_data \<sigma>2 (camera_matrix c1) \<noteq> mat_data \<sigma>1 (camera_matrix c1)"
    using 1 2 by (simp add: mat_data_def default_matrix_def)
  with 1(1) 2(1) json_cameras_share_calibration [OF 1(1) 2(1)] show ?thesis by blast
qed

lemma event_val_int:
  "- (2 ^ 31) \<le> i \<Longrightarrow> i < 2 ^ 31 \<Longrightarrow> event_val (NtInteger i) = i"
  by (simp add: event_val_def fcvtzs32_of_int)

lemma event_val_nonnumeric: "event_val (NtString t) = 2147483647" "event_val (NtBoolean b) = 2147483647"
  by (simp_all add: event_val_def of_int_dbl_def rat_trunc_def sat_def)



text \<open>Publishing a camera's settings leaves the entries at brightness 50 and automatic white
  balance and exposure, sets the camera accordingly, and replaces the old listener by the new one.\<close>

theorem adjustable_defaults:
  "setNetworkAdjustable L cam = (cam', cs) \<Longrightarrow>
     last_put cs (ntable cam) ''Brightness'' = Some (NtInteger 50)
   \<and> last_put cs (ntable cam) ''WhiteBalance'' = Some (NtInteger (-1))
   \<and> last_put cs (ntable cam) ''Exposure'' = Some (NtInteger (-1))
   \<and> CsSetBrightness (m_handle cam) 50 \<in> set cs \<and> CsSetExposureAuto (m_handle cam) \<in> set cs
   \<and> CsSetWhiteBalanceAuto (m_handle cam) \<in> set cs
   \<and> NtRemoveListener (listener_handle cam) \<in> set cs
   \<and> listener_handle cam' = new_listener L (ntable cam)
   \<and> m_handle cam' = m_handle cam \<and> ntable cam' = ntable cam"
  by (auto simp: setNetworkAdjustable_def setBrightness_def setWhiteBalance_def setExposure_def
      priv_setBrightness_def priv_setExposure_def priv_setWhiteBalance_def entry_set_def Let_def)

theorem adjustable_defaults_witness:
  "last_put (snd (setNetworkAdjustable demo_lib (VisionCamera0 demo_lib 7))) [''Cameras'', ''cam''] ''Brightness''
     = Some (NtInteger 50)"
  using adjustable_defaults [of demo_lib "VisionCamera0 demo_lib 7"
      "fst (setNetworkAdjustable demo_lib (VisionCamera0 demo_lib 7))"
      "snd (setNetworkAdjustable demo_lib (VisionCamera0 demo_lib 7))"]
  by (simp add: VisionCamera0_def demo_lib_def)

text \<open>A configuration block with a known pixel format and numeric fields gives exactly that
  video mode, whatever other members it has; a block without any of the fields gives the zero
  mode.\<close>

theorem json_video_mode:
  assumes "json_at cfg ''pixel format'' = Inr (JString str)"
    and "json_at cfg ''width'' = Inr (JUInt w)" "json_at cfg ''height'' = Inr (JUInt h)"
    and "json_at cfg ''fps'' = Inr (JUInt f)"
    and "w < 2 ^ 31" "h < 2 ^ 31" "f < 2 ^ 31"
  shows "(getJsonVideoMode cfg =
           \<lparr>pixelFormat = format_code str, width = int w, height = int h, fps = int f\<rparr>)
    \<and> (getJsonVideoMode (JObject []) = VideoMode0)"
proof (intro conjI)
  have c: "json_count cfg k \<noteq> 0" if "json_at cfg k = Inr v" for k v
    using that json_count_pos_iff by (metis less_irrefl)
  have i: "int32 (uint32 (int n)) = int n" if "n < 2 ^ 31" for n
    using that by (simp add: uint32_id int32_id)
  show "getJsonVideoMode cfg =
           \<lparr>pixelFormat = format_code str, width = int w, height = int h, fps = int f\<rparr>"
    using assms by (simp add: getJsonVideoMode_def read_field_def c [OF assms(1)] c [OF assms(2)]
        c [OF assms(3)] c [OF assms(4)] i VideoMode0_def)
qed (simp add: getJsonVideoMode_def)

theorem json_video_mode_witness:
  "getJsonVideoMode (JObject [(''fps'', JUInt 30), (''height'', JUInt 480), (''name'', JString ''front''),
       (''pixel format'', JString ''MJPEG''), (''width'', JUInt 640)])
     = \<lparr>pixelFormat = kMJPEG, width = 640, height = 480, fps = 30\<rparr>"
proof -
  have "format_code ''MJPEG'' = kMJPEG" by code_simp
  then show ?thesis
    using json_video_mode [of "JObject [(''fps'', JUInt 30), (''height'', JUInt 480), (''name'', JString ''front''),
       (''pixel format'', JString ''MJPEG''), (''width'', JUInt 640)]" "''MJPEG''" 640 480 30]
    by simp
qed

text \<open>Which video mode a camera starts with. The constructors from a source and from json
  with a calibration keep the mode of the device when its pixel format is known and fall back to the
  configuration when it is unknown; the constructor from json without a calibration does the
  opposite.\<close>

theorem initial_video_mode:
  assumes "store_ok \<sigma>"
  shows "(properties (fst (VisionCamera_source L h cfg)) =
           (if pixelFormat (get_mode L h) = kUnknown then getJsonVideoMode cfg else get_mode L h))
    \<and> (\<exists>cam \<sigma>' cs. VisionCamera_json2 L cfg cal \<sigma> = Inr (cam, \<sigma>', cs) \<and>
           properties cam = (let m = get_mode L (fst (open_usb L cfg)) in
             if pixelFormat m = kUnknown then getJsonVideoMode cfg else m))
    \<and> (properties (fst (VisionCamera_json L cfg)) = (let m = get_mode L (fst (open_usb L cfg)) in
             if pixelFormat m = kUnknown then m else getJsonVideoMode cfg))"
proof (intro conjI)
  show "properties (fst (VisionCamera_source L h cfg)) =
           (if pixelFormat (get_mode L h) = kUnknown then getJsonVideoMode cfg else get_mode L h)"
    by (simp add: VisionCamera_source_def VisionCamera0_def VideoMode_bool_def Let_def)
  show "properties (fst (VisionCamera_json L cfg)) = (let m = get_mode L (fst (open_usb L cfg)) in
             if pixelFormat m = kUnknown then m else getJsonVideoMode cfg)"
    by (simp add: VisionCamera_json_def VisionCamera0_def VideoMode_bool_def Let_def split_beta)
  from json2_fresh [OF assms, of L cfg cal] obtain cam \<sigma>' cs
    where c: "VisionCamera_json2 L cfg cal \<sigma> = Inr (cam, \<sigma>', cs)" by auto
  then have "properties cam = (let m = get_mode L (fst (open_usb L cfg)) in
             if pixelFormat m = kUnknown then getJsonVideoMode cfg else m)"
    by (auto simp: VisionCamera_json2_def VisionCamera0_def VideoMode_bool_def Let_def split_beta)
  with c show "\<exists>cam \<sigma>' cs. VisionCamera_json2 L cfg cal \<sigma> = Inr (cam, \<sigma>', cs) \<and>
           properties cam = (let m = get_mode L (fst (open_usb L cfg)) in
             if pixelFormat m = kUnknown then getJsonVideoMode cfg else m)" by blast
qed

theorem initial_video_mode_witness:
  "\<exists>cam \<sigma>' cs. VisionCamera_json2 demo_lib (JObject [(''width'', JUInt 640)]) JNull mat_store0 = Inr (cam, \<sigma>', cs)
     \<and> properties cam = getJsonVideoMode (JObject [(''width'', JUInt 640)])"
  using initial_video_mode [OF store_ok0, where L = demo_lib and cfg = "JObject [(''width'', JUInt 640)]" and cal = JNull and h = 0]
  by (simp add: demo_lib_def VideoMode0_def)

end
