(* ===== verification/Server.thy ===== *)
theory Server
  imports Camera
begin

text \<open>
  The registry of \<^verbatim>\<open>vs2::VisionServer\<close> (\<^verbatim>\<open>core/visionserver2.h\<close>, \<^verbatim>\<open>core/visionserver2.cpp\<close>): cameras,
  pipelines and output streams, the operations that add and replace them, the source selection of a
  stream, and \<^verbatim>\<open>compensate\<close>.

  A pipeline is held by pointer, so the pipelines are objects in a heap \<open>pheap\<close> named by
  references; \<open>heap_allocated\<close> lists the references the server owns (\<^verbatim>\<open>std::unique_ptr\<close>), and
  clearing it destroys those objects. Using a reference without an object is \<open>Inl UB\<close>.

  Cameras are held by value, in the storage of a vector. A pointer to a camera or to its members, as a
  pipeline keeps to the matrices and a listener to the camera it was added for, is a storage and a
  position in it; it dangles once the vector has moved to another storage.
\<close>

subsection \<open>State\<close>

type_synonym pref = nat

type_synonym cam_ref = "nat \<times> nat"

datatype mat_ptr = DefaultMat | CameraMat cam_ref

record BasePipe =
  pname :: string
  phandle :: handle
  pinput :: handle
  pmode :: VideoMode
  src_matrix :: mat_ptr
  src_distort :: mat_ptr

record OutputStream =
  shandle :: handle
  stable :: path
  local_idx :: int

text \<open>The storage of the vector of cameras: its number, its capacity, and for each camera the pointer
  \<^verbatim>\<open>this\<close> that its listener has captured.\<close>

record storage =
  sbuf :: nat
  scap :: nat
  listening :: "cam_ref list"

record server =
  cameras :: "VisionCamera list"
  storage :: storage
  pipelines :: "pref list"
  heap_allocated :: "pref list"
  pheap :: "pref \<rightharpoonup> BasePipe"
  streams :: "OutputStream list"
  is_running :: bool
  slog :: log

definition vs_table :: path where
  "vs_table = [''Vision Server'']"

definition pipes_table :: path where
  "pipes_table = vs_table @ [''Pipelines'']"

definition streams_table :: path where
  "streams_table = vs_table @ [''Streams'']"

definition ptable :: "BasePipe \<Rightarrow> path" where
  "ptable p = pipes_table @ [pname p]"

definition emit :: "log \<Rightarrow> server \<Rightarrow> server" where
  "emit cs s = s\<lparr>slog := slog s @ cs\<rparr>"

definition put_num :: "path \<Rightarrow> string \<Rightarrow> int \<Rightarrow> call" where
  "put_num p k n = NtPut p k (NtDouble (of_int_dbl n))"

definition VisionServer_init :: server where
  "VisionServer_init =
     \<lparr>cameras = [], storage = \<lparr>sbuf = 0, scap = 0, listening = []\<rparr>, pipelines = [], heap_allocated = [], pheap = Map.empty, streams = [],
      is_running = False,
      slog = [put_num vs_table ''Cameras Available'' 0, put_num vs_table ''Pipelines Available'' 0,
              NtPut vs_table ''Status'' (NtString ''Offline'')]\<rparr>"

definition isRunning :: "server \<Rightarrow> bool" where
  "isRunning s = is_running s"

definition numCameras :: "server \<Rightarrow> nat" where
  "numCameras s = length (cameras s)"

definition numPipelines :: "server \<Rightarrow> nat" where
  "numPipelines s = length (pipelines s)"

definition numStreams :: "server \<Rightarrow> nat" where
  "numStreams s = length (streams s)"

subsection \<open>Pipelines\<close>

text \<open>The protected constructor of \<^verbatim>\<open>BasePipe\<close>; \<open>h\<close> and \<open>i\<close> are the handles of its source and
  its sink.\<close>

definition BasePipe_new :: "string \<Rightarrow> handle \<Rightarrow> handle \<Rightarrow> BasePipe" where
  "BasePipe_new nm h i =
     \<lparr>pname = nm, phandle = h, pinput = i, pmode = VideoMode0,
      src_matrix = DefaultMat, src_distort = DefaultMat\<rparr>"

definition deref :: "server \<Rightarrow> pref \<Rightarrow> BasePipe res" where
  "deref s r = (case pheap s r of None \<Rightarrow> Inl UB | Some p \<Rightarrow> Inr p)"

definition setCamera :: "cs_lib \<Rightarrow> pref \<Rightarrow> nat \<Rightarrow> VisionCamera \<Rightarrow> server \<Rightarrow> server res" where
  "setCamera L r i cam s = rbind (deref s r) (\<lambda>p.
     let m = get_mode L (m_handle cam) in
     Inr (emit [CsSetVideoMode (phandle p) m, CsSetSource (pinput p) (m_handle cam)]
       (s\<lparr>pheap := (pheap s)(r \<mapsto> p\<lparr>pmode := m, src_matrix := CameraMat (sbuf (storage s), i),
          src_distort := CameraMat (sbuf (storage s), i)\<rparr>)\<rparr>)))"

definition setPipeline :: "pref \<Rightarrow> pref \<Rightarrow> server \<Rightarrow> server res" where
  "setPipeline r r' s = rbind (deref s r) (\<lambda>p. rbind (deref s r') (\<lambda>q.
     Inr (emit [CsSetVideoMode (phandle p) (pmode q), CsSetSource (pinput p) (phandle q)]
       (s\<lparr>pheap := (pheap s)(r \<mapsto> p\<lparr>pmode := pmode q, src_matrix := src_matrix q,
                                       src_distort := src_distort q\<rparr>)\<rparr>))))"

definition setSource :: "cs_lib \<Rightarrow> pref \<Rightarrow> handle \<Rightarrow> server \<Rightarrow> server res" where
  "setSource L r h s = rbind (deref s r) (\<lambda>p.
     Inr (emit [CsSetVideoMode (phandle p) (get_mode L h), CsSetSource (pinput p) h]
       (s\<lparr>pheap := (pheap s)(r \<mapsto> p\<lparr>pmode := get_mode L h, src_matrix := DefaultMat,
                                       src_distort := DefaultMat\<rparr>)\<rparr>)))"

text \<open>What a pipeline reads through its pointers.\<close>

definition deref_cam :: "server \<Rightarrow> cam_ref \<Rightarrow> VisionCamera res" where
  "deref_cam s a = (if fst a = sbuf (storage s) then vec_idx (cameras s) (snd a) else Inl UB)"

definition read_mat :: "server \<Rightarrow> cvmat \<Rightarrow> (VisionCamera \<Rightarrow> cvmat) \<Rightarrow> mat_ptr \<Rightarrow> cvmat res" where
  "read_mat s d get m = (case m of DefaultMat \<Rightarrow> Inr d | CameraMat a \<Rightarrow> rbind (deref_cam s a) (\<lambda>c. Inr (get c)))"

definition getSrcMatrix :: "server \<Rightarrow> pref \<Rightarrow> cvmat res" where
  "getSrcMatrix s r = rbind (deref s r) (\<lambda>p. read_mat s default_matrix camera_matrix (src_matrix p))"

definition getSrcDistort :: "server \<Rightarrow> pref \<Rightarrow> cvmat res" where
  "getSrcDistort s r = rbind (deref s r) (\<lambda>p. read_mat s default_distort distortion (src_distort p))"

subsection \<open>Cameras\<close>

text \<open>Making room for \<open>need\<close> cameras: the vector moves to a new storage of capacity \<open>cap\<close> if the capacity
  does not suffice. Then the cameras from position \<open>n\<close> get their listeners.\<close>

definition make_room :: "nat \<Rightarrow> nat \<Rightarrow> storage \<Rightarrow> storage" where
  "make_room need cap m = (if need \<le> scap m then m else m\<lparr>sbuf := sbuf m + 1, scap := cap\<rparr>)"

definition listen :: "nat \<Rightarrow> nat \<Rightarrow> storage \<Rightarrow> storage" where
  "listen n num m = m\<lparr>listening := listening m @ map (\<lambda>k. (sbuf m, n + k)) [0..<num]\<rparr>"

definition adjust :: "cs_lib \<Rightarrow> VisionCamera \<Rightarrow> VisionCamera \<times> log" where
  "adjust L c = setNetworkAdjustable L (setNetworkBase L vs_table c)"

definition cameras_available :: "server \<Rightarrow> server" where
  "cameras_available s = emit [put_num vs_table ''Cameras Available'' (int (length (cameras s)))] s"

text \<open>\<^verbatim>\<open>emplace_back\<close> doubles a capacity that is used up.\<close>

definition addCamera :: "cs_lib \<Rightarrow> VisionCamera \<Rightarrow> server \<Rightarrow> bool \<times> server" where
  "addCamera L c s =
     (if \<not> isRunning s then
        (let (c', cs) = adjust L c in
         (True, cameras_available (emit cs (s\<lparr>cameras := cameras s @ [c'],
            storage := listen (numCameras s) 1 (make_room (numCameras s + 1) (numCameras s + max (numCameras s) 1) (storage s))\<rparr>))))
      else (False, s))"

definition adjust_all :: "cs_lib \<Rightarrow> VisionCamera list \<Rightarrow> VisionCamera list \<times> log" where
  "adjust_all L cs = (map (fst \<circ> adjust L) cs, concat (map (snd \<circ> adjust L) cs))"

text \<open>\<^verbatim>\<open>reserve\<close> asks for the exact capacity.\<close>

definition addCameras :: "cs_lib \<Rightarrow> VisionCamera list \<Rightarrow> server \<Rightarrow> bool \<times> server" where
  "addCameras L cms s =
     (if \<not> isRunning s then
        (let (cs', l) = adjust_all L cms in
         (True, cameras_available (emit l (s\<lparr>cameras := cameras s @ cs',
            storage := listen (numCameras s) (length cms) (make_room (numCameras s + length cms) (numCameras s + length cms) (storage s))\<rparr>))))
      else (False, s))"

text \<open>Assigning the vector destroys the cameras it held and takes over the storage of the argument, of
  capacity \<open>cap\<close>.\<close>

definition setCameras :: "cs_lib \<Rightarrow> nat \<Rightarrow> VisionCamera list \<Rightarrow> server \<Rightarrow> bool \<times> server" where
  "setCameras L cap cms s =
     (if \<not> isRunning s then
        (let (cs', l) = adjust_all L cms in
         (True, cameras_available (emit l
            ((emit (concat (map VisionCamera_destroy (cameras s))) s)\<lparr>cameras := cs', storage := listen 0 (length cms)
               \<lparr>sbuf = sbuf (storage s) + 1, scap = max cap (length cms), listening = []\<rparr>\<rparr>))))
      else (False, s))"

text \<open>The event of a remote value for camera \<open>i\<close>: its listener uses the camera it was added for.\<close>

definition camera_event :: "nat \<Rightarrow> path \<times> string \<Rightarrow> nt_val \<Rightarrow> server \<Rightarrow> server res" where
  "camera_event i key v s = rbind (vec_idx (listening (storage s)) i) (\<lambda>a. rbind (deref_cam s a) (\<lambda>c.
     Inr (emit (camera_listener c key v) s)))"

subsection \<open>Adding pipelines\<close>

definition pipelines_available :: "server \<Rightarrow> server" where
  "pipelines_available s = emit [put_num vs_table ''Pipelines Available'' (int (length (pipelines s)))] s"

definition addPipeline :: "pref \<Rightarrow> server \<Rightarrow> bool \<times> server" where
  "addPipeline p s =
     (if \<not> isRunning s then (True, pipelines_available (s\<lparr>pipelines := pipelines s @ [p]\<rparr>))
      else (False, s))"

definition addPipelines :: "pref list \<Rightarrow> server \<Rightarrow> bool \<times> server" where
  "addPipelines ps s =
     (if \<not> isRunning s then (True, pipelines_available (s\<lparr>pipelines := pipelines s @ ps\<rparr>))
      else (False, s))"

text \<open>\<^verbatim>\<open>heap_allocated.clear()\<close> destroys the objects the server owns.\<close>

definition clear_heap :: "server \<Rightarrow> server" where
  "clear_heap s = s\<lparr>heap_allocated := [], pheap := pheap s |` (- set (heap_allocated s))\<rparr>"

definition setPipelines :: "pref list \<Rightarrow> server \<Rightarrow> bool \<times> server" where
  "setPipelines ps s =
     (if \<not> isRunning s then
        (True, pipelines_available ((clear_heap (s\<lparr>pipelines := []\<rparr>))\<lparr>pipelines := ps\<rparr>))
      else (False, s))"

text \<open>The template versions construct the pipelines themselves: each new object is a fresh
  reference with its contents.\<close>

definition alloc_pipe :: "pref \<times> BasePipe \<Rightarrow> server \<Rightarrow> server" where
  "alloc_pipe rp s = s\<lparr>heap_allocated := heap_allocated s @ [fst rp], pheap := (pheap s)(fst rp \<mapsto> snd rp)\<rparr>"

fun pipeExpander :: "(pref \<times> BasePipe) list \<Rightarrow> server \<Rightarrow> nat \<times> server" where
  "pipeExpander [] s = (0, s)"
| "pipeExpander (rp # rps) s = (let (n, s') = pipeExpander rps (alloc_pipe rp s) in (1 + n, s'))"

definition addPipeline_t :: "pref \<times> BasePipe \<Rightarrow> server \<Rightarrow> bool \<times> server" where
  "addPipeline_t rp s =
     (if \<not> isRunning s then
        (let s' = alloc_pipe rp s in (True, s'\<lparr>pipelines := pipelines s' @ [last (heap_allocated s')]\<rparr>))
      else (False, s))"

text \<open>The loop \<^verbatim>\<open>for(size_t i = alloc; i >= 0; --i)\<close> of \<^verbatim>\<open>addPipelines<...>()\<close>, with the 64-bit
  arithmetic of \<^verbatim>\<open>size_t\<close>. Its condition always holds, so it is left only by the exception of
  \<^verbatim>\<open>at\<close>; the result is the exception and the pipelines pushed so far.\<close>

partial_function (option) push_new ::
    "pref list \<Rightarrow> 64 word \<Rightarrow> pref list \<Rightarrow> (err \<times> pref list) option" where
  "push_new heap i pipes =
     (case vec_at heap (unat (of_nat (length heap) - i - 1)) of
        Inl e \<Rightarrow> Some (e, pipes)
      | Inr r \<Rightarrow> push_new heap (i - 1) (pipes @ [r]))"

text \<open>The result is the exception, if one is thrown, or the value returned, and the state it leaves
  behind; \<open>None\<close> means that the call does not return.\<close>

definition addPipelines_t :: "(pref \<times> BasePipe) list \<Rightarrow> server \<Rightarrow> ((err + bool) \<times> server) option" where
  "addPipelines_t rps s =
     (if \<not> isRunning s then
        (let (n, s') = pipeExpander rps s in
         (case push_new (heap_allocated s') (of_nat n) (pipelines s') of
            None \<Rightarrow> None
          | Some (e, ps) \<Rightarrow> Some (Inl e, s'\<lparr>pipelines := ps\<rparr>)))
      else Some (Inr False, s))"

definition setPipelines_t :: "(pref \<times> BasePipe) list \<Rightarrow> server \<Rightarrow> bool \<times> server" where
  "setPipelines_t rps s =
     (if \<not> isRunning s then
        (let s' = snd (pipeExpander rps ((clear_heap s)\<lparr>pipelines := []\<rparr>))
         in (True, s'\<lparr>pipelines := pipelines s' @ heap_allocated s'\<rparr>))
      else (False, s))"

subsection \<open>Output streams\<close>

text \<open>The constructor of \<^verbatim>\<open>OutputStream\<close> over a server handle.\<close>

definition OutputStream_new :: "cs_lib \<Rightarrow> handle \<Rightarrow> OutputStream \<times> log" where
  "OutputStream_new L h =
     (let t = streams_table @ [get_name L h] in
      (\<lparr>shandle = h, stable = t, local_idx = 0\<rparr>,
       [put_num t ''Source Index'' 0, put_num t ''Port'' (get_port L h)]))"

definition push_stream :: "cs_lib \<Rightarrow> handle \<Rightarrow> server \<Rightarrow> server" where
  "push_stream L h s =
     (let (st, cs) = OutputStream_new L h in emit cs (s\<lparr>streams := streams s @ [st]\<rparr>))"

definition stream_name :: "nat \<Rightarrow> string" where
  "stream_name n = ''Stream '' @ to_string n"

definition addStream :: "cs_lib \<Rightarrow> server \<Rightarrow> bool \<times> server" where
  "addStream L s =
     (if \<not> isRunning s then
        (True, push_stream L (add_server L (stream_name (length (streams s) + 1)) None) s)
      else (False, s))"

definition addStream_name :: "cs_lib \<Rightarrow> string \<Rightarrow> server \<Rightarrow> bool \<times> server" where
  "addStream_name L n s =
     (if \<not> isRunning s then (True, push_stream L (add_server L n None) s) else (False, s))"

definition addStream_port :: "cs_lib \<Rightarrow> string \<Rightarrow> int \<Rightarrow> server \<Rightarrow> bool \<times> server" where
  "addStream_port L n p s =
     (if \<not> isRunning s then (True, push_stream L (add_server L n (Some p)) s) else (False, s))"

definition addStream_server :: "cs_lib \<Rightarrow> handle \<Rightarrow> server \<Rightarrow> bool \<times> server" where
  "addStream_server L h s =
     (if \<not> isRunning s then (True, push_stream L h s) else (False, s))"

primrec push_n_streams :: "cs_lib \<Rightarrow> nat \<Rightarrow> server \<Rightarrow> server" where
  "push_n_streams L 0 s = s"
| "push_n_streams L (Suc n) s =
     push_n_streams L n (push_stream L (add_server L (stream_name (length (streams s) + 1)) None) s)"

definition addStreams :: "cs_lib \<Rightarrow> nat \<Rightarrow> server \<Rightarrow> bool \<times> server" where
  "addStreams L n s = (if \<not> isRunning s then (True, push_n_streams L n s) else (False, s))"

definition addStreams_names :: "cs_lib \<Rightarrow> string list \<Rightarrow> server \<Rightarrow> bool \<times> server" where
  "addStreams_names L ns s =
     (if \<not> isRunning s then (True, fold (\<lambda>n. push_stream L (add_server L n None)) ns s) else (False, s))"

definition addStreams_ports :: "cs_lib \<Rightarrow> (string \<times> int) list \<Rightarrow> server \<Rightarrow> bool \<times> server" where
  "addStreams_ports L ns s =
     (if \<not> isRunning s then
        (True, fold (\<lambda>(n, p). push_stream L (add_server L n (Some p))) ns s) else (False, s))"

definition addStreams_servers :: "cs_lib \<Rightarrow> handle list \<Rightarrow> server \<Rightarrow> bool \<times> server" where
  "addStreams_servers L hs s =
     (if \<not> isRunning s then (True, fold (push_stream L) hs s) else (False, s))"

subsection \<open>Selecting the source of a stream\<close>

text \<open>The branch the two selection functions share: a negative index is a camera, a positive one
  a pipeline, both counted from 1, and anything else changes no source.\<close>

definition select_source :: "OutputStream \<Rightarrow> int \<Rightarrow> server \<Rightarrow> log res" where
  "select_source st i s =
     (if i < 0 \<and> i \<ge> - c_int (numCameras s) then
        rbind (vec_at (cameras s) (nat ((- i) - 1))) (\<lambda>c. Inr [CsSetSource (shandle st) (m_handle c)])
      else if i > 0 \<and> i \<le> c_int (numPipelines s) then
        rbind (vec_at (pipelines s) (nat (i - 1))) (\<lambda>r.
          rbind (deref s r) (\<lambda>p. Inr [CsSetSource (shandle st) (phandle p)]))
      else Inr [])"

definition set_local_idx :: "nat \<Rightarrow> int \<Rightarrow> server \<Rightarrow> server" where
  "set_local_idx j i s = s\<lparr>streams := (streams s)[j := (streams s ! j)\<lparr>local_idx := i\<rparr>]\<rparr>"

definition setSourceIdx :: "nat \<Rightarrow> int \<Rightarrow> server \<Rightarrow> server res" where
  "setSourceIdx j i s = rbind (vec_idx (streams s) j) (\<lambda>st.
     if local_idx st \<noteq> i then
       rbind (select_source st i s) (\<lambda>cs.
         Inr (emit (cs @ [put_num (stable st) ''Source Index'' i]) (set_local_idx j i s)))
     else Inr s)"

text \<open>Both take a \<^verbatim>\<open>uint16_t\<close>, so the argument is reduced modulo \<open>2 ^ 16\<close>.\<close>

definition setPipelineIdx :: "nat \<Rightarrow> int \<Rightarrow> server \<Rightarrow> server res" where
  "setPipelineIdx j i s = setSourceIdx j (i mod 2 ^ 16) s"

definition setCameraIdx :: "nat \<Rightarrow> int \<Rightarrow> server \<Rightarrow> server res" where
  "setCameraIdx j i s = setSourceIdx j (- (i mod 2 ^ 16)) s"

text \<open>\<^verbatim>\<open>syncIdx\<close>; \<open>d\<close> is the value the entry "Source Index" is read with.\<close>

definition syncIdx :: "nat \<Rightarrow> dbl \<Rightarrow> server \<Rightarrow> server res" where
  "syncIdx j d s = rbind (vec_idx (streams s) j) (\<lambda>st.
     let nt = fcvtzs32 d in
     if nt \<noteq> local_idx st then
       rbind (select_source st nt s) (\<lambda>cs. Inr (emit cs (set_local_idx j nt s)))
     else Inr s)"

subsection \<open>Compensation\<close>

fun find_connected :: "cs_lib \<Rightarrow> VisionCamera list \<Rightarrow> nat \<Rightarrow> nat option" where
  "find_connected L [] i = None"
| "find_connected L (c # cs) i = (if is_connected L (m_handle c) then Some i else find_connected L cs (Suc i))"

text \<open>An index of type \<^verbatim>\<open>int16_t\<close> used as a \<^verbatim>\<open>size_t\<close>: a negative one is far out of range.\<close>

definition at_int :: "'a list \<Rightarrow> int \<Rightarrow> 'a res" where
  "at_int xs i = (if 0 \<le> i then vec_at xs (nat i) else Inl OutOfRange)"

definition compensate :: "cs_lib \<Rightarrow> server \<Rightarrow> (bool \<times> server) res" where
  "compensate L s =
     (let active = (case find_connected L (cameras s) 0 of None \<Rightarrow> -1 | Some i \<Rightarrow> int16 (int i)) in
      if active + 1 \<noteq> 0 then
        rbind (rfold (\<lambda>i s. rbind (vec_at (pipelines s) i) (\<lambda>r.
                 rbind (at_int (cameras s) active) (\<lambda>c. setCamera L r (nat active) c s)))
               [0..<numPipelines s] s) (\<lambda>s.
          if numPipelines s \<noteq> 0 then
            rbind (rfold (\<lambda>j s. setPipelineIdx j 1 s) [0..<numStreams s] s) (\<lambda>s. Inr (True, s))
          else
            rbind (rfold (\<lambda>j s. setCameraIdx j (active + 1) s) [0..<numStreams s] s) (\<lambda>s. Inr (True, s)))
      else Inr (False, s))"

end
