(* ===== verification/Server_Laws.thy ===== *)
theory Server_Laws
  imports Server
begin

text \<open>
  The laws of the registry: every operation is refused while the server runs (the locale
  \<open>registry_op\<close>, interpreted on each operation), which invariants the operations keep, what a
  selection of a stream's source does, and what \<^verbatim>\<open>compensate\<close> achieves.
\<close>

lemma emit_simps [simp]:
  "cameras (emit cs s) = cameras s" "pipelines (emit cs s) = pipelines s"
  "heap_allocated (emit cs s) = heap_allocated s" "pheap (emit cs s) = pheap s"
  "streams (emit cs s) = streams s" "is_running (emit cs s) = is_running s"
  "slog (emit cs s) = slog s @ cs" "storage (emit cs s) = storage s"
  by (simp_all add: emit_def)

lemma emit_Nil [simp]: "emit [] s = s"
  by (simp add: emit_def)

lemmas count_defs = numCameras_def numPipelines_def numStreams_def isRunning_def

lemma available_simps [simp]:
  "cameras (cameras_available s) = cameras s" "pipelines (cameras_available s) = pipelines s"
  "heap_allocated (cameras_available s) = heap_allocated s" "pheap (cameras_available s) = pheap s"
  "streams (cameras_available s) = streams s" "is_running (cameras_available s) = is_running s"
  "cameras (pipelines_available s) = cameras s" "pipelines (pipelines_available s) = pipelines s"
  "heap_allocated (pipelines_available s) = heap_allocated s" "pheap (pipelines_available s) = pheap s"
  "streams (pipelines_available s) = streams s" "is_running (pipelines_available s) = is_running s"
  "storage (cameras_available s) = storage s" "storage (pipelines_available s) = storage s"
  by (simp_all add: cameras_available_def pipelines_available_def)

lemma push_stream_simps [simp]:
  "cameras (push_stream L h s) = cameras s" "pipelines (push_stream L h s) = pipelines s"
  "heap_allocated (push_stream L h s) = heap_allocated s" "pheap (push_stream L h s) = pheap s"
  "is_running (push_stream L h s) = is_running s" "storage (push_stream L h s) = storage s"
  "streams (push_stream L h s) = streams s @ [fst (OutputStream_new L h)]"
  "slog (push_stream L h s) = slog s @ snd (OutputStream_new L h)"
  by (simp_all add: push_stream_def split_beta)

text \<open>Frames of the loops that push streams: they change only the streams and the log.\<close>

definition same_registry :: "server \<Rightarrow> server \<Rightarrow> bool" where
  "same_registry s s' \<longleftrightarrow> cameras s' = cameras s \<and> storage s' = storage s \<and> pipelines s' = pipelines s \<and>
     heap_allocated s' = heap_allocated s \<and> pheap s' = pheap s \<and> is_running s' = is_running s"

lemma same_registry_refl [simp]: "same_registry s s"
  by (simp add: same_registry_def)

lemma same_registry_trans: "same_registry s t \<Longrightarrow> same_registry t u \<Longrightarrow> same_registry s u"
  by (simp add: same_registry_def)

lemma push_stream_same: "same_registry s (push_stream L h s)"
  by (simp add: same_registry_def)

lemma push_n_streams_same: "same_registry s (push_n_streams L n s)"
proof (induction n arbitrary: s)
  case (Suc n)
  show ?case using Suc.IH push_stream_same same_registry_trans by (metis push_n_streams.simps(2))
qed simp

lemma fold_same: "(\<And>x s. same_registry s (f x s)) \<Longrightarrow> same_registry s (fold f xs s)"
  by (induction xs arbitrary: s) (auto intro: same_registry_trans)

subsection \<open>Operations are refused while the server runs\<close>

locale registry_op =
  fixes f :: "server \<Rightarrow> bool \<times> server"
  assumes refused: "isRunning s \<Longrightarrow> f s = (False, s)"
    and accepted: "\<not> isRunning s \<Longrightarrow> fst (f s)"
    and keeps_flag: "isRunning (snd (f s)) = isRunning s"
begin

lemma accepted_iff: "fst (f s) \<longleftrightarrow> \<not> isRunning s"
  using refused accepted by fastforce

lemma frozen: "isRunning s \<Longrightarrow> snd (f s) = s"
  by (simp add: refused)

end

lemma pipeExpander_props:
  "fst (pipeExpander rps s) = length rps"
  "heap_allocated (snd (pipeExpander rps s)) = heap_allocated s @ map fst rps"
  "pipelines (snd (pipeExpander rps s)) = pipelines s"
  "cameras (snd (pipeExpander rps s)) = cameras s" "storage (snd (pipeExpander rps s)) = storage s"
  "streams (snd (pipeExpander rps s)) = streams s"
  "is_running (snd (pipeExpander rps s)) = is_running s"
  "slog (snd (pipeExpander rps s)) = slog s"
  by (induction rps arbitrary: s) (simp_all add: Let_def split_beta alloc_pipe_def)

lemma pipeExpander_heap: "pheap (snd (pipeExpander rps s)) = pheap s ++ map_of (rev rps)"
  by (induction rps arbitrary: s) (simp_all add: Let_def split_beta alloc_pipe_def map_add_assoc)

lemma clear_heap_simps [simp]:
  "cameras (clear_heap s) = cameras s" "pipelines (clear_heap s) = pipelines s"
  "heap_allocated (clear_heap s) = []" "pheap (clear_heap s) = pheap s |` (- set (heap_allocated s))"
  "streams (clear_heap s) = streams s" "is_running (clear_heap s) = is_running s"
  "slog (clear_heap s) = slog s" "storage (clear_heap s) = storage s"
  by (simp_all add: clear_heap_def)

interpretation addCamera: registry_op "addCamera L c"
  by unfold_locales (simp_all add: addCamera_def isRunning_def split_beta)

interpretation addCameras: registry_op "addCameras L cs"
  by unfold_locales (simp_all add: addCameras_def isRunning_def split_beta)

interpretation setCameras: registry_op "setCameras L cap cs"
  by unfold_locales (simp_all add: setCameras_def isRunning_def split_beta)

interpretation addPipeline: registry_op "addPipeline p"
  by unfold_locales (simp_all add: addPipeline_def isRunning_def)

interpretation addPipelines: registry_op "addPipelines ps"
  by unfold_locales (simp_all add: addPipelines_def isRunning_def)

interpretation setPipelines: registry_op "setPipelines ps"
  by unfold_locales (simp_all add: setPipelines_def isRunning_def)

interpretation addPipeline_t: registry_op "addPipeline_t rp"
  by unfold_locales (simp_all add: addPipeline_t_def isRunning_def Let_def alloc_pipe_def)

interpretation setPipelines_t: registry_op "setPipelines_t rps"
  by unfold_locales (simp_all add: setPipelines_t_def isRunning_def Let_def pipeExpander_props)

interpretation addStream: registry_op "addStream L"
  by unfold_locales (simp_all add: addStream_def isRunning_def)

interpretation addStream_name: registry_op "addStream_name L n"
  by unfold_locales (simp_all add: addStream_name_def isRunning_def)

interpretation addStream_port: registry_op "addStream_port L n p"
  by unfold_locales (simp_all add: addStream_port_def isRunning_def)

interpretation addStream_server: registry_op "addStream_server L h"
  by unfold_locales (simp_all add: addStream_server_def isRunning_def)

interpretation addStreams: registry_op "addStreams L n"
  using push_n_streams_same
  by unfold_locales (auto simp: addStreams_def isRunning_def same_registry_def)

interpretation addStreams_names: registry_op "addStreams_names L ns"
  using fold_same [of "\<lambda>n. push_stream L (add_server L n None)", OF push_stream_same]
  by unfold_locales (auto simp: addStreams_names_def isRunning_def same_registry_def)

interpretation addStreams_ports: registry_op "addStreams_ports L ns"
  using fold_same [of "\<lambda>(n, p). push_stream L (add_server L n (Some p))"] push_stream_same
  by unfold_locales (auto simp: addStreams_ports_def isRunning_def same_registry_def split_beta)

interpretation addStreams_servers: registry_op "addStreams_servers L hs"
  using fold_same [of "push_stream L", OF push_stream_same]
  by unfold_locales (auto simp: addStreams_servers_def isRunning_def same_registry_def)

subsection \<open>The invariant of the registry\<close>

text \<open>\<open>cameras_published\<close>: the entry "Cameras Available" holds the number of cameras.
  \<open>pipes_live\<close>: every pipeline pointer refers to an object, and so does every owned one.\<close>

definition cameras_published :: "server \<Rightarrow> bool" where
  "cameras_published s \<longleftrightarrow> last_put (slog s) vs_table ''Cameras Available''
     = Some (NtDouble (of_int_dbl (int (length (cameras s)))))"

definition pipes_live :: "server \<Rightarrow> bool" where
  "pipes_live s \<longleftrightarrow> set (pipelines s) \<subseteq> dom (pheap s) \<and> set (heap_allocated s) \<subseteq> dom (pheap s)
     \<and> distinct (heap_allocated s)"

definition registry_ok :: "server \<Rightarrow> bool" where
  "registry_ok s \<longleftrightarrow> cameras_published s \<and> pipes_live s"

definition quiet :: "log \<Rightarrow> bool" where
  "quiet cs \<longleftrightarrow> \<not> list_ex (puts_to vs_table ''Cameras Available'') cs"

lemma quiet_simps [simp]:
  "quiet []" "quiet (c # cs) \<longleftrightarrow> \<not> puts_to vs_table ''Cameras Available'' c \<and> quiet cs"
  "quiet (cs @ ds) \<longleftrightarrow> quiet cs \<and> quiet ds"
  by (simp_all add: quiet_def)

lemma published_quiet:
  "quiet cs \<Longrightarrow> slog s' = slog s @ cs \<Longrightarrow> cameras s' = cameras s \<Longrightarrow>
   cameras_published s' = cameras_published s"
  by (simp add: cameras_published_def quiet_def last_put_frame)

lemma cameras_available_published [simp]: "cameras_published (cameras_available s)"
  by (simp add: cameras_published_def cameras_available_def put_num_def)

lemma OutputStream_quiet [simp]: "quiet (snd (OutputStream_new L h))"
  by (simp add: OutputStream_new_def Let_def put_num_def puts_to_def)

lemma registry_ok_same:
  "same_registry s s' \<Longrightarrow> quiet cs \<Longrightarrow> slog s' = slog s @ cs \<Longrightarrow> registry_ok s \<Longrightarrow> registry_ok s'"
  by (simp add: registry_ok_def published_quiet pipes_live_def same_registry_def)

lemma registry_ok_init [simp]: "registry_ok VisionServer_init"
  by (simp add: registry_ok_def cameras_published_def pipes_live_def VisionServer_init_def put_num_def)

lemma push_stream_ok: "registry_ok s \<Longrightarrow> registry_ok (push_stream L h s)"
  by (rule registry_ok_same [OF push_stream_same, where cs = "snd (OutputStream_new L h)"]) simp_all

lemma push_n_streams_ok: "registry_ok s \<Longrightarrow> registry_ok (push_n_streams L n s)"
  by (induction n arbitrary: s) (simp_all add: push_stream_ok)

lemma fold_push_ok:
  "(\<And>x s. registry_ok s \<Longrightarrow> registry_ok (f x s)) \<Longrightarrow> registry_ok s \<Longrightarrow> registry_ok (fold f xs s)"
  by (induction xs arbitrary: s) auto

subsubsection \<open>Selection of a source\<close>

text \<open>What index \<open>i\<close> names: the specification of the selection.\<close>

definition source_of :: "server \<Rightarrow> int \<Rightarrow> handle option" where
  "source_of s i =
     (if i < 0 \<and> nat (- i) \<le> length (cameras s) then Some (m_handle (cameras s ! (nat (- i) - 1)))
      else if 0 < i \<and> nat i \<le> length (pipelines s)
        then map_option phandle (pheap s (pipelines s ! (nat i - 1)))
      else None)"

definition small :: "server \<Rightarrow> bool" where
  "small s \<longleftrightarrow> length (cameras s) < 2 ^ 31 \<and> length (pipelines s) < 2 ^ 31"

lemma select_source_eq:
  assumes "pipes_live s" "small s"
  shows "select_source st i s =
     Inr (case source_of s i of None \<Rightarrow> [] | Some h \<Rightarrow> [CsSetSource (shandle st) h])"
proof -
  have c: "c_int (length (cameras s)) = int (length (cameras s))"
    and p: "c_int (length (pipelines s)) = int (length (pipelines s))"
    using assms(2) by (simp_all add: small_def)
  consider "i < 0" | "i = 0" | "0 < i" by linarith
  then show ?thesis
  proof cases
    case 1
    have "nat (- i - 1) = nat (- i) - 1" using 1 by simp
    with 1 show ?thesis
      by (auto simp: select_source_def source_of_def count_defs c vec_at_def)
  next
    case 2
    then show ?thesis by (simp add: select_source_def source_of_def)
  next
    case 3
    show ?thesis
    proof (cases "nat i \<le> length (pipelines s)")
      case True
      then have "pipelines s ! nat (i - 1) \<in> set (pipelines s)" using 3 by (intro nth_mem) linarith
      then obtain q where "pheap s (pipelines s ! nat (i - 1)) = Some q"
        using assms(1) by (auto simp: pipes_live_def)
      moreover have "nat (i - 1) = nat i - 1" using 3 by linarith
      ultimately show ?thesis using 3 True
        by (auto simp: select_source_def source_of_def count_defs p vec_at_def deref_def)
    next
      case False
      with 3 show ?thesis by (simp add: select_source_def source_of_def count_defs p)
    qed
  qed
qed

lemma set_local_idx_simps [simp]:
  "cameras (set_local_idx j i s) = cameras s" "pipelines (set_local_idx j i s) = pipelines s"
  "heap_allocated (set_local_idx j i s) = heap_allocated s" "pheap (set_local_idx j i s) = pheap s"
  "is_running (set_local_idx j i s) = is_running s" "slog (set_local_idx j i s) = slog s" "storage (set_local_idx j i s) = storage s"
  "length (streams (set_local_idx j i s)) = length (streams s)"
  "j < length (streams s) \<Longrightarrow> streams (set_local_idx j i s) ! k =
     (if k = j then (streams s ! j)\<lparr>local_idx := i\<rparr> else streams s ! k)"
  by (simp_all add: set_local_idx_def nth_list_update)

text \<open>The calls a selection makes.\<close>

definition select_calls :: "server \<Rightarrow> nat \<Rightarrow> int \<Rightarrow> log" where
  "select_calls s j i =
     (case source_of s i of None \<Rightarrow> [] | Some h \<Rightarrow> [CsSetSource (shandle (streams s ! j)) h])"

lemma setSourceIdx_eq:
  assumes "pipes_live s" "small s" "j < length (streams s)"
  shows "setSourceIdx j i s = Inr (if local_idx (streams s ! j) = i then s
     else emit (select_calls s j i @ [put_num (stable (streams s ! j)) ''Source Index'' i]) (set_local_idx j i s))"
  using assms by (simp add: setSourceIdx_def vec_idx_ok select_source_eq select_calls_def)

lemma syncIdx_eq:
  assumes "pipes_live s" "small s" "j < length (streams s)"
  shows "syncIdx j d s = Inr (if local_idx (streams s ! j) = fcvtzs32 d then s
     else emit (select_calls s j (fcvtzs32 d)) (set_local_idx j (fcvtzs32 d) s))"
  using assms by (simp add: syncIdx_def vec_idx_ok select_source_eq select_calls_def Let_def)

lemma select_calls_quiet [simp]: "quiet (select_calls s j i)"
  by (simp add: select_calls_def puts_to_def split: option.splits)

lemma registry_ok_select:
  assumes "registry_ok s" "quiet cs"
  shows "registry_ok (emit cs (set_local_idx j i s))" "same_registry s (emit cs (set_local_idx j i s))"
    "length (streams (emit cs (set_local_idx j i s))) = length (streams s)"
proof -
  show f: "same_registry s (emit cs (set_local_idx j i s))" by (simp add: same_registry_def)
  show "registry_ok (emit cs (set_local_idx j i s))"
    by (rule registry_ok_same [OF f assms(2) _ assms(1)]) simp
qed simp

definition kept :: "server \<Rightarrow> server res \<Rightarrow> bool" where
  "kept s r \<longleftrightarrow> (case r of Inl e \<Rightarrow> False
     | Inr s' \<Rightarrow> registry_ok s' \<and> same_registry s s' \<and> length (streams s') = length (streams s))"

lemma setSourceIdx_ok:
  assumes "registry_ok s" "small s" "j < length (streams s)"
  shows "kept s (setSourceIdx j i s)"
proof -
  have "pipes_live s" using assms(1) by (simp add: registry_ok_def)
  note e = setSourceIdx_eq [OF this assms(2,3)]
  have q: "quiet (select_calls s j i @ [put_num (stable (streams s ! j)) ''Source Index'' i])"
    by (simp add: put_num_def puts_to_def)
  show ?thesis unfolding e kept_def
    using assms(1) registry_ok_select [OF assms(1) q] by (cases "local_idx (streams s ! j) = i") simp_all
qed

lemma syncIdx_ok:
  assumes "registry_ok s" "small s" "j < length (streams s)"
  shows "kept s (syncIdx j d s)"
proof -
  have "pipes_live s" using assms(1) by (simp add: registry_ok_def)
  note e = syncIdx_eq [OF this assms(2,3)]
  show ?thesis unfolding e kept_def
    using assms(1) registry_ok_select [OF assms(1) select_calls_quiet]
    by (cases "local_idx (streams s ! j) = fcvtzs32 d") simp_all
qed

lemma small_same: "same_registry s s' \<Longrightarrow> small s' = small s"
  by (simp add: small_def same_registry_def)

end
