(* ===== verification/Server_Reach.thy ===== *)
theory Server_Reach
  imports Server_Laws
begin

text \<open>
  The life of the registry: the operations a client may call, as data (\<open>reg_op\<close>) with their
  execution (\<open>exec_op\<close>), the states they lead to as an inductive predicate (\<open>reachable\<close>), the
  invariant of all of them, and the properties of the selection of a stream's source, of
  \<^verbatim>\<open>compensate\<close>, of the streams' names and of the template versions of the pipeline operations.
\<close>

subsection \<open>Operations as data\<close>

datatype reg_op =
    OpAddCamera VisionCamera | OpAddCameras "VisionCamera list" | OpSetCameras nat "VisionCamera list"
  | OpAddPipeline pref | OpAddPipelines "pref list" | OpSetPipelines "pref list"
  | OpAddPipelineT "pref \<times> BasePipe" | OpSetPipelinesT "(pref \<times> BasePipe) list"
  | OpAddStream | OpAddStreamName string | OpAddStreamPort string int | OpAddStreamServer handle
  | OpAddStreams nat | OpAddStreamsNames "string list" | OpAddStreamsPorts "(string \<times> int) list"
  | OpAddStreamsServers "handle list"

primrec exec_op :: "cs_lib \<Rightarrow> reg_op \<Rightarrow> server \<Rightarrow> bool \<times> server" where
  "exec_op L (OpAddCamera c) = addCamera L c"
| "exec_op L (OpAddCameras cs) = addCameras L cs"
| "exec_op L (OpSetCameras cap cs) = setCameras L cap cs"
| "exec_op L (OpAddPipeline p) = addPipeline p"
| "exec_op L (OpAddPipelines ps) = addPipelines ps"
| "exec_op L (OpSetPipelines ps) = setPipelines ps"
| "exec_op L (OpAddPipelineT rp) = addPipeline_t rp"
| "exec_op L (OpSetPipelinesT rps) = setPipelines_t rps"
| "exec_op L OpAddStream = addStream L"
| "exec_op L (OpAddStreamName n) = addStream_name L n"
| "exec_op L (OpAddStreamPort n p) = addStream_port L n p"
| "exec_op L (OpAddStreamServer h) = addStream_server L h"
| "exec_op L (OpAddStreams n) = addStreams L n"
| "exec_op L (OpAddStreamsNames ns) = addStreams_names L ns"
| "exec_op L (OpAddStreamsPorts ns) = addStreams_ports L ns"
| "exec_op L (OpAddStreamsServers hs) = addStreams_servers L hs"

text \<open>Every operation satisfies the contract of the registry.\<close>

interpretation exec_op: registry_op "exec_op L opn"
  by (cases opn; simp add:
      addCamera.registry_op_axioms addCameras.registry_op_axioms setCameras.registry_op_axioms
      addPipeline.registry_op_axioms addPipelines.registry_op_axioms setPipelines.registry_op_axioms
      addPipeline_t.registry_op_axioms setPipelines_t.registry_op_axioms
      addStream.registry_op_axioms addStream_name.registry_op_axioms addStream_port.registry_op_axioms
      addStream_server.registry_op_axioms addStreams.registry_op_axioms addStreams_names.registry_op_axioms
      addStreams_ports.registry_op_axioms addStreams_servers.registry_op_axioms)

text \<open>A pipeline that has just been constructed points to the default matrices.\<close>

definition new_pipe :: "BasePipe \<Rightarrow> bool" where
  "new_pipe p \<longleftrightarrow> src_matrix p = DefaultMat \<and> src_distort p = DefaultMat"

text \<open>What a caller owes: pointers to live objects, fresh objects for the constructing versions,
  and for \<^verbatim>\<open>setPipelines\<close> no pointer to an object the server itself owns, since the call
  destroys those before it stores the new list.\<close>

fun op_legal :: "reg_op \<Rightarrow> server \<Rightarrow> bool" where
  "op_legal (OpAddPipeline p) s \<longleftrightarrow> p \<in> dom (pheap s)"
| "op_legal (OpAddPipelines ps) s \<longleftrightarrow> set ps \<subseteq> dom (pheap s)"
| "op_legal (OpSetPipelines ps) s \<longleftrightarrow> set ps \<subseteq> dom (pheap s) - set (heap_allocated s)"
| "op_legal (OpAddPipelineT rp) s \<longleftrightarrow> fst rp \<notin> dom (pheap s) \<and> new_pipe (snd rp)"
| "op_legal (OpSetPipelinesT rps) s \<longleftrightarrow> distinct (map fst rps) \<and> fst ` set rps \<inter> dom (pheap s) = {}
     \<and> (\<forall>rp \<in> set rps. new_pipe (snd rp))"
| "op_legal _ s \<longleftrightarrow> True"

lemma pipes_live_emit [simp]: "pipes_live (emit cs s) = pipes_live s"
  by (simp add: pipes_live_def)

lemma registry_ok_live: "registry_ok s \<Longrightarrow> pipes_live s"
  by (simp add: registry_ok_def)

lemma adjust_ok: "pipes_live s \<Longrightarrow> registry_ok (cameras_available (emit cs (s\<lparr>cameras := cms, storage := m\<rparr>)))"
  by (simp add: registry_ok_def pipes_live_def)

lemma pipelines_available_ok:
  "cameras_published s \<Longrightarrow> pipes_live s \<Longrightarrow> registry_ok (pipelines_available s)"
  unfolding registry_ok_def
proof (intro conjI)
  assume "cameras_published s" "pipes_live s"
  then show "cameras_published (pipelines_available s)"
    by (subst published_quiet [where s = s])
      (auto simp: pipelines_available_def put_num_def puts_to_def)
  show "pipes_live (pipelines_available s)" using \<open>pipes_live s\<close> by (simp add: pipes_live_def)
qed

lemma published_cong: "slog s' = slog s \<Longrightarrow> cameras s' = cameras s \<Longrightarrow> cameras_published s' = cameras_published s"
  by (simp add: cameras_published_def)

lemma store_pipes_ok:
  "registry_ok s \<Longrightarrow> set ps \<subseteq> dom (pheap s) \<Longrightarrow> registry_ok (pipelines_available (s\<lparr>pipelines := ps\<rparr>))"
  by (rule pipelines_available_ok) (simp_all add: registry_ok_def pipes_live_def cameras_published_def)

lemma registry_ok_pipes: "registry_ok s \<Longrightarrow> r \<in> set (pipelines s) \<Longrightarrow> \<exists>p. pheap s r = Some p"
  by (auto simp: registry_ok_def pipes_live_def)

lemma setPipelines_t_ok:
  assumes "registry_ok s" "op_legal (OpSetPipelinesT rps) s"
  shows "registry_ok (snd (setPipelines_t rps s))"
  using assms unfolding registry_ok_def
  by (auto simp: setPipelines_t_def Let_def pipeExpander_props pipeExpander_heap pipes_live_def
      cameras_published_def dom_map_of_conv_image_fst)

lemma exec_op_ok:
  assumes "registry_ok s" "op_legal opn s"
  shows "registry_ok (snd (exec_op L opn s))"
proof (cases opn)
  case (OpSetPipelines ps)
  have "pipes_live ((clear_heap (s\<lparr>pipelines := []\<rparr>))\<lparr>pipelines := ps\<rparr>)"
    using assms OpSetPipelines by (auto simp: pipes_live_def)
  moreover have "cameras_published ((clear_heap (s\<lparr>pipelines := []\<rparr>))\<lparr>pipelines := ps\<rparr>)"
    using assms by (simp add: cameras_published_def registry_ok_def)
  ultimately show ?thesis using assms OpSetPipelines
    by (simp add: setPipelines_def pipelines_available_ok)
next
  case (OpAddPipeline p)
  then show ?thesis using assms
    by (auto simp: addPipeline_def dest: registry_ok_pipes intro!: store_pipes_ok)
next
  case (OpAddPipelines ps)
  then show ?thesis using assms
    by (auto simp: addPipelines_def dest: registry_ok_pipes intro!: store_pipes_ok)
next
  case (OpAddPipelineT rp)
  then show ?thesis using assms
    by (auto simp: addPipeline_t_def registry_ok_def pipes_live_def cameras_published_def alloc_pipe_def Let_def)
next
  case (OpSetPipelinesT rps)
  then show ?thesis using assms setPipelines_t_ok by simp
qed (use assms in \<open>auto simp: addCamera_def addCameras_def setCameras_def split_beta adjust_ok
      addStream_def addStream_name_def addStream_port_def addStream_server_def addStreams_def
      addStreams_names_def addStreams_ports_def addStreams_servers_def registry_ok_live
      intro!: push_stream_ok push_n_streams_ok fold_push_ok\<close>)


subsection \<open>Reachable states\<close>

text \<open>A step that changes only what pipelines point to and the streams' indices.\<close>

definition repointed :: "server \<Rightarrow> server \<Rightarrow> bool" where
  "repointed s s' \<longleftrightarrow> cameras s' = cameras s \<and> storage s' = storage s \<and> pipelines s' = pipelines s \<and>
     heap_allocated s' = heap_allocated s \<and> dom (pheap s') = dom (pheap s) \<and>
     is_running s' = is_running s \<and> map stable (streams s') = map stable (streams s) \<and>
     (\<exists>cs. quiet cs \<and> slog s' = slog s @ cs)"

lemma repointed_refl [simp]: "repointed s s"
  by (simp add: repointed_def exI [of _ "[]"])

lemma repointed_trans: "repointed s t \<Longrightarrow> repointed t u \<Longrightarrow> repointed s u"
  by (auto simp: repointed_def)

lemma repointed_ok: "repointed s s' \<Longrightarrow> registry_ok s \<Longrightarrow> registry_ok s'"
  by (auto simp: repointed_def registry_ok_def pipes_live_def published_quiet)

lemma repointed_heap:
  "quiet cs \<Longrightarrow> r \<in> dom (pheap s) \<Longrightarrow> repointed s (emit cs (s\<lparr>pheap := (pheap s)(r \<mapsto> p)\<rparr>))"
  by (auto simp: repointed_def)

lemma repointed_idx: "quiet cs \<Longrightarrow> j < length (streams s) \<Longrightarrow> repointed s (emit cs (set_local_idx j i s))"
  by (auto simp: repointed_def set_local_idx_def map_update_const)

lemma deref_Inr [simp]: "deref s r = Inr p \<longleftrightarrow> pheap s r = Some p"
  by (simp add: deref_def split: option.splits)

lemma setCamera_repointed: "setCamera L r i c s = Inr s' \<Longrightarrow> repointed s s'"
  by (auto simp: setCamera_def Let_def puts_to_def intro!: repointed_heap)

lemma setPipeline_repointed: "setPipeline r q s = Inr s' \<Longrightarrow> repointed s s'"
  by (auto simp: setPipeline_def puts_to_def intro!: repointed_heap)

lemma setSource_repointed: "setSource L r h s = Inr s' \<Longrightarrow> repointed s s'"
  by (auto simp: setSource_def puts_to_def intro!: repointed_heap)

lemma select_source_quiet: "select_source st i s = Inr cs \<Longrightarrow> quiet cs"
  by (auto simp: select_source_def puts_to_def split: if_splits)

lemma setSourceIdx_repointed: "setSourceIdx j i s = Inr s' \<Longrightarrow> repointed s s'"
  by (auto simp: setSourceIdx_def put_num_def puts_to_def split: if_splits
      dest: select_source_quiet intro!: repointed_idx)

lemma syncIdx_repointed: "syncIdx j d s = Inr s' \<Longrightarrow> repointed s s'"
  by (auto simp: syncIdx_def Let_def split: if_splits intro!: repointed_idx select_source_quiet)

lemma rfold_repointed:
  assumes "rfold f xs s = Inr s'" "\<And>x s s'. f x s = Inr s' \<Longrightarrow> repointed s s'"
  shows "repointed s s'"
  by (rule rfold_preserves [OF assms(1), where P = "repointed s"]) (auto intro: assms(2) repointed_trans)

lemma compensate_repointed:
  assumes "compensate L s = Inr (b, s')" shows "repointed s s'"
proof -
  define a where "a = (case find_connected L (cameras s) 0 of None \<Rightarrow> -1 | Some i \<Rightarrow> int16 (int i))"
  have 1: "repointed s s1" if "rfold (\<lambda>i s. rbind (vec_at (pipelines s) i) (\<lambda>r.
      rbind (at_int (cameras s) a) (\<lambda>c. setCamera L r (nat a) c s))) [0..<numPipelines s] s = Inr s1" for s1
    by (rule rfold_repointed [OF that]) (auto intro: setCamera_repointed)
  have 2: "repointed s1 s2" if "rfold (\<lambda>j. setPipelineIdx j i) js s1 = Inr s2" for s1 s2 i js
    by (rule rfold_repointed [OF that]) (auto simp: setPipelineIdx_def intro: setSourceIdx_repointed)
  have 3: "repointed s1 s2" if "rfold (\<lambda>j. setCameraIdx j i) js s1 = Inr s2" for s1 s2 i js
    by (rule rfold_repointed [OF that]) (auto simp: setCameraIdx_def intro: setSourceIdx_repointed)
  show ?thesis using assms
    by (auto simp: compensate_def Let_def a_def [symmetric] split: if_splits
        dest!: 1 2 3 intro: repointed_trans)
qed

inductive step :: "cs_lib \<Rightarrow> server \<Rightarrow> server \<Rightarrow> bool" for L where
  step_op: "op_legal opn s \<Longrightarrow> step L s (snd (exec_op L opn s))"
| step_add_t: "distinct (map fst rps) \<Longrightarrow> fst ` set rps \<inter> dom (pheap s) = {} \<Longrightarrow>
    length (heap_allocated s) + length rps < 2 ^ 64 \<Longrightarrow> \<forall>rp \<in> set rps. new_pipe (snd rp) \<Longrightarrow>
    addPipelines_t rps s = Some (r, s') \<Longrightarrow> step L s s'"
| step_new: "r \<notin> dom (pheap s) \<Longrightarrow> new_pipe p \<Longrightarrow> step L s (s\<lparr>pheap := (pheap s)(r \<mapsto> p)\<rparr>)"
| step_delete: "r \<notin> set (pipelines s) \<Longrightarrow> r \<notin> set (heap_allocated s) \<Longrightarrow>
    step L s (s\<lparr>pheap := (pheap s)(r := None)\<rparr>)"
| step_select: "setSourceIdx j i s = Inr s' \<Longrightarrow> step L s s'"
| step_sync: "syncIdx j d s = Inr s' \<Longrightarrow> step L s s'"
| step_camera: "i < numCameras s \<Longrightarrow> setCamera L r i (cameras s ! i) s = Inr s' \<Longrightarrow> step L s s'"
| step_pipeline: "setPipeline r q s = Inr s' \<Longrightarrow> step L s s'"
| step_source: "setSource L r h s = Inr s' \<Longrightarrow> step L s s'"
| step_compensate: "compensate L s = Inr (b, s') \<Longrightarrow> step L s s'"
| step_flag: "step L s (s\<lparr>is_running := b\<rparr>)"

inductive_cases step_cases [elim]: "step L s s'"

inductive reachable :: "cs_lib \<Rightarrow> server \<Rightarrow> bool" for L where
  reachable_init: "reachable L VisionServer_init"
| reachable_step: "reachable L s \<Longrightarrow> step L s s' \<Longrightarrow> reachable L s'"


subsection \<open>The constructing version of \<^verbatim>\<open>addPipelines\<close>\<close>

text \<open>The loop ends after it has pushed the rest of the vector, by the exception of \<^verbatim>\<open>at\<close>.\<close>

lemma push_new_drop:
  assumes "k \<le> length hp" "length hp < 2 ^ 64"
  shows "push_new hp (of_nat (length hp) - 1 - of_nat k) ps = Some (OutOfRange, ps @ drop k hp)"
  using assms(1)
proof (induction "length hp - k" arbitrary: k ps)
  case 0
  have "unat (of_nat k :: 64 word) = k" using 0 assms by (simp add: unat_of_nat_64)
  with 0 show ?case by (subst push_new.simps) (simp add: vec_at_oob)
next
  case (Suc d)
  then have k: "k < length hp" by simp
  have "unat (of_nat k :: 64 word) = k" using k assms by (simp add: unat_of_nat_64)
  then have "push_new hp (of_nat (length hp) - 1 - of_nat k) ps
      = push_new hp (of_nat (length hp) - 1 - of_nat (Suc k)) (ps @ [hp ! k])"
    using k by (subst push_new.simps) (simp add: vec_at_ok algebra_simps)
  then show ?case using Suc.hyps(1) [of "Suc k"] Suc.hyps(2) k by (simp add: Cons_nth_drop_Suc)
qed

lemma push_new_all:
  assumes "n \<le> length hp" "length hp < 2 ^ 64"
  shows "push_new hp (of_nat n) ps =
    Some (OutOfRange, ps @ (if n = length hp then [] else drop (length hp - n - 1) hp))"
proof (cases "n = length hp")
  case True
  have "length hp \<le> unat (- 1 :: 64 word)" using assms by (simp add: unat_minus_1_64)
  with True show ?thesis by (subst push_new.simps) (simp add: vec_at_oob)
next
  case False
  define k where "k = length hp - n - 1"
  have k: "k \<le> length hp" and n: "length hp = n + k + 1" using False assms by (simp_all add: k_def)
  have "(of_nat n :: 64 word) = of_nat (length hp) - 1 - of_nat k" by (simp add: n)
  then show ?thesis using push_new_drop [OF k assms(2)] False by (simp add: k_def)
qed

text \<open>What a call leaves behind: the new objects, and in the list of pipelines the last older
  object again and the new ones, if there is an older one, and nothing otherwise.\<close>

definition pushed_by_t :: "(pref \<times> BasePipe) list \<Rightarrow> server \<Rightarrow> pref list" where
  "pushed_by_t rps s =
     (if heap_allocated s = [] then [] else last (heap_allocated s) # map fst rps)"

lemma addPipelines_t_eq:
  assumes "\<not> isRunning s" "length (heap_allocated s) + length rps < 2 ^ 64"
  shows "addPipelines_t rps s = Some (Inl OutOfRange,
    (snd (pipeExpander rps s))\<lparr>pipelines := pipelines s @ pushed_by_t rps s\<rparr>)"
proof -
  have d: "drop (length hs - Suc 0) hs @ xs = last hs # xs" if "hs \<noteq> []" for hs xs :: "pref list"
    using that by (cases hs rule: rev_cases) simp_all
  show ?thesis using assms
    by (simp add: addPipelines_t_def split_beta pipeExpander_props push_new_all pushed_by_t_def d)
qed

subsection \<open>The invariant\<close>

lemma pipeExpander_live:
  assumes "pipes_live s" "distinct (map fst rps)" "fst ` set rps \<inter> dom (pheap s) = {}"
  shows "pipes_live ((snd (pipeExpander rps s))\<lparr>pipelines := pipelines s @ pushed_by_t rps s\<rparr>)"
proof -
  have "set (pushed_by_t rps s) \<subseteq> set (heap_allocated s) \<union> fst ` set rps"
    by (auto simp: pushed_by_t_def)
  then show ?thesis using assms
    by (auto simp: pipes_live_def pipeExpander_props pipeExpander_heap dom_map_of_conv_image_fst)
qed

lemma addPipelines_t_ok:
  assumes "registry_ok s" "length (heap_allocated s) + length rps < 2 ^ 64"
    "distinct (map fst rps)" "fst ` set rps \<inter> dom (pheap s) = {}" "addPipelines_t rps s = Some (r, s')"
  shows "registry_ok s'"
proof (cases "isRunning s")
  case True
  then show ?thesis using assms by (simp add: addPipelines_t_def)
next
  case False
  then have "s' = (snd (pipeExpander rps s))\<lparr>pipelines := pipelines s @ pushed_by_t rps s\<rparr>"
    using addPipelines_t_eq [OF False assms(2)] assms(5) by simp
  then show ?thesis using pipeExpander_live [OF registry_ok_live [OF assms(1)] assms(3,4)] assms(1)
    by (simp add: registry_ok_def cameras_published_def pipeExpander_props)
qed

lemma step_ok: "step L s s' \<Longrightarrow> registry_ok s \<Longrightarrow> registry_ok s'"
proof (induction rule: step.induct)
  case (step_op opn s)
  then show ?case by (simp add: exec_op_ok)
next
  case (step_add_t rps s r s')
  then show ?case by (simp add: addPipelines_t_ok)
next
  case (step_new r s p)
  then show ?case by (auto simp: registry_ok_def pipes_live_def cameras_published_def)
next
  case (step_delete r s)
  then show ?case by (auto simp: registry_ok_def pipes_live_def cameras_published_def)
next
  case (step_flag s b)
  then show ?case by (simp add: registry_ok_def pipes_live_def cameras_published_def)
qed (auto intro: repointed_ok setSourceIdx_repointed syncIdx_repointed setCamera_repointed
    setPipeline_repointed setSource_repointed compensate_repointed)

lemma reachable_ok: "reachable L s \<Longrightarrow> registry_ok s"
  by (induction rule: reachable.induct) (auto intro: step_ok)

end
