(* ===== verification/Server_Props.thy ===== *)
theory Server_Props
  imports Server_Reach
begin

text \<open>
  Properties of the registry that its clients rely on, with the lemmas about
  \<^verbatim>\<open>compensate\<close> and the selection of all streams they rest on.
\<close>

subsection \<open>Selecting a source for every stream\<close>

lemma repointed_small: "repointed s s' \<Longrightarrow> small s' = small s"
  by (simp add: repointed_def small_def)

lemma source_of_frame:
  "cameras s' = cameras s \<Longrightarrow> pipelines s' = pipelines s \<Longrightarrow> pheap s' = pheap s \<Longrightarrow>
   source_of s' i = source_of s i"
  by (simp add: source_of_def)

text \<open>The loop invariant: streams before \<open>j\<close> are at index \<open>i\<close>, those that had to change were
  connected to \<open>h\<close>, and the others are as before.\<close>

definition selected :: "server \<Rightarrow> int \<Rightarrow> handle \<Rightarrow> nat \<Rightarrow> server \<Rightarrow> bool" where
  "selected s i h j s' \<longleftrightarrow> repointed s s' \<and> pheap s' = pheap s \<and> length (streams s') = length (streams s) \<and>
     (\<forall>m < length (streams s). shandle (streams s' ! m) = shandle (streams s ! m)) \<and>
     (\<forall>m < length (streams s). j \<le> m \<longrightarrow> streams s' ! m = streams s ! m) \<and>
     (\<forall>m < j. local_idx (streams s' ! m) = i \<and>
        (local_idx (streams s ! m) \<noteq> i \<longrightarrow> CsSetSource (shandle (streams s ! m)) h \<in> set (slog s')))"

lemma selected_step:
  assumes ok: "registry_ok s" "small s" and src: "source_of s i = Some h"
    and j: "j < length (streams s)" and sel: "selected s i h j t"
  shows "\<exists>t'. setSourceIdx j i t = Inr t' \<and> selected s i h (Suc j) t'"
proof -
  have rp: "repointed s t" and hp: "pheap t = pheap s" and len: "length (streams t) = length (streams s)"
    and same: "streams t ! j = streams s ! j"
    using sel j by (simp_all add: selected_def)
  have "source_of t i = Some h" using source_of_frame [of t s i] src rp hp by (simp add: repointed_def)
  then have calls: "select_calls t j i = [CsSetSource (shandle (streams s ! j)) h]"
    by (simp add: select_calls_def same)
  have "pipes_live t" "small t"
    using repointed_ok [OF rp ok(1)] repointed_small [OF rp] ok by (simp_all add: registry_ok_live)
  note eq = setSourceIdx_eq [OF this, of j i, unfolded len same calls, OF j]
  show ?thesis
  proof (cases "local_idx (streams s ! j) = i")
    case True
    then show ?thesis using sel same j by (auto simp: eq selected_def less_Suc_eq)
  next
    case False
    let ?t = "emit ([CsSetSource (shandle (streams s ! j)) h] @ [put_num (stable (streams s ! j)) ''Source Index'' i])
      (set_local_idx j i t)"
    have "repointed t ?t"
      using j len by (intro repointed_idx) (simp_all add: put_num_def puts_to_def)
    then have "repointed s ?t" using rp repointed_trans by blast
    then have "selected s i h (Suc j) ?t"
      using sel j len by (simp add: selected_def less_Suc_eq same)
    then show ?thesis using False by (simp add: eq)
  qed
qed

lemma select_all:
  assumes "registry_ok s" "small s" "source_of s i = Some h"
  shows "\<exists>s'. rfold (\<lambda>j. setSourceIdx j i) [0..<numStreams s] s = Inr s' \<and> selected s i h (numStreams s) s'"
proof (rule rfold_upt)
  show "selected s i h 0 s" by (simp add: selected_def)
  fix j t assume "j < numStreams s" "selected s i h j t"
  then show "\<exists>t'. setSourceIdx j i t = Inr t' \<and> selected s i h (Suc j) t'"
    using selected_step [OF assms] by (simp add: count_defs)
qed

subsection \<open>Connecting every pipeline to a camera\<close>

definition attach :: "cs_lib \<Rightarrow> cam_ref \<Rightarrow> VisionCamera \<Rightarrow> BasePipe \<Rightarrow> BasePipe" where
  "attach L a c p = p\<lparr>pmode := get_mode L (m_handle c), src_matrix := CameraMat a, src_distort := CameraMat a\<rparr>"

lemma attach_simps [simp]: "attach L a c (attach L a c p) = attach L a c p" "phandle (attach L a c p) = phandle p"
  by (simp_all add: attach_def)

definition attached :: "cs_lib \<Rightarrow> nat \<Rightarrow> server \<Rightarrow> nat \<Rightarrow> server \<Rightarrow> bool" where
  "attached L k s i t \<longleftrightarrow> repointed s t \<and> streams t = streams s \<and>
     (\<forall>r. pheap t r = (if r \<in> set (take i (pipelines s))
        then map_option (attach L (sbuf (storage s), k) (cameras s ! k)) (pheap s r) else pheap s r))"

lemma attached_step:
  assumes "registry_ok s" "i < length (pipelines s)" "attached L k s i t"
  shows "\<exists>t'. setCamera L (pipelines s ! i) k (cameras s ! k) t = Inr t' \<and> attached L k s (Suc i) t'"
proof -
  let ?r = "pipelines s ! i" and ?c = "cameras s ! k" and ?a = "(sbuf (storage s), k)"
  obtain p where p: "pheap s ?r = Some p"
    using assms(1,2) registry_ok_pipes by (metis nth_mem)
  define q where "q = (if ?r \<in> set (take i (pipelines s)) then attach L ?a ?c p else p)"
  have q: "pheap t ?r = Some q" "attach L ?a ?c q = attach L ?a ?c p"
    using assms(3) p by (simp_all add: attached_def q_def)
  have e: "setCamera L ?r k ?c t = Inr (emit [CsSetVideoMode (phandle q) (get_mode L (m_handle ?c)),
      CsSetSource (pinput q) (m_handle ?c)] (t\<lparr>pheap := (pheap t)(?r \<mapsto> attach L ?a ?c p)\<rparr>))"
    using q assms(3) by (simp add: setCamera_def deref_def Let_def attach_def attached_def repointed_def)
  have "repointed s t" using assms(3) by (simp add: attached_def)
  then have "attached L k s (Suc i) (emit [CsSetVideoMode (phandle q) (get_mode L (m_handle ?c)),
      CsSetSource (pinput q) (m_handle ?c)] (t\<lparr>pheap := (pheap t)(?r \<mapsto> attach L ?a ?c p)\<rparr>))"
    using repointed_trans [OF _ setCamera_repointed [OF e]] assms(2,3) p
    by (auto simp: attached_def take_Suc_conv_app_nth)
  then show ?thesis using e by blast
qed

text \<open>The body of the loop of \<^verbatim>\<open>compensate\<close> over the pipelines.\<close>

definition attach_body :: "cs_lib \<Rightarrow> nat \<Rightarrow> nat \<Rightarrow> server \<Rightarrow> server res" where
  "attach_body L k i s = rbind (vec_at (pipelines s) i) (\<lambda>r.
     rbind (at_int (cameras s) (int k)) (\<lambda>c. setCamera L r k c s))"

lemma attach_all:
  assumes "registry_ok s" "k < numCameras s"
  shows "\<exists>t. rfold (attach_body L k) [0..<numPipelines s] s = Inr t \<and> attached L k s (numPipelines s) t"
proof (rule rfold_upt)
  show "attached L k s 0 s" by (simp add: attached_def)
  fix i t assume i: "i < numPipelines s" and t: "attached L k s i t"
  have "cameras t = cameras s" "pipelines t = pipelines s" using t by (simp_all add: attached_def repointed_def)
  then show "\<exists>t'. attach_body L k i t = Inr t' \<and> attached L k s (Suc i) t'"
    using attached_step [OF assms(1) _ t] i assms(2) by (simp add: attach_body_def vec_at_ok at_int_def count_defs)
qed

lemma attached_source:
  assumes "registry_ok s" "k < numCameras s" "attached L k s (numPipelines s) t"
  shows "source_of t (if pipelines s = [] then - int k - 1 else 1) =
    Some (if pipelines s = [] then m_handle (cameras s ! k) else phandle (the (pheap s (hd (pipelines s)))))"
proof -
  have pl: "pipelines t = pipelines s" "cameras t = cameras s"
    using assms(3) by (simp_all add: attached_def repointed_def)
  show ?thesis
  proof (cases "pipelines s")
    case Nil
    then show ?thesis using assms(2) by (simp add: source_of_def pl count_defs nat_add_distrib)
  next
    case (Cons r rs)
    then obtain p where "pheap s r = Some p" using registry_ok_pipes [OF assms(1), of r] by auto
    then show ?thesis using Cons assms(3) by (simp add: source_of_def pl attached_def count_defs)
  qed
qed

lemma find_connected_first:
  assumes "k < length cs" "is_connected L (m_handle (cs ! k))" "\<And>m. m < k \<Longrightarrow> \<not> is_connected L (m_handle (cs ! m))"
  shows "find_connected L cs i = Some (i + k)"
  using assms
proof (induction cs arbitrary: k i)
  case (Cons c cs)
  show ?case
  proof (cases k)
    case (Suc m)
    have "\<not> is_connected L (m_handle c)" using Cons.prems(3) [of 0] Suc by simp
    then show ?thesis using Cons.IH [of m "Suc i"] Cons.prems Suc by force
  qed (use Cons.prems in simp)
qed simp

lemma find_connected_none:
  "find_connected L cs i = None \<longleftrightarrow> (\<forall>c \<in> set cs. \<not> is_connected L (m_handle c))"
  by (induction cs arbitrary: i) simp_all


lemma compensate_eq:
  assumes "find_connected L (cameras s) 0 = Some k" "k < 2 ^ 15"
  shows "compensate L s = rbind (rfold (attach_body L k) [0..<numPipelines s] s) (\<lambda>t.
    rbind (rfold (\<lambda>j. setSourceIdx j (if pipelines t = [] then - int k - 1 else 1)) [0..<numStreams t] t)
      (\<lambda>u. Inr (True, u)))"
proof -
  have a: "int16 (int k) = int k" "int k + 1 \<noteq> 0" using assms(2) by (simp_all add: int16_def)
  have b: "(\<lambda>i s. rbind (vec_at (pipelines s) i) (\<lambda>r. rbind (at_int (cameras s) (int k))
      (\<lambda>c. setCamera L r (nat (int k)) c s))) = attach_body L k"
    by (intro ext) (simp add: attach_body_def)
  have "(int k + 1) mod 2 ^ 16 = int k + 1" using assms(2) by simp
  then have c: "(\<lambda>j. setCameraIdx j (int k + 1)) = (\<lambda>j. setSourceIdx j (- int k - 1))"
    "(\<lambda>j. setPipelineIdx j 1) = (\<lambda>j. setSourceIdx j 1)"
    by (intro ext, simp add: setCameraIdx_def setPipelineIdx_def)+
  show ?thesis unfolding compensate_def assms(1) option.case Let_def a(1) b c if_P [OF a(2)]
    by (rule arg_cong [where f = "rbind _"]) (simp add: fun_eq_iff count_defs)
qed

subsection \<open>Properties\<close>

definition demo_pipe :: BasePipe where
  "demo_pipe = BasePipe_new ''p'' 21 22"

text \<open>A server with a camera, a client's pipeline and two streams, built by the operations.\<close>

definition demo_server :: server where
  "demo_server = snd (addStreams demo_lib 2 (snd (addPipeline 0
     (snd (addCamera demo_lib (VisionCamera0 demo_lib 5) (VisionServer_init\<lparr>pheap := [0 \<mapsto> demo_pipe]\<rparr>))))))"

lemma demo_server_reachable: "reachable demo_lib demo_server"
proof -
  let ?s0 = "VisionServer_init\<lparr>pheap := (pheap VisionServer_init)(0 \<mapsto> demo_pipe)\<rparr>"
  let ?s1 = "snd (exec_op demo_lib (OpAddCamera (VisionCamera0 demo_lib 5)) ?s0)"
  let ?s2 = "snd (exec_op demo_lib (OpAddPipeline 0) ?s1)"
  have "pheap ?s1 = [0 \<mapsto> demo_pipe]"
    by (simp add: addCamera_def split_beta VisionServer_init_def isRunning_def)
  then have "op_legal (OpAddPipeline 0) ?s1" by simp
  moreover have "step demo_lib VisionServer_init ?s0"
    by (rule step_new) (simp_all add: VisionServer_init_def new_pipe_def demo_pipe_def BasePipe_new_def)
  ultimately have "reachable demo_lib (snd (exec_op demo_lib (OpAddStreams 2) ?s2))"
    using reachable_init step_op [of "OpAddCamera (VisionCamera0 demo_lib 5)" ?s0 demo_lib]
      step_op [of "OpAddPipeline 0" ?s1 demo_lib] step_op [of "OpAddStreams 2" ?s2 demo_lib]
    by (meson op_legal.simps reachable_step)
  then show ?thesis by (simp add: demo_server_def VisionServer_init_def)
qed

lemma demo_server_simps:
  "length (cameras demo_server) = 1" "pipelines demo_server = [0]" "length (streams demo_server) = 2"
  "pheap demo_server = [0 \<mapsto> demo_pipe]" "is_running demo_server = False"
  "m_handle (cameras demo_server ! 0) = 5"
  "map local_idx (streams demo_server) = [0, 0]" "map shandle (streams demo_server) = [13, 13]"
  by (simp_all add: demo_server_def addStreams_def addPipeline_def addCamera_def split_beta isRunning_def
      VisionServer_init_def adjust_def setNetworkAdjustable_def setNetworkBase_def VisionCamera0_def
      numeral_2_eq_2 OutputStream_new_def Let_def demo_lib_def)

lemma demo_server_small: "small demo_server"
  by (simp add: small_def demo_server_simps)




text \<open>C6: Selecting a source and the synchronisation with the network agree: after
  \<^verbatim>\<open>setSourceIdx(i)\<close> the stream's index is \<open>i\<close>, if it changed the network entry was set to \<open>i\<close> and
  the stream was connected to exactly the source that \<open>i\<close> names, and reading the entry back changes
  nothing.\<close>

theorem select_then_sync:
  assumes "registry_ok s" "small s" "j < numStreams s" "- (2 ^ 31) \<le> i" "i < 2 ^ 31"
  shows "\<exists>s'. setSourceIdx j i s = Inr s' \<and> local_idx (streams s' ! j) = i
     \<and> (if local_idx (streams s ! j) = i then s' = s
        else slog s' = slog s @ (case source_of s i of None \<Rightarrow> [] | Some h \<Rightarrow> [CsSetSource (shandle (streams s ! j)) h])
               @ [put_num (stable (streams s ! j)) ''Source Index'' i])
     \<and> syncIdx j (of_int_dbl i) s' = Inr s'"
proof -
  have j: "j < length (streams s)" using assms(3) by (simp add: count_defs)
  have d: "fcvtzs32 (of_int_dbl i) = i" using assms(4,5) by (rule fcvtzs32_of_int)
  note e = setSourceIdx_eq [OF registry_ok_live [OF assms(1)] assms(2) j, of i]
  show ?thesis
    by (cases "local_idx (streams s ! j) = i")
      (simp_all add: e j syncIdx_def vec_idx_ok d Let_def select_calls_def)
qed

theorem select_then_sync_witness:
  "\<exists>s'. setSourceIdx 0 (-1) demo_server = Inr s' \<and> CsSetSource 13 5 \<in> set (slog s')
     \<and> syncIdx 0 (of_int_dbl (-1)) s' = Inr s'"
proof -
  have "local_idx (streams demo_server ! 0) = 0" "shandle (streams demo_server ! 0) = 13"
    using demo_server_simps(3,7,8) by (metis nth_Cons_0 nth_map zero_less_numeral)+
  then show ?thesis
    using select_then_sync [OF reachable_ok [OF demo_server_reachable], of 0 "-1"]
    by (auto simp: demo_server_simps demo_server_small count_defs source_of_def)
qed


lemma compensate_steps:
  assumes "registry_ok s" "small s" "k < numCameras s" "k < 2 ^ 15"
    and "is_connected L (m_handle (cameras s ! k))"
    and "\<And>m. m < k \<Longrightarrow> \<not> is_connected L (m_handle (cameras s ! m))"
  obtains t u where "compensate L s = Inr (True, u)" "attached L k s (numPipelines s) t"
    "selected t (if pipelines s = [] then - int k - 1 else 1)
       (if pipelines s = [] then m_handle (cameras s ! k) else phandle (the (pheap s (hd (pipelines s))))) (numStreams t) u"
proof -
  let ?i = "if pipelines s = [] then - int k - 1 else 1 :: int"
  let ?h = "if pipelines s = [] then m_handle (cameras s ! k) else phandle (the (pheap s (hd (pipelines s))))"
  have f: "find_connected L (cameras s) 0 = Some k"
    using find_connected_first [of k "cameras s" L 0] assms by (simp add: count_defs)
  obtain t where t: "attached L k s (numPipelines s) t"
    and l1: "rfold (attach_body L k) [0..<numPipelines s] s = Inr t"
    using attach_all [OF assms(1,3)] by blast
  have rp: "repointed s t" using t by (simp add: attached_def)
  have pl: "pipelines t = pipelines s" using rp by (simp add: repointed_def)
  have src: "source_of t ?i = Some ?h" by (rule attached_source [OF assms(1,3) t])
  obtain u where l2: "rfold (\<lambda>j. setSourceIdx j ?i) [0..<numStreams t] t = Inr u" and u: "selected t ?i ?h (numStreams t) u"
    using select_all [OF repointed_ok [OF rp assms(1)] _ src] repointed_small [OF rp] assms(2) by blast
  have "compensate L s = Inr (True, u)"
    unfolding compensate_eq [OF f assms(4)] l1 rbind_simps pl l2 ..
  then show thesis using that t u by blast
qed

text \<open>C2: \<^verbatim>\<open>compensate\<close> does what its comment promises. With camera \<open>k\<close> the first connected one
  it succeeds, every pipeline is attached to camera \<open>k\<close> (mode and calibration), every stream has the
  index of the first pipeline, or of camera \<open>k\<close> when there is no pipeline, each stream that had another
  index is connected to that source, and nothing is added or removed.\<close>

theorem compensate_attaches_all:
  assumes "registry_ok s" "small s" "k < numCameras s" "k < 2 ^ 15"
    and "is_connected L (m_handle (cameras s ! k))"
    and "\<And>m. m < k \<Longrightarrow> \<not> is_connected L (m_handle (cameras s ! m))"
  shows "\<exists>s'. compensate L s = Inr (True, s') \<and> cameras s' = cameras s \<and> pipelines s' = pipelines s
    \<and> (\<forall>r \<in> set (pipelines s). pheap s' r = map_option (attach L (sbuf (storage s), k) (cameras s ! k)) (pheap s r))
    \<and> (\<forall>j < numStreams s. local_idx (streams s' ! j) = (if pipelines s = [] then - int k - 1 else 1)
         \<and> (local_idx (streams s ! j) \<noteq> local_idx (streams s' ! j) \<longrightarrow>
              CsSetSource (shandle (streams s ! j))
                (if pipelines s = [] then m_handle (cameras s ! k) else phandle (the (pheap s (hd (pipelines s)))))
              \<in> set (slog s')))"
proof -
  let ?i = "if pipelines s = [] then - int k - 1 else 1 :: int"
  let ?h = "if pipelines s = [] then m_handle (cameras s ! k) else phandle (the (pheap s (hd (pipelines s))))"
  obtain t u where c: "compensate L s = Inr (True, u)" and t: "attached L k s (numPipelines s) t"
    and u: "selected t ?i ?h (numStreams t) u" using compensate_steps [OF assms] by blast
  have st: "streams t = streams s" using t by (simp add: attached_def)
  have "cameras u = cameras s" "pipelines u = pipelines s"
    using u t by (simp_all add: selected_def attached_def repointed_def)
  moreover have "\<forall>r \<in> set (pipelines s). pheap u r = map_option (attach L (sbuf (storage s), k) (cameras s ! k)) (pheap s r)"
    using t u by (simp add: attached_def selected_def count_defs)
  moreover have "\<forall>j < numStreams s. local_idx (streams u ! j) = ?i \<and>
      (local_idx (streams s ! j) \<noteq> ?i \<longrightarrow> CsSetSource (shandle (streams s ! j)) ?h \<in> set (slog u))"
    using u unfolding selected_def st count_defs by blast
  ultimately show ?thesis using c by auto
qed

theorem compensate_attaches_all_witness:
  "\<exists>s'. compensate demo_lib demo_server = Inr (True, s') \<and> local_idx (streams s' ! 1) = 1
     \<and> pheap s' 0 = Some (attach demo_lib (sbuf (storage demo_server), 0) (cameras demo_server ! 0) demo_pipe)"
  using compensate_attaches_all [OF reachable_ok [OF demo_server_reachable] demo_server_small, of 0 demo_lib]
  by (auto simp: demo_server_simps count_defs demo_lib_def)


text \<open>The constructing version \<^verbatim>\<open>addPipelines<...>()\<close> never returns normally on a stopped
  server. Its loop condition \<^verbatim>\<open>i >= 0\<close> on a \<^verbatim>\<open>size_t\<close> always holds, so the call ends with
  \<^verbatim>\<open>std::out_of_range\<close>, after it has constructed the pipelines and, if the server already owned
  one, has registered that one a second time before the new ones; if it owned none, none is registered.\<close>

theorem addPipelines_template_throws:
  assumes "\<not> isRunning s" "length (heap_allocated s) + length rps < 2 ^ 64"
  shows "\<exists>s'. addPipelines_t rps s = Some (Inl OutOfRange, s')
    \<and> heap_allocated s' = heap_allocated s @ map fst rps
    \<and> pipelines s' = pipelines s @
        (if heap_allocated s = [] then [] else last (heap_allocated s) # map fst rps)"
  using addPipelines_t_eq [OF assms] by (simp add: pipeExpander_props pushed_by_t_def)

theorem addPipelines_template_throws_witness:
  "\<exists>s'. addPipelines_t [(3, demo_pipe), (4, demo_pipe)] (snd (addPipeline_t (2, demo_pipe) VisionServer_init))
     = Some (Inl OutOfRange, s') \<and> pipelines s' = [2, 2, 3, 4]"
  using addPipelines_template_throws [of "snd (addPipeline_t (2, demo_pipe) VisionServer_init)"
      "[(3, demo_pipe), (4, demo_pipe)]"]
  by (auto simp: addPipeline_t_def VisionServer_init_def isRunning_def alloc_pipe_def Let_def)

text \<open>The template operations do not publish the number of pipelines: after
  \<^verbatim>\<open>addPipeline<T>()\<close> the server has one pipeline more and the entry "Pipelines Available" is as
  before, while \<^verbatim>\<open>addPipeline(p)\<close> sets the entry to the new number.\<close>

theorem template_count_not_published:
  assumes "\<not> isRunning s"
  shows "numPipelines (snd (addPipeline_t rp s)) = numPipelines s + 1
    \<and> last_put (slog (snd (addPipeline_t rp s))) vs_table ''Pipelines Available''
        = last_put (slog s) vs_table ''Pipelines Available''
    \<and> numPipelines (snd (addPipeline p s)) = numPipelines s + 1
    \<and> last_put (slog (snd (addPipeline p s))) vs_table ''Pipelines Available''
        = Some (NtDouble (of_int_dbl (int (numPipelines s) + 1)))"
  using assms
  by (simp add: addPipeline_t_def addPipeline_def alloc_pipe_def Let_def count_defs
      pipelines_available_def put_num_def add.commute)

theorem template_count_not_published_witness:
  "last_put (slog (snd (addPipeline_t (2, demo_pipe) VisionServer_init))) vs_table ''Pipelines Available''
     = Some (NtDouble (of_int_dbl 0)) \<and> numPipelines (snd (addPipeline_t (2, demo_pipe) VisionServer_init)) = 1"
  using template_count_not_published [of VisionServer_init "(2, demo_pipe)" 0]
  by (simp add: VisionServer_init_def count_defs put_num_def)

text \<open>Passing a pipeline the server owns to \<^verbatim>\<open>setPipelines\<close> registers a dangling pointer:
  the call destroys the owned objects first, and selecting that pipeline for a stream is then
  undefined. Passing only pipelines the server does not own is safe
  (\<open>reachable_selection_safe\<close> covers those calls).\<close>

theorem setPipelines_owned_dangles:
  assumes "\<not> isRunning s" "r \<in> set (heap_allocated s)" "r = ps ! n" "n < length ps" "length ps < 2 ^ 31"
    and "j < numStreams s" "local_idx (streams s ! j) \<noteq> int n + 1"
  shows "setSourceIdx j (int n + 1) (snd (setPipelines ps s)) = Inl UB"
  using assms
  by (simp add: setPipelines_def setSourceIdx_def vec_idx_ok select_source_def count_defs deref_def vec_at_ok
      nat_add_distrib)

theorem setPipelines_owned_dangles_witness:
  "setSourceIdx 0 1 (snd (setPipelines [2] (snd (addStreams demo_lib 1
     (snd (addPipeline_t (2, demo_pipe) VisionServer_init)))))) = Inl UB"
  using setPipelines_owned_dangles [of "snd (addStreams demo_lib 1 (snd (addPipeline_t (2, demo_pipe) VisionServer_init)))"
      2 "[2]" 0 0]
  by (simp add: addPipeline_t_def VisionServer_init_def alloc_pipe_def Let_def addStreams_def count_defs
      OutputStream_new_def)

subsection \<open>Names of streams\<close>

lemma push_n_streams_tables:
  assumes "\<And>k. get_name L (add_server L (stream_name k) None) = stream_name k"
  shows "map stable (streams (push_n_streams L n s)) = map stable (streams s) @
    map (\<lambda>k. streams_table @ [stream_name k]) [length (streams s) + 1..<length (streams s) + 1 + n]"
proof (induction n arbitrary: s)
  case (Suc n)
  have "[Suc (length (streams s))..<Suc (Suc (length (streams s) + n))] =
    Suc (length (streams s)) # [Suc (Suc (length (streams s)))..<Suc (Suc (length (streams s) + n))]"
    by (rule upt_conv_Cons) simp
  then show ?case using Suc.IH [of "push_stream L (add_server L (stream_name (length (streams s) + 1)) None) s"]
    by (simp add: OutputStream_new_def Let_def assms)
qed simp

text \<open>\<^verbatim>\<open>addStreams(n)\<close> on a server without streams creates \<open>n\<close> streams named "Stream 1" to
  "Stream n", whose network tables are pairwise different. (The MJPEG
  server that cscore creates under a name is assumed to have that name.)\<close>

theorem addStreams_distinct_tables:
  assumes "\<not> isRunning s" "streams s = []" "\<And>k. get_name L (add_server L (stream_name k) None) = stream_name k"
  shows "map stable (streams (snd (addStreams L n s)))
      = map (\<lambda>k. [''Vision Server'', ''Streams'', ''Stream '' @ to_string k]) [1..<n + 1]
    \<and> distinct (map stable (streams (snd (addStreams L n s))))"
  using assms(1,2) push_n_streams_tables [OF assms(3), of n s]
  by (simp add: addStreams_def stream_name_def streams_table_def vs_table_def distinct_map inj_on_def)

definition named_lib :: cs_lib where
  "named_lib = demo_lib\<lparr>add_server := (\<lambda>n p. int (digits_val (drop 7 n))), get_name := (\<lambda>h. stream_name (nat h))\<rparr>"

theorem addStreams_distinct_tables_witness:
  "map stable (streams (snd (addStreams named_lib 2 VisionServer_init)))
     = [[''Vision Server'', ''Streams'', ''Stream 1''], [''Vision Server'', ''Streams'', ''Stream 2'']]"
proof -
  have "get_name named_lib (add_server named_lib (stream_name k) None) = stream_name k" for k
    by (simp add: named_lib_def stream_name_def digits_val_to_string)
  from addStreams_distinct_tables [OF _ _ this, of VisionServer_init 2] show ?thesis
    by (simp add: VisionServer_init_def isRunning_def upt_rec to_string.simps char_of_def bit_Suc_0_iff)
qed

end
