(* ===== verification/Server_Run.thy ===== *)
theory Server_Run
  imports Server_Props
begin

text \<open>
  The loops of \<^verbatim>\<open>vs2::VisionServer\<close>: \<^verbatim>\<open>pipelineRunner\<close> (one thread per pipeline),
  \<^verbatim>\<open>run\<close>, \<^verbatim>\<open>runSingle\<close> and \<^verbatim>\<open>runRaw\<close>.

  What an iteration reads from outside (network entries, the camera, the clock) is a record, one
  per iteration; a loop is given the list of the readings of the iterations it makes until
  \<^verbatim>\<open>stop()\<close> ends it. Times are the integer nanoseconds of the clock. The texts that
  \<^verbatim>\<open>putText\<close> draws are named by what they show, not spelled out.
\<close>

subsection \<open>One pass of the timing code\<close>

record reading =
  r_source :: dbl
  r_camera :: dbl
  r_pipeline :: dbl
  r_enable :: bool
  r_grab :: bool
  r_verbosity :: dbl
  r_maxfps :: dbl
  r_streams :: "nat \<Rightarrow> dbl"
  t_beg_frame :: int
  t_beg_proc :: int
  t_end_proc :: int
  t_end_frame :: int
  t_sleep :: int

record timing =
  tfps :: dbl
  init_time :: rat
  proc_time :: rat
  out_time :: rat
  active_time :: rat
  tlast :: int
  fps_cap :: dbl

definition timing0 :: "dbl \<Rightarrow> timing" where
  "timing0 cap = \<lparr>tfps = Fin 0, init_time = 0, proc_time = 0, out_time = 0, active_time = 1,
     tlast = 0, fps_cap = cap\<rparr>"

definition seconds :: "int \<Rightarrow> rat" where
  "seconds ns = of_int ns / 1000000000"

text \<open>The pause at the end of an iteration: the frame time \<^verbatim>\<open>1E9 / fps_cap\<close>, converted to
  \<^verbatim>\<open>uint64_t\<close> and stored in the signed \<^verbatim>\<open>std::chrono::nanoseconds\<close>, less the time used. A
  pause that is not positive ends at once.\<close>

definition frame_nanos :: "dbl \<Rightarrow> int" where
  "frame_nanos cap = int64 (fcvtzu64 (dbl_div (Fin 1000000000) cap))"

definition pause :: "dbl \<Rightarrow> int \<Rightarrow> log" where
  "pause cap used = (let d = frame_nanos cap - used in if 0 < d then [Sleep d] else [])"

definition draw_stats :: "int \<Rightarrow> log" where
  "draw_stats v = (if v > 0 then [Draw ''fps''] else []) @ (if v > 1 then [Draw ''Active''] else [])
     @ (if v > 2 then [Draw ''Init'', Draw ''Process'', Draw ''Output''] else [])"

text \<open>The times of the branch taken: without a frame the three later time points are one reading
  of the clock.\<close>

definition measure_times :: "bool \<Rightarrow> reading \<Rightarrow> timing \<Rightarrow> timing" where
  "measure_times active rd tm =
     (let bp = t_beg_proc rd;
          ep = (if active then t_end_proc rd else bp);
          ef = (if active then t_end_frame rd else bp);
          i = seconds (bp - t_beg_frame rd); p = seconds (ep - bp); out = seconds (ef - ep);
          full = seconds (t_beg_frame rd - tlast tm)
      in tm\<lparr>init_time := i, proc_time := p, out_time := out, active_time := i + p + out,
            tfps := dbl_div (Fin 1) (Fin full)\<rparr>)"

definition put_stats :: "path \<Rightarrow> timing \<Rightarrow> log" where
  "put_stats p tm =
     [NtPut p ''FPS: '' (NtDouble (tfps tm)),
      NtPut p ''Active time(ms): '' (NtDouble (Fin (active_time tm * 1000))),
      NtPut p ''Init time(ms): '' (NtDouble (Fin (init_time tm * 1000))),
      NtPut p ''Process time(ms): '' (NtDouble (Fin (proc_time tm * 1000))),
      NtPut p ''Output time(ms): '' (NtDouble (Fin (out_time tm * 1000)))]"

subsection \<open>The thread of a pipeline\<close>

record runner =
  ridx :: int
  rtiming :: timing

text \<open>\<open>fa\<close> is the value of \<^verbatim>\<open>(int)numPipelines\<close>: without a call this converts the address of
  the function, so it is a parameter.\<close>

definition runner_source :: "cs_lib \<Rightarrow> int \<Rightarrow> pref \<Rightarrow> int \<Rightarrow> server \<Rightarrow> server res" where
  "runner_source L fa r n s =
     (if n > 0 \<and> n \<le> int (numCameras s) then
        rbind (vec_at (cameras s) (nat (n - 1))) (\<lambda>c. setCamera L r (nat (n - 1)) c s)
      else if n < 0 \<and> n \<ge> - fa then
        rbind (vec_at (pipelines s) (nat ((- n) - 1))) (\<lambda>q. setPipeline r q s)
      else Inr s)"

definition runner_iter :: "cs_lib \<Rightarrow> int \<Rightarrow> pref \<Rightarrow> reading \<Rightarrow> runner \<times> server \<Rightarrow> (runner \<times> server) res" where
  "runner_iter L fa r rd = (\<lambda>(st, s).
     let n = fcvtzs32 (r_source rd) in
     rbind (if n \<noteq> ridx st then runner_source L fa r n s else Inr s) (\<lambda>s.
     rbind (deref s r) (\<lambda>p.
     let active = (r_enable rd \<and> r_grab rd);
         frame = (if active then [PipeProcess (phandle p)] @ draw_stats (fcvtzs32 (r_verbosity rd))
                    @ [CsPutFrame (phandle p)] else []);
         tm = measure_times active rd (rtiming st);
         tm = tm\<lparr>fps_cap := r_maxfps rd\<rparr>
     in Inr (st\<lparr>ridx := n, rtiming := tm\<lparr>tlast := t_beg_frame rd\<rparr>\<rparr>,
             emit (frame @ put_stats (ptable p @ [''stats'']) tm
                   @ pause (r_maxfps rd) (t_sleep rd - t_beg_frame rd)) s))))"

text \<open>Before and after its loop the thread publishes its settings and calls \<^verbatim>\<open>init\<close> and \<^verbatim>\<open>close\<close>.\<close>

definition runner_begin :: "pref \<Rightarrow> dbl \<Rightarrow> server \<Rightarrow> (runner \<times> server) res" where
  "runner_begin r cap s = rbind (deref s r) (\<lambda>p.
     Inr (\<lparr>ridx = 1, rtiming = timing0 cap\<rparr>,
          emit [NtPut (ptable p) ''Enable Processing'' (NtBoolean True),
                put_num (ptable p) ''Source Index'' 1, put_num (ptable p) ''Statistics Verbosity'' 0,
                NtPut (ptable p) ''Max FPS'' (NtDouble cap), PipeInit (phandle p)] s))"

definition runner_end :: "pref \<Rightarrow> server \<Rightarrow> server res" where
  "runner_end r s = rbind (deref s r) (\<lambda>p. Inr (emit [PipeClose (phandle p)] s))"

definition pipelineRunner :: "cs_lib \<Rightarrow> int \<Rightarrow> pref \<Rightarrow> dbl \<Rightarrow> reading list \<Rightarrow> server \<Rightarrow> server res" where
  "pipelineRunner L fa r cap rds s = rbind (runner_begin r cap s) (\<lambda>x.
     rbind (rfold (runner_iter L fa r) rds x) (\<lambda>(_, s). runner_end r s))"

subsection \<open>The multithreaded loop\<close>

definition sync_all :: "reading \<Rightarrow> server \<Rightarrow> server res" where
  "sync_all rd s = rfold (\<lambda>j. syncIdx j (r_streams rd j)) [0..<length (streams s)] s"

definition run_round :: "dbl \<Rightarrow> reading \<Rightarrow> server \<Rightarrow> server res" where
  "run_round cap rd s = rbind (sync_all rd s) (\<lambda>s.
     Inr (emit (NtFlush # pause cap (t_sleep rd - t_beg_frame rd)) s))"

definition put_status :: "string \<Rightarrow> call" where
  "put_status t = NtPut vs_table ''Status'' (NtString t)"

text \<open>\<open>rds\<close> are the rounds until another thread calls \<^verbatim>\<open>stop()\<close>, which clears the flag.\<close>

definition run :: "dbl \<Rightarrow> reading list \<Rightarrow> server \<Rightarrow> (bool \<times> server) res" where
  "run cap rds s =
     (if \<not> isRunning s \<and> numPipelines s > 0 then
        rbind (rfold (run_round cap) rds
                 (emit (put_status ''Running Multithreaded'' # map ThreadStart (pipelines s))
                    (s\<lparr>is_running := True\<rparr>))) (\<lambda>s.
          Inr (True, emit (map ThreadJoin (pipelines s) @ [put_status ''Offline'']) (s\<lparr>is_running := False\<rparr>)))
      else Inr (False, s))"

definition runRaw :: "reading list \<Rightarrow> server \<Rightarrow> (bool \<times> server) res" where
  "runRaw rds s =
     (if \<not> isRunning s then
        rbind (rfold (\<lambda>rd s. rbind (sync_all rd s) (\<lambda>s. Inr (emit [Sleep 100000000] s))) rds
                 ((emit [put_status ''Streaming Raw''] s)\<lparr>is_running := True\<rparr>)) (\<lambda>s.
          Inr (True, emit [put_status ''Offline''] (s\<lparr>is_running := False\<rparr>)))
      else Inr (False, s))"

subsection \<open>The singlethreaded loop\<close>

record single =
  c_idx :: int
  p_idx :: int
  stiming :: timing

definition pipe_at :: "server \<Rightarrow> int \<Rightarrow> (pref \<times> BasePipe) res" where
  "pipe_at s i = rbind (vec_idx (pipelines s) (nat i)) (\<lambda>r. rbind (deref s r) (\<lambda>p. Inr (r, p)))"

text \<open>Switching to the pipeline the network asks for.\<close>

definition switch_pipeline :: "int \<Rightarrow> single \<times> server \<Rightarrow> (single \<times> server) res" where
  "switch_pipeline n = (\<lambda>(st, s).
     if n \<noteq> p_idx st + 1 \<and> n > 0 \<and> n \<le> int (numPipelines s) then
       rbind (pipe_at s (p_idx st)) (\<lambda>(_, p).
       rbind (pipe_at s (n - 1)) (\<lambda>(_, q).
       rbind (rfold (\<lambda>j. setSourceIdx j n) [0..<length (streams s)]
                (emit [PipeClose (phandle p), PipeInit (phandle q)] s)) (\<lambda>s.
       Inr (st\<lparr>p_idx := n - 1\<rparr>, s))))
     else Inr (st, s))"

text \<open>Switching the camera: the index counts from 1, and is used to subscript the vector as it is.\<close>

definition switch_camera :: "cs_lib \<Rightarrow> int \<Rightarrow> single \<times> server \<Rightarrow> (single \<times> server) res" where
  "switch_camera L n = (\<lambda>(st, s).
     if n \<noteq> c_idx st then
       (if n > 0 \<and> n \<le> int (numCameras s) then
          rbind (pipe_at s (p_idx st)) (\<lambda>(r, _).
          rbind (vec_idx (cameras s) (nat n)) (\<lambda>c.
          rbind (setCamera L r (nat n) c s) (\<lambda>s. Inr (st\<lparr>c_idx := n\<rparr>, s))))
        else Inr (st\<lparr>c_idx := n\<rparr>, s))
     else Inr (st, s))"

definition single_frame :: "reading \<Rightarrow> single \<times> server \<Rightarrow> (single \<times> server) res" where
  "single_frame rd = (\<lambda>(st, s). rbind (pipe_at s (p_idx st)) (\<lambda>(_, p).
     let active = (r_enable rd \<and> r_grab rd);
         frame = (if active then [PipeProcess (phandle p)] @ draw_stats (fcvtzs32 (r_verbosity rd))
                    @ [CsPutFrame (phandle p)] else []);
         tm = (measure_times active rd (stiming st))\<lparr>fps_cap := r_maxfps rd\<rparr>
     in Inr (st\<lparr>stiming := tm\<lparr>tlast := t_beg_frame rd\<rparr>\<rparr>,
             emit (frame @ put_stats (vs_table @ [''stats'']) tm @ [NtFlush]
                   @ pause (r_maxfps rd) (t_sleep rd - t_beg_frame rd)) s)))"

definition single_iter :: "cs_lib \<Rightarrow> reading \<Rightarrow> single \<times> server \<Rightarrow> (single \<times> server) res" where
  "single_iter L rd x =
     rbind (switch_pipeline (fcvtzs32 (r_pipeline rd)) x) (\<lambda>x.
     rbind (switch_camera L (fcvtzs32 (r_camera rd)) x) (\<lambda>(st, s).
     rbind (sync_all rd s) (\<lambda>s. single_frame rd (st, s))))"

definition runSingle :: "cs_lib \<Rightarrow> dbl \<Rightarrow> reading list \<Rightarrow> server \<Rightarrow> (bool \<times> server) res" where
  "runSingle L cap rds s =
     (if \<not> isRunning s \<and> numPipelines s > 0 then
        rbind (pipe_at s 0) (\<lambda>(_, p).
        rbind (rfold (single_iter L) rds
                 (\<lparr>c_idx = 0, p_idx = 0, stiming = timing0 cap\<rparr>,
                  emit [put_status ''Running Singlethreaded'',
                        NtPut vs_table ''Enable Processing'' (NtBoolean True),
                        put_num vs_table ''Camera Index'' 1, put_num vs_table ''Pipeline Index'' 1,
                        put_num vs_table ''Statistics Verbosity'' 0, NtPut vs_table ''Max FPS'' (NtDouble cap),
                        PipeInit (phandle p)] (s\<lparr>is_running := True\<rparr>))) (\<lambda>(st, s).
        rbind (pipe_at s (p_idx st)) (\<lambda>(_, p).
          Inr (True, emit [PipeClose (phandle p), put_status ''Offline''] (s\<lparr>is_running := False\<rparr>)))))
      else Inr (False, s))"

end
