(* ===== verification/Server_Run_Props.thy ===== *)
theory Server_Run_Props
  imports Server_Run
begin

text \<open>
  What the loops of the server guarantee: a round of the main loop brings every stream to the
  index the network asks for, the loops start and end as they should, every grabbed frame is
  processed once and then published, and the frame rate is capped; and where they go wrong.
\<close>

subsection \<open>Synchronising every stream\<close>

definition synced :: "server \<Rightarrow> reading \<Rightarrow> nat \<Rightarrow> server \<Rightarrow> bool" where
  "synced s rd j t \<longleftrightarrow> repointed s t \<and> pheap t = pheap s \<and>
     (\<forall>m < j. local_idx (streams t ! m) = fcvtzs32 (r_streams rd m))"

lemma repointed_streams: "repointed s t \<Longrightarrow> length (streams t) = length (streams s)"
  by (metis length_map repointed_def)

lemma repointed_live: "repointed s t \<Longrightarrow> pipes_live s \<Longrightarrow> pipes_live t"
  by (auto simp: repointed_def pipes_live_def)

lemma synced_step:
  assumes "pipes_live s" "small s" "j < length (streams s)" "synced s rd j t"
  shows "\<exists>t'. syncIdx j (r_streams rd j) t = Inr t' \<and> synced s rd (Suc j) t'"
proof -
  have rp: "repointed s t" using assms(4) by (simp add: synced_def)
  have j: "j < length (streams t)" using assms(3) repointed_streams [OF rp] by simp
  have "pipes_live t" "small t" using repointed_live [OF rp assms(1)] repointed_small [OF rp] assms(2) by simp_all
  note e = syncIdx_eq [OF this j, of "r_streams rd j"]
  let ?t = "if local_idx (streams t ! j) = fcvtzs32 (r_streams rd j) then t
     else emit (select_calls t j (fcvtzs32 (r_streams rd j))) (set_local_idx j (fcvtzs32 (r_streams rd j)) t)"
  have "repointed s ?t" using repointed_trans [OF rp syncIdx_repointed [OF e]] .
  moreover have "pheap ?t = pheap s" using assms(4) by (simp add: synced_def)
  moreover have "\<forall>m < Suc j. local_idx (streams ?t ! m) = fcvtzs32 (r_streams rd m)"
    using assms(4) j by (auto simp: synced_def less_Suc_eq)
  ultimately show ?thesis using e by (simp add: synced_def)
qed

lemma sync_all_ok:
  assumes "pipes_live s" "small s"
  shows "\<exists>t. sync_all rd s = Inr t \<and> synced s rd (length (streams s)) t"
  unfolding sync_all_def
proof (rule rfold_upt)
  show "synced s rd 0 s" by (simp add: synced_def)
qed (use synced_step [OF assms] in blast)

text \<open>What a loop of rounds keeps, from the state \<open>s\<close> it starts in.\<close>

definition loop_inv :: "server \<Rightarrow> server \<Rightarrow> bool" where
  "loop_inv s t \<longleftrightarrow> repointed s t \<and> pipes_live t \<and> small t"

lemma loop_inv_step: "loop_inv s t \<Longrightarrow> repointed t u \<Longrightarrow> loop_inv s u"
  using repointed_trans repointed_live repointed_small by (metis loop_inv_def)

lemma emit_repointed: "quiet cs \<Longrightarrow> repointed s (emit cs s)"
  by (auto simp: repointed_def)

lemma pause_quiet [simp]: "quiet (pause cap d)"
  by (simp add: pause_def Let_def puts_to_def)

lemma quiet_call [simp]:
  "\<not> puts_to p k NtFlush" "\<not> puts_to p k (Sleep n)" "\<not> puts_to p k (Draw t)"
  "\<not> puts_to p k (PipeInit h)" "\<not> puts_to p k (PipeClose h)" "\<not> puts_to p k (PipeProcess h)"
  "\<not> puts_to p k (CsPutFrame h)" "\<not> puts_to p k (CsSetSource h g)" "\<not> puts_to p k (CsSetVideoMode h m)"
  "\<not> puts_to p k (ThreadStart r)" "\<not> puts_to p k (ThreadJoin r)"
  "puts_to p k (NtPut q l v) \<longleftrightarrow> p = q \<and> k = l"
  by (auto simp: puts_to_def)

lemma round_ok:
  assumes "loop_inv s t" "quiet cs"
  shows "\<exists>u. rbind (sync_all rd t) (\<lambda>s. Inr (emit cs s)) = Inr u \<and> loop_inv s u \<and>
    (\<forall>j < length (streams s). local_idx (streams u ! j) = fcvtzs32 (r_streams rd j))"
proof -
  obtain v where v: "sync_all rd t = Inr v" "synced t rd (length (streams t)) v"
    using sync_all_ok assms(1) by (metis loop_inv_def)
  have "repointed t v" using v(2) by (simp add: synced_def)
  then have "loop_inv s (emit cs v)"
    using assms loop_inv_step emit_repointed by blast
  moreover have "length (streams t) = length (streams s)"
    using assms(1) by (simp add: loop_inv_def repointed_streams)
  ultimately show ?thesis using v by (simp add: synced_def)
qed

text \<open>The rounds of a loop, and the indices they leave.\<close>

definition at_reading :: "server \<Rightarrow> reading \<Rightarrow> server \<Rightarrow> bool" where
  "at_reading s rd t \<longleftrightarrow> (\<forall>j < length (streams s). local_idx (streams t ! j) = fcvtzs32 (r_streams rd j))"

lemma rounds_ok:
  assumes "loop_inv s t" "\<And>rd. quiet (cs rd)"
  shows "\<exists>u. rfold (\<lambda>rd s. rbind (sync_all rd s) (\<lambda>s. Inr (emit (cs rd) s))) rds t = Inr u \<and> loop_inv s u \<and>
    (rds \<noteq> [] \<longrightarrow> at_reading s (last rds) u)"
  using assms(1)
proof (induction rds arbitrary: t)
  case (Cons rd rds)
  obtain u where u: "rbind (sync_all rd t) (\<lambda>s. Inr (emit (cs rd) s)) = Inr u" "loop_inv s u" "at_reading s rd u"
    using round_ok [OF Cons.prems assms(2)] by (metis at_reading_def)
  show ?case using Cons.IH [OF u(2)] u(1,3) by (cases "rds = []") (auto simp del: rbind_eq_Inr)
qed simp

lemma loop_inv_start:
  assumes "registry_ok s" "small s" "quiet cs"
  shows "loop_inv (emit cs (s\<lparr>is_running := b\<rparr>)) (emit cs (s\<lparr>is_running := b\<rparr>))"
  using assms by (simp add: loop_inv_def registry_ok_def pipes_live_def small_def)

lemma quiet_threads [simp]: "quiet (map ThreadStart rs)" "quiet (map ThreadJoin rs)"
  by (induction rs) simp_all


definition demo_reading :: reading where
  "demo_reading = \<lparr>r_source = Fin 1, r_camera = Fin 0, r_pipeline = Fin 1, r_enable = True, r_grab = True,
     r_verbosity = Fin 2, r_maxfps = Fin 30, r_streams = (\<lambda>j. Fin (- 1)),
     t_beg_frame = 1000, t_beg_proc = 2000, t_end_proc = 3000, t_end_frame = 4000, t_sleep = 5000\<rparr>"


subsection \<open>The frame rate\<close>

text \<open>The cap on the frame rate. For a positive cap the pause at the end of an iteration
  completes the frame time: it is exactly the part of \<^verbatim>\<open>1E9 / fps_cap\<close> nanoseconds, truncated, the
  iteration has not used. A cap of 0, which the code does not exclude, makes the quotient infinite and
  the stored frame time negative, so the loop never pauses.\<close>

theorem frame_rate_cap:
  assumes "0 < f" "1000000000 / f < 2 ^ 63" "0 \<le> used"
  shows "pause (Fin f) used = (if used < \<lfloor>1000000000 / f\<rfloor> then [Sleep (\<lfloor>1000000000 / f\<rfloor> - used)] else [])
    \<and> pause (Fin 0) used = []"
proof -
  let ?q = "1000000000 / f"
  have "0 \<le> ?q" using assms(1) by simp
  then have q: "0 \<le> \<lfloor>?q\<rfloor>" "\<lfloor>?q\<rfloor> < 2 ^ 63"
    using assms(2) by (simp_all add: floor_less_iff)
  then have "int64 \<lfloor>?q\<rfloor> = \<lfloor>?q\<rfloor>" by (intro int64_id) linarith+
  then have "frame_nanos (Fin f) = \<lfloor>?q\<rfloor>"
    using q assms(1) \<open>0 \<le> ?q\<close> by (simp add: frame_nanos_def rat_trunc_def sat_id)
  moreover have "frame_nanos (Fin 0) = - 1" by (simp add: frame_nanos_def int64_def)
  ultimately show ?thesis using assms(3) by (simp add: pause_def Let_def)
qed

theorem frame_rate_cap_witness: "pause (Fin 30) 5000 = [Sleep 33328333] \<and> pause (Fin 0) 5000 = []"
  using frame_rate_cap [of 30 5000] by (simp add: floor_eq_iff)

subsection \<open>The thread of a pipeline\<close>

text \<open>The calls that handle a frame.\<close>

fun frame_call :: "call \<Rightarrow> bool" where
  "frame_call (PipeInit h) = True" | "frame_call (PipeProcess h) = True"
| "frame_call (PipeClose h) = True" | "frame_call (CsPutFrame h) = True"
| "frame_call _ = False"

definition frame_calls :: "log \<Rightarrow> log" where
  "frame_calls = filter frame_call"

definition frame_of :: "handle \<Rightarrow> reading \<Rightarrow> log" where
  "frame_of h rd = (if r_enable rd \<and> r_grab rd then [PipeProcess h, CsPutFrame h] else [])"

text \<open>A source index the thread can handle: one of a camera, of a pipeline, or out of both
  ranges.\<close>

definition source_ok :: "int \<Rightarrow> server \<Rightarrow> reading \<Rightarrow> bool" where
  "source_ok fa s rd \<longleftrightarrow> - int (numPipelines s) \<le> fcvtzs32 (r_source rd) \<or> fcvtzs32 (r_source rd) < - fa"

definition runner_inv :: "pref \<Rightarrow> server \<Rightarrow> handle \<Rightarrow> log \<Rightarrow> server \<Rightarrow> bool" where
  "runner_inv r s h fs t \<longleftrightarrow> pipes_live t \<and> cameras t = cameras s \<and> pipelines t = pipelines s \<and>
     (\<exists>p. pheap t r = Some p \<and> phandle p = h) \<and> frame_calls (slog t) = frame_calls (slog s) @ fs"

lemma frame_calls_simps [simp]:
  "frame_calls [] = []" "frame_calls (xs @ ys) = frame_calls xs @ frame_calls ys"
  "frame_calls (c # cs) = (if frame_call c then c # frame_calls cs else frame_calls cs)"
  by (simp_all add: frame_calls_def)

lemma frame_calls_none [simp]:
  "frame_calls (draw_stats v) = []" "frame_calls (put_stats p tm) = []" "frame_calls (pause cap d) = []"
  by (simp_all add: draw_stats_def put_stats_def pause_def Let_def)

lemma runner_source_ok:
  assumes "runner_inv r s h fs t" "source_ok fa s rd"
  shows "\<exists>u. runner_source L fa r (fcvtzs32 (r_source rd)) t = Inr u \<and> runner_inv r s h fs u"
proof -
  let ?n = "fcvtzs32 (r_source rd)"
  obtain p where p: "pheap t r = Some p" "phandle p = h" using assms(1) by (auto simp: runner_inv_def)
  have cam: "cameras t = cameras s" and pl: "pipelines t = pipelines s" and lv: "pipes_live t"
    using assms(1) by (simp_all add: runner_inv_def)
  consider "0 < ?n \<and> ?n \<le> int (numCameras t)" | "?n < 0 \<and> - fa \<le> ?n"
    | "\<not> (0 < ?n \<and> ?n \<le> int (numCameras t))" "\<not> (?n < 0 \<and> - fa \<le> ?n)" by blast
  then show ?thesis
  proof cases
    case 1
    then have "nat (?n - 1) < length (cameras t)" by (simp add: count_defs) linarith
    then show ?thesis using 1 p assms(1)
      by (auto simp: runner_source_def vec_at_ok setCamera_def deref_def Let_def runner_inv_def pipes_live_def)
  next
    case 2
    then have i: "nat (- ?n - 1) < length (pipelines t)"
      using assms(2) by (simp add: source_ok_def count_defs pl) linarith
    then obtain q where "pheap t (pipelines t ! nat (- ?n - 1)) = Some q"
      using lv by (meson domD nth_mem pipes_live_def subsetD)
    then show ?thesis using 2 i p assms(1)
      by (auto simp: runner_source_def vec_at_ok setPipeline_def deref_def runner_inv_def pipes_live_def)
  qed (use assms(1) in \<open>auto simp: runner_source_def\<close>)
qed

lemma runner_iter_ok:
  assumes "runner_inv r s h fs t" "source_ok fa s rd"
  shows "\<exists>st' u. runner_iter L fa r rd (st, t) = Inr (st', u) \<and> runner_inv r s h (fs @ frame_of h rd) u"
proof -
  obtain u where u: "(if fcvtzs32 (r_source rd) \<noteq> ridx st then runner_source L fa r (fcvtzs32 (r_source rd)) t
      else Inr t) = Inr u" "runner_inv r s h fs u"
    using runner_source_ok [OF assms] assms(1) by (metis (full_types))
  then obtain p where "pheap u r = Some p" "phandle p = h" by (auto simp: runner_inv_def)
  with u show ?thesis
    by (simp add: runner_iter_def Let_def deref_def runner_inv_def frame_of_def)
qed

lemma runner_loop_ok:
  assumes "runner_inv r s h fs t" "\<forall>rd \<in> set rds. source_ok fa s rd"
  shows "\<exists>st' u. rfold (runner_iter L fa r) rds (st, t) = Inr (st', u) \<and>
    runner_inv r s h (fs @ concat (map (frame_of h) rds)) u"
  using assms
proof (induction rds arbitrary: fs st t)
  case (Cons rd rds)
  then obtain st' u where "runner_iter L fa r rd (st, t) = Inr (st', u)" "runner_inv r s h (fs @ frame_of h rd) u"
    using runner_iter_ok by (metis list.set_intros(1))
  then show ?case using Cons.IH [of "fs @ frame_of h rd" u st'] Cons.prems(2) by simp
qed simp

text \<open>C8: The thread of a pipeline calls \<^verbatim>\<open>init\<close> first and \<^verbatim>\<open>close\<close> last, and in between processes
  and then publishes every frame it grabbed while processing was enabled, once each and in order,
  whatever it reads from the network, as long as no source index is below the number of pipelines
  and still accepted by the broken bound of the code.\<close>

theorem runner_processes_each_frame:
  assumes "pipes_live s" "pheap s r = Some p" "\<forall>rd \<in> set rds. source_ok fa s rd"
  shows "\<exists>s'. pipelineRunner L fa r cap rds s = Inr s' \<and>
    frame_calls (slog s') = frame_calls (slog s) @
      [PipeInit (phandle p)] @ concat (map (frame_of (phandle p)) rds) @ [PipeClose (phandle p)]"
proof -
  let ?s = "emit [NtPut (ptable p) ''Enable Processing'' (NtBoolean True),
     put_num (ptable p) ''Source Index'' 1, put_num (ptable p) ''Statistics Verbosity'' 0,
     NtPut (ptable p) ''Max FPS'' (NtDouble cap), PipeInit (phandle p)] s"
  have "runner_inv r s (phandle p) [PipeInit (phandle p)] ?s"
    using assms(1,2) by (simp add: runner_inv_def put_num_def)
  from runner_loop_ok [OF this assms(3), of L "\<lparr>ridx = 1, rtiming = timing0 cap\<rparr>"]
  show ?thesis using assms(2)
    by (auto simp: pipelineRunner_def runner_begin_def runner_end_def deref_def Let_def runner_inv_def)
qed

theorem runner_processes_each_frame_witness:
  "\<exists>s'. pipelineRunner demo_lib 1 0 (Fin 30) [demo_reading, demo_reading\<lparr>r_grab := False\<rparr>] demo_server = Inr s' \<and>
    frame_calls (slog s') = frame_calls (slog demo_server) @ [PipeInit 21, PipeProcess 21, CsPutFrame 21, PipeClose 21]"
  using runner_processes_each_frame [OF registry_ok_live [OF reachable_ok [OF demo_server_reachable]], of 0 demo_pipe
      "[demo_reading, demo_reading\<lparr>r_grab := False\<rparr>]" 1 demo_lib "Fin 30"]
  by (simp add: demo_server_simps source_ok_def demo_reading_def count_defs frame_of_def demo_pipe_def BasePipe_new_def
      rat_trunc_def sat_def)


text \<open>The bound on negative source indices uses the address of the function \<^verbatim>\<open>numPipelines\<close>
  instead of its result: an index below minus the number of pipelines that passes it ends the thread
  with \<^verbatim>\<open>std::out_of_range\<close>. And a pipeline whose entry keeps its initial value 1 is never connected
  to a camera by its thread, because the thread takes index 1 for already selected.\<close>

theorem runner_source_index_faults:
  assumes "pheap s r = Some p"
  shows "(fcvtzs32 (r_source rd) < - int (numPipelines s) \<and> - fa \<le> fcvtzs32 (r_source rd)
        \<and> fcvtzs32 (r_source rd) \<noteq> ridx st \<longrightarrow> runner_iter L fa r rd (st, s) = Inl OutOfRange)
    \<and> ((\<forall>rd \<in> set rds. fcvtzs32 (r_source rd) = 1) \<longrightarrow>
        (\<exists>s'. pipelineRunner L fa r cap rds s = Inr s' \<and> pheap s' = pheap s))"
proof (intro conjI impI)
  assume "fcvtzs32 (r_source rd) < - int (numPipelines s) \<and> - fa \<le> fcvtzs32 (r_source rd)
    \<and> fcvtzs32 (r_source rd) \<noteq> ridx st"
  moreover from this have "vec_at (pipelines s) (nat (- fcvtzs32 (r_source rd) - 1)) = Inl OutOfRange"
    by (intro vec_at_oob) (simp add: count_defs, linarith)
  ultimately show "runner_iter L fa r rd (st, s) = Inl OutOfRange"
    by (simp add: runner_iter_def runner_source_def count_defs Let_def)
next
  assume one: "\<forall>rd \<in> set rds. fcvtzs32 (r_source rd) = 1"
  have "\<exists>st' u. rfold (runner_iter L fa r) rds (st, t) = Inr (st', u) \<and> pheap u = pheap s"
    if "ridx st = 1" "pheap t = pheap s" for st t
    using one that
  proof (induction rds arbitrary: st t)
    case (Cons rd rds)
    then show ?case using assms by (simp add: runner_iter_def deref_def Let_def)
  qed simp
  from this [of "\<lparr>ridx = 1, rtiming = timing0 cap\<rparr>"
      "emit [NtPut (ptable p) ''Enable Processing'' (NtBoolean True), put_num (ptable p) ''Source Index'' 1,
        put_num (ptable p) ''Statistics Verbosity'' 0, NtPut (ptable p) ''Max FPS'' (NtDouble cap),
        PipeInit (phandle p)] s"]
  show "\<exists>s'. pipelineRunner L fa r cap rds s = Inr s' \<and> pheap s' = pheap s"
    using assms by (auto simp: pipelineRunner_def runner_begin_def runner_end_def deref_def Let_def)
qed

theorem runner_source_index_faults_witness:
  "runner_iter demo_lib 4096 0 (demo_reading\<lparr>r_source := Fin (- 2)\<rparr>) (\<lparr>ridx = 1, rtiming = timing0 (Fin 30)\<rparr>, demo_server)
     = Inl OutOfRange"
  using runner_source_index_faults [of demo_server 0 demo_pipe "demo_reading\<lparr>r_source := Fin (- 2)\<rparr>" 4096
      "\<lparr>ridx = 1, rtiming = timing0 (Fin 30)\<rparr>" demo_lib "[]"]
  by (simp add: demo_server_simps count_defs rat_trunc_def sat_def ceiling_eq_iff)

subsection \<open>The singlethreaded loop\<close>

lemma select_loop_repointed:
  assumes "pipes_live t" "small t"
  shows "\<exists>u. rfold (\<lambda>j. setSourceIdx j n) [0..<length (streams t)] t = Inr u \<and> repointed t u"
proof (rule rfold_invariant)
  fix j v assume j: "j \<in> set [0..<length (streams t)]" and v: "repointed t v"
  have "\<exists>w. setSourceIdx j n v = Inr w"
    using setSourceIdx_eq [OF repointed_live [OF v assms(1)], of j n] repointed_small [OF v] assms(2)
      repointed_streams [OF v] j by simp
  then show "\<exists>w. setSourceIdx j n v = Inr w \<and> repointed t w"
    using v setSourceIdx_repointed repointed_trans by blast
qed simp

definition single_inv :: "server \<Rightarrow> single \<times> server \<Rightarrow> bool" where
  "single_inv s x \<longleftrightarrow> loop_inv s (snd x) \<and> 0 \<le> p_idx (fst x) \<and> p_idx (fst x) < int (numPipelines s)"

lemma loop_inv_lists: "loop_inv s t \<Longrightarrow> cameras t = cameras s \<and> pipelines t = pipelines s"
  by (simp add: loop_inv_def repointed_def)

lemma pipe_at_ok:
  assumes "loop_inv s t" "0 \<le> i" "i < int (numPipelines s)"
  shows "\<exists>p. pipe_at t i = Inr (pipelines s ! nat i, p)"
proof -
  have i: "nat i < length (pipelines t)" using assms loop_inv_lists by (simp add: count_defs nat_less_iff)
  then obtain p where "pheap t (pipelines t ! nat i) = Some p"
    using assms(1) by (meson domD loop_inv_def nth_mem pipes_live_def subsetD)
  then show ?thesis using i loop_inv_lists [OF assms(1)] by (simp add: pipe_at_def vec_idx_ok deref_def)
qed

lemma switch_pipeline_ok:
  assumes "single_inv s x"
  shows "\<exists>y. switch_pipeline n x = Inr y \<and> single_inv s y"
proof (cases x)
  case (Pair st t)
  then have inv: "loop_inv s t" "0 \<le> p_idx st" "p_idx st < int (numPipelines s)"
    using assms by (simp_all add: single_inv_def)
  have np: "numPipelines t = numPipelines s" using loop_inv_lists [OF inv(1)] by (simp add: count_defs)
  show ?thesis
  proof (cases "n \<noteq> p_idx st + 1 \<and> n > 0 \<and> n \<le> int (numPipelines t)")
    case True
    obtain p where p: "pipe_at t (p_idx st) = Inr (pipelines s ! nat (p_idx st), p)"
      using pipe_at_ok inv by blast
    obtain q where q: "pipe_at t (n - 1) = Inr (pipelines s ! nat (n - 1), q)"
      using pipe_at_ok [OF inv(1), of "n - 1"] True np by auto
    let ?t = "emit [PipeClose (phandle p), PipeInit (phandle q)] t"
    have t: "loop_inv s ?t" by (rule loop_inv_step [OF inv(1) emit_repointed]) simp
    then obtain u where u: "rfold (\<lambda>j. setSourceIdx j n) [0..<length (streams t)] ?t = Inr u" "repointed ?t u"
      using select_loop_repointed [of ?t n] by (auto simp: loop_inv_def)
    have "loop_inv s u" using loop_inv_step [OF t u(2)] .
    then show ?thesis using True p q u(1) Pair np
      by (simp add: switch_pipeline_def single_inv_def)
  qed (use assms Pair in \<open>auto simp: switch_pipeline_def\<close>)
qed

definition camera_ok :: "server \<Rightarrow> reading \<Rightarrow> bool" where
  "camera_ok s rd \<longleftrightarrow> fcvtzs32 (r_camera rd) \<le> 0 \<or> fcvtzs32 (r_camera rd) \<noteq> int (numCameras s)"

lemma switch_camera_ok:
  assumes "single_inv s x" "n \<le> 0 \<or> n \<noteq> int (numCameras s)"
  shows "\<exists>y. switch_camera L n x = Inr y \<and> single_inv s y"
proof (cases x)
  case (Pair st t)
  then have inv: "loop_inv s t" "0 \<le> p_idx st" "p_idx st < int (numPipelines s)"
    using assms by (simp_all add: single_inv_def)
  have nc: "numCameras t = numCameras s" using loop_inv_lists [OF inv(1)] by (simp add: count_defs)
  show ?thesis
  proof (cases "n \<noteq> c_idx st \<and> n > 0 \<and> n \<le> int (numCameras t)")
    case True
    obtain p where p: "pipe_at t (p_idx st) = Inr (pipelines s ! nat (p_idx st), p)"
      using pipe_at_ok inv by blast
    let ?r = "pipelines s ! nat (p_idx st)"
    have "nat n < length (cameras t)" using True assms(2) nc by (simp add: count_defs nat_less_iff)
    moreover have "pheap t ?r = Some p" using p by (auto simp: pipe_at_def)
    then obtain u where u: "setCamera L ?r (nat n) (cameras t ! nat n) t = Inr u"
      by (simp add: setCamera_def deref_def Let_def)
    moreover have "loop_inv s u" using loop_inv_step [OF inv(1) setCamera_repointed [OF u]] .
    ultimately show ?thesis using True p Pair inv by (simp add: switch_camera_def vec_idx_ok single_inv_def)
  qed (use assms Pair in \<open>auto simp: switch_camera_def single_inv_def\<close>)
qed

lemma single_frame_ok:
  assumes "single_inv s x"
  shows "\<exists>y. single_frame rd x = Inr y \<and> single_inv s y"
proof (cases x)
  case (Pair st t)
  then have inv: "loop_inv s t" "0 \<le> p_idx st" "p_idx st < int (numPipelines s)"
    using assms by (simp_all add: single_inv_def)
  then obtain p where p: "pipe_at t (p_idx st) = Inr (pipelines s ! nat (p_idx st), p)"
    using pipe_at_ok by blast
  have "loop_inv s (emit cs t)" if "quiet cs" for cs
    using loop_inv_step [OF inv(1) emit_repointed [OF that]] .
  then show ?thesis using p Pair inv
    by (simp add: single_frame_def Let_def single_inv_def put_stats_def draw_stats_def)
qed

lemma single_iter_ok:
  assumes "single_inv s x" "camera_ok s rd"
  shows "\<exists>y. single_iter L rd x = Inr y \<and> single_inv s y"
proof -
  obtain y where y: "switch_pipeline (fcvtzs32 (r_pipeline rd)) x = Inr y" "single_inv s y"
    using switch_pipeline_ok [OF assms(1)] by blast
  obtain st t where z: "switch_camera L (fcvtzs32 (r_camera rd)) y = Inr (st, t)" "single_inv s (st, t)"
    using switch_camera_ok [OF y(2)] assms(2) by (force simp: camera_ok_def)
  then obtain u where u: "sync_all rd t = Inr u" "synced t rd (length (streams t)) u"
    using sync_all_ok [of t rd] by (auto simp: single_inv_def loop_inv_def)
  have "single_inv s (st, u)"
    using z(2) u(2) loop_inv_step by (auto simp: single_inv_def synced_def)
  then show ?thesis using single_frame_ok y z u by (simp add: single_iter_def)
qed

lemma single_loop_ok:
  assumes "single_inv s x" "\<forall>rd \<in> set rds. camera_ok s rd"
  shows "\<exists>st t. rfold (single_iter L) rds x = Inr (st, t) \<and> single_inv s (st, t)"
proof -
  have "\<exists>y. rfold (single_iter L) rds x = Inr y \<and> single_inv s y"
  proof (rule rfold_invariant [where P = "single_inv s", OF assms(1)])
    fix rd y assume "rd \<in> set rds" "single_inv s y"
    then show "\<exists>z. single_iter L rd y = Inr z \<and> single_inv s z" using single_iter_ok assms(2) by blast
  qed
  then show ?thesis by force
qed



text \<open>The camera index of \<^verbatim>\<open>runSingle\<close> is checked as a number from 1 and then used as an
  index from 0: asking for the last camera reads past the end of the vector, and asking for an earlier
  one attaches the camera after it.\<close>

theorem runSingle_camera_off_by_one:
  assumes "0 \<le> p_idx st" "nat (p_idx st) < numPipelines s" "pipes_live s"
    and "0 < n" "n \<le> int (numCameras s)" "n \<noteq> c_idx st"
  shows "switch_camera L n (st, s) =
    (if n = int (numCameras s) then Inl UB
     else rbind (setCamera L (pipelines s ! nat (p_idx st)) (nat n) (cameras s ! nat n) s)
            (\<lambda>s'. Inr (st\<lparr>c_idx := n\<rparr>, s')))"
proof -
  have "pipelines s ! nat (p_idx st) \<in> set (pipelines s)" using assms(2) by (simp add: count_defs)
  then obtain p where "pheap s (pipelines s ! nat (p_idx st)) = Some p"
    using assms(3) by (meson domD pipes_live_def subsetD)
  then show ?thesis using assms
    by (auto simp: switch_camera_def pipe_at_def count_defs deref_def vec_idx_def nat_less_iff)
qed

theorem runSingle_camera_off_by_one_witness:
  "switch_camera demo_lib 1 (\<lparr>c_idx = 0, p_idx = 0, stiming = timing0 (Fin 30)\<rparr>, demo_server) = Inl UB"
  using runSingle_camera_off_by_one [of "\<lparr>c_idx = 0, p_idx = 0, stiming = timing0 (Fin 30)\<rparr>" demo_server 1 demo_lib]
    registry_ok_live [OF reachable_ok [OF demo_server_reachable]]
  by (simp add: demo_server_simps count_defs)

end
