(* ===== verification/Interleaving.thy ===== *)
theory Interleaving
  imports VS_Prelude
begin

text \<open>
  Executions of threads as lists of moves, and two contracts for them: a system whose visible moves follow a
  specification (locale \<open>label_simulation\<close>), and a system whose moves use up a finite amount of work (locale
  \<open>bounded_moves\<close>). A move that is blocked is \<open>None\<close>.
\<close>

fun runs :: "('a \<Rightarrow> 'c \<Rightarrow> 'c option) \<Rightarrow> 'a list \<Rightarrow> 'c \<Rightarrow> 'c option" where
  "runs move [] c = Some c"
| "runs move (a # as) c = (case move a c of None \<Rightarrow> None | Some c' \<Rightarrow> runs move as c')"

text \<open>The labels of the moves of an execution, in order.\<close>

fun labels :: "('a \<Rightarrow> 'c \<Rightarrow> 'c option) \<Rightarrow> ('a \<Rightarrow> 'c \<Rightarrow> 'l list) \<Rightarrow> 'a list \<Rightarrow> 'c \<Rightarrow> 'l list" where
  "labels move label [] c = []"
| "labels move label (a # as) c = (case move a c of None \<Rightarrow> [] | Some c' \<Rightarrow> label a c @ labels move label as c')"

lemma runs_append: "runs move (as @ bs) c = Option.bind (runs move as c) (runs move bs)"
  by (induction as arbitrary: c) (simp_all split: option.splits)

lemma runs_invariant:
  assumes "runs move as c = Some c'" "I c" "\<And>a c c'. a \<in> set as \<Longrightarrow> I c \<Longrightarrow> move a c = Some c' \<Longrightarrow> I c'"
  shows "I c'"
  using assms
proof (induction as arbitrary: c)
  case (Cons a as)
  then obtain d where d: "move a c = Some d" "runs move as d = Some c'" by (auto split: option.splits)
  then have "I d" using Cons.prems(2,3) by (meson list.set_intros(1))
  then show ?case using Cons.IH [OF d(2)] Cons.prems(3) by (meson list.set_intros(2))
qed simp

lemma runs_cong: "(\<And>a c. a \<in> set as \<Longrightarrow> move a c = move' a c) \<Longrightarrow> runs move as c = runs move' as c"
  by (induction as arbitrary: c) (simp_all split: option.splits)

locale label_simulation =
  fixes move :: "'a \<Rightarrow> 'c \<Rightarrow> 'c option" and label :: "'a \<Rightarrow> 'c \<Rightarrow> 'l list"
    and spec :: "'l \<Rightarrow> 's \<Rightarrow> 's" and related :: "'c \<Rightarrow> 's \<Rightarrow> bool" and ok :: "'a \<Rightarrow> bool"
  assumes simulates: "related c s \<Longrightarrow> ok a \<Longrightarrow> move a c = Some c' \<Longrightarrow> related c' (fold spec (label a c) s)"
begin

lemma simulates_runs:
  "related c s \<Longrightarrow> \<forall>a \<in> set as. ok a \<Longrightarrow> runs move as c = Some c' \<Longrightarrow> related c' (fold spec (labels move label as c) s)"
proof (induction as arbitrary: c s)
  case (Cons a as)
  then obtain d where d: "move a c = Some d" "runs move as d = Some c'" by (auto split: option.splits)
  then have "related d (fold spec (label a c) s)" using Cons.prems(1,2) simulates by simp
  then show ?case using Cons.IH [of d "fold spec (label a c) s"] Cons.prems(2) d by simp
qed simp

end

locale bounded_moves =
  fixes move :: "'a \<Rightarrow> 'c \<Rightarrow> 'c option" and good :: "'c \<Rightarrow> bool" and work :: "'c \<Rightarrow> nat"
  assumes keeps: "good c \<Longrightarrow> move a c = Some c' \<Longrightarrow> good c'"
    and uses: "good c \<Longrightarrow> move a c = Some c' \<Longrightarrow> work c' < work c"
begin

lemma runs_good: "good c \<Longrightarrow> runs move as c = Some c' \<Longrightarrow> good c'"
  by (rule runs_invariant) (auto intro: keeps)

lemma runs_bounded: "good c \<Longrightarrow> runs move as c = Some c' \<Longrightarrow> length as + work c' \<le> work c"
proof (induction as arbitrary: c)
  case (Cons a as)
  then obtain d where "move a c = Some d" "runs move as d = Some c'" by (auto split: option.splits)
  then show ?case using Cons uses [of c a d] keeps [of c a d] by force
qed simp

end

end
