(* ===== verification/Server_Pool.thy ===== *)
theory Server_Pool
  imports Server_Run_Props Interleaving
begin

text \<open>
  The threads of \<^verbatim>\<open>VisionServer::run\<close> (\<^verbatim>\<open>core/visionserver2.cpp\<close>): the thread that calls \<^verbatim>\<open>run\<close>, one thread
  per pipeline in \<^verbatim>\<open>pipelineRunner\<close>, and a thread that calls \<^verbatim>\<open>stop\<close>, over one shared server. An execution
  is a schedule, a list that names at each step the thread that moves and what it reads; the theorems hold for
  every schedule. A step is one test of \<^verbatim>\<open>isRunning()\<close> with the part of the loop up to the next test, a
  start or a join of a thread. An exception that leaves a thread ends the program, the field \<open>crash\<close>.
\<close>

subsection \<open>Threads\<close>

datatype runner_pc = RBegin | RLoop runner | REnd

datatype main_pc = MEnter | MSpawn nat | MLoop | MJoin nat | MDone bool

record pool =
  srv :: server
  mpc :: main_pc
  threads :: "(pref \<times> runner_pc) list"
  crash :: "err option"

definition pool0 :: "server \<Rightarrow> pool" where
  "pool0 s = \<lparr>srv = s, mpc = MEnter, threads = [], crash = None\<rparr>"

text \<open>What a thread does with the result of a part of its function.\<close>

definition go_on :: "(server \<Rightarrow> pool \<Rightarrow> pool) \<Rightarrow> pool \<Rightarrow> server res \<Rightarrow> pool" where
  "go_on f P x = (case x of Inl e \<Rightarrow> P\<lparr>crash := Some e\<rparr> | Inr s \<Rightarrow> f s P)"

text \<open>\<^verbatim>\<open>run\<close>; joining a thread that has not ended blocks.\<close>

definition main_step :: "dbl \<Rightarrow> reading \<Rightarrow> pool \<Rightarrow> pool option" where
  "main_step cap rd P = (let s = srv P in case mpc P of
       MEnter \<Rightarrow> Some (if \<not> isRunning s \<and> numPipelines s > 0
         then P\<lparr>srv := emit [put_status ''Running Multithreaded''] (s\<lparr>is_running := True\<rparr>), mpc := MSpawn 0\<rparr>
         else P\<lparr>mpc := MDone False\<rparr>)
     | MSpawn i \<Rightarrow> Some (if i < numPipelines s
         then P\<lparr>srv := emit [ThreadStart (pipelines s ! i)] s, threads := threads P @ [(pipelines s ! i, RBegin)], mpc := MSpawn (i + 1)\<rparr>
         else P\<lparr>mpc := MLoop\<rparr>)
     | MLoop \<Rightarrow> Some (if isRunning s then go_on (\<lambda>s P. P\<lparr>srv := s\<rparr>) P (run_round cap rd s) else P\<lparr>mpc := MJoin 0\<rparr>)
     | MJoin i \<Rightarrow> (if i < length (threads P) then
           (if snd (threads P ! i) = REnd
            then Some (P\<lparr>srv := emit [ThreadJoin (fst (threads P ! i))] s, mpc := MJoin (i + 1)\<rparr>) else None)
         else Some (P\<lparr>srv := emit [put_status ''Offline''] s, mpc := MDone True\<rparr>))
     | MDone b \<Rightarrow> None)"

text \<open>\<^verbatim>\<open>pipelineRunner\<close>, in the thread \<open>i\<close>.\<close>

definition set_thread :: "nat \<Rightarrow> runner_pc \<Rightarrow> pool \<Rightarrow> pool" where
  "set_thread i pc P = P\<lparr>threads := (threads P)[i := (fst (threads P ! i), pc)]\<rparr>"

definition thread_step :: "cs_lib \<Rightarrow> int \<Rightarrow> dbl \<Rightarrow> nat \<Rightarrow> reading \<Rightarrow> pool \<Rightarrow> pool option" where
  "thread_step L fa cap i rd P = (let s = srv P in
     if i < length (threads P) then
       (let r = fst (threads P ! i) in case snd (threads P ! i) of
          RBegin \<Rightarrow> Some (case runner_begin r cap s of Inl e \<Rightarrow> P\<lparr>crash := Some e\<rparr>
            | Inr (st, s) \<Rightarrow> set_thread i (RLoop st) (P\<lparr>srv := s\<rparr>))
        | RLoop st \<Rightarrow> Some (if isRunning s
            then (case runner_iter L fa r rd (st, s) of Inl e \<Rightarrow> P\<lparr>crash := Some e\<rparr>
              | Inr (st, s) \<Rightarrow> set_thread i (RLoop st) (P\<lparr>srv := s\<rparr>))
            else go_on (\<lambda>s P. set_thread i REnd (P\<lparr>srv := s\<rparr>)) P (runner_end r s))
        | REnd \<Rightarrow> None)
     else None)"

text \<open>The assignment of \<^verbatim>\<open>stop\<close>.\<close>

definition clear_flag :: "pool \<Rightarrow> pool" where
  "clear_flag P = P\<lparr>srv := (srv P)\<lparr>is_running := False\<rparr>\<rparr>"

subsection \<open>Schedules\<close>

datatype action = Main reading | Thread nat reading | Stop

definition act :: "cs_lib \<Rightarrow> int \<Rightarrow> dbl \<Rightarrow> action \<Rightarrow> pool \<Rightarrow> pool option" where
  "act L fa cap a P = (if crash P \<noteq> None then None else case a of
       Main rd \<Rightarrow> main_step cap rd P
     | Thread i rd \<Rightarrow> thread_step L fa cap i rd P
     | Stop \<Rightarrow> Some (clear_flag P))"

definition schedule :: "cs_lib \<Rightarrow> int \<Rightarrow> dbl \<Rightarrow> action list \<Rightarrow> pool \<Rightarrow> pool option" where
  "schedule L fa cap = runs (act L fa cap)"

text \<open>The rounds of the main loop in a schedule, by what they read.\<close>

definition round_of :: "action \<Rightarrow> pool \<Rightarrow> reading list" where
  "round_of a P = (case a of Main rd \<Rightarrow> (if mpc P = MLoop \<and> isRunning (srv P) then [rd] else []) | _ \<Rightarrow> [])"

definition rounds :: "cs_lib \<Rightarrow> int \<Rightarrow> dbl \<Rightarrow> action list \<Rightarrow> pool \<Rightarrow> reading list" where
  "rounds L fa cap = labels (act L fa cap) round_of"

text \<open>The source indices the threads can handle.\<close>

definition action_ok :: "int \<Rightarrow> server \<Rightarrow> action \<Rightarrow> bool" where
  "action_ok fa s a = (case a of Thread i rd \<Rightarrow> source_ok fa s rd | _ \<Rightarrow> True)"

subsection \<open>What the threads keep\<close>

text \<open>The handles of a server: what no thread changes.\<close>

definition handles :: "BasePipe \<Rightarrow> handle \<times> handle" where
  "handles p = (phandle p, pinput p)"

definition same_handles :: "server \<Rightarrow> server \<Rightarrow> bool" where
  "same_handles s t \<longleftrightarrow> cameras t = cameras s \<and> storage t = storage s \<and> pipelines t = pipelines s \<and> heap_allocated t = heap_allocated s \<and> map shandle (streams t) = map shandle (streams s)
     \<and> (\<forall>r. map_option handles (pheap t r) = map_option handles (pheap s r))"

lemma same_handles_refl [simp]: "same_handles s s"
  by (simp add: same_handles_def)

lemma same_handles_trans [trans]: "same_handles s t \<Longrightarrow> same_handles t u \<Longrightarrow> same_handles s u"
  by (simp add: same_handles_def)

lemma same_handles_simps [simp]:
  "same_handles s (emit cs t) = same_handles s t" "same_handles s (t\<lparr>is_running := b\<rparr>) = same_handles s t"
  by (simp_all add: same_handles_def)

lemma same_handles_dom:
  assumes "same_handles s t" shows "dom (pheap t) = dom (pheap s)"
proof -
  have "pheap t r = None \<longleftrightarrow> pheap s r = None" for r
    using assms unfolding same_handles_def by (metis option.map_disc_iff)
  then show ?thesis by (auto simp: dom_def)
qed

lemma same_handles_live: "same_handles s t \<Longrightarrow> pipes_live s \<Longrightarrow> pipes_live t"
  using same_handles_dom [of s t] by (simp add: pipes_live_def same_handles_def)

lemma same_handles_small: "same_handles s t \<Longrightarrow> small t = small s"
  by (simp add: same_handles_def small_def)

lemma same_handles_source: "same_handles s t \<Longrightarrow> source_of t = source_of s"
proof
  fix i
  assume h: "same_handles s t"
  have "map_option phandle (pheap t r) = map_option phandle (pheap s r)" for r
  proof -
    have "map_option fst (map_option handles (pheap t r)) = map_option fst (map_option handles (pheap s r))"
      using h by (simp add: same_handles_def)
    then show ?thesis by (simp add: option.map_comp comp_def handles_def)
  qed
  then show "source_of t i = source_of s i" using h by (simp add: source_of_def same_handles_def)
qed

lemma same_handles_heap:
  "pheap t r = Some p \<Longrightarrow> handles q = handles p \<Longrightarrow> same_handles s t \<Longrightarrow> same_handles s (t\<lparr>pheap := (pheap t)(r \<mapsto> q)\<rparr>)"
  unfolding same_handles_def by (auto split: if_splits) (metis option.simps(9))+

end
