(* ===== verification/Server_Pool_Props.thy ===== *)
theory Server_Pool_Props
  imports Server_Pool
begin

text \<open>
  What holds in every schedule of the threads of \<^verbatim>\<open>run\<close>: each pipeline has one session, from \<^verbatim>\<open>init\<close> to
  \<^verbatim>\<open>close\<close>, and \<^verbatim>\<open>run\<close> returns only after all sessions have ended; once the flag is cleared, \<^verbatim>\<open>run\<close> returns after
  a bounded number of steps; and the streams follow a specification that does not know of the threads. And what
  goes wrong when the registry is changed between the end of the flag and the end of the threads.
\<close>

subsection \<open>The parts of the threads\<close>

text \<open>The sinks whose source is set, and the source a sink shows: the last one that was set.\<close>

definition sinks :: "log \<Rightarrow> handle set" where
  "sinks cs = {a. \<exists>h. CsSetSource a h \<in> set cs}"

fun shown :: "log \<Rightarrow> handle \<Rightarrow> handle option" where
  "shown [] a = None"
| "shown (c # cs) a = (case shown cs a of Some h \<Rightarrow> Some h
     | None \<Rightarrow> (case c of CsSetSource b h \<Rightarrow> if b = a then Some h else None | _ \<Rightarrow> None))"

lemma shown_append: "shown (cs @ ds) a = (case shown ds a of Some h \<Rightarrow> Some h | None \<Rightarrow> shown cs a)"
  by (induction cs) (simp_all split: option.splits)

lemma sinks_simps [simp]:
  "sinks [] = {}" "sinks (cs @ ds) = sinks cs \<union> sinks ds"
  "sinks (c # cs) = (case c of CsSetSource a h \<Rightarrow> insert a (sinks cs) | _ \<Rightarrow> sinks cs)"
  by (auto simp: sinks_def split: call.splits)

lemma shown_none: "a \<notin> sinks cs \<Longrightarrow> shown cs a = None"
  by (induction cs) (auto split: call.splits)

lemma shown_other [simp]: "a \<notin> sinks ds \<Longrightarrow> shown (cs @ ds) a = shown cs a"
  by (simp add: shown_append shown_none)

lemma sinks_none [simp]:
  "sinks (draw_stats v) = {}" "sinks (put_stats p tm) = {}" "sinks (pause cap d) = {}"
  by (simp_all add: draw_stats_def put_stats_def pause_def Let_def)

text \<open>A part of the thread of pipeline \<open>r\<close>: it changes that pipeline only, keeps its handles, sets no source but
  that of its own sink, and makes the frame calls \<open>fs\<close>.\<close>

definition pipe_part :: "pref \<Rightarrow> (handle \<Rightarrow> log) \<Rightarrow> server \<Rightarrow> server \<Rightarrow> bool" where
  "pipe_part r fs s t \<longleftrightarrow> (\<exists>p q cs. pheap s r = Some p \<and> handles q = handles p
     \<and> t = emit cs (s\<lparr>pheap := (pheap s)(r \<mapsto> q)\<rparr>) \<and> frame_calls cs = fs (phandle p) \<and> sinks cs \<subseteq> {pinput p})"

lemma pipe_partI:
  "pheap s r = Some p \<Longrightarrow> frame_calls cs = fs (phandle p) \<Longrightarrow> sinks cs \<subseteq> {pinput p} \<Longrightarrow> pipe_part r fs s (emit cs s)"
  unfolding pipe_part_def by (rule exI [of _ p], rule exI [of _ p], rule exI [of _ cs]) (simp add: fun_upd_idem)

lemma pipe_part_trans:
  assumes "pipe_part r (\<lambda>h. []) s t" "pipe_part r fs t u" shows "pipe_part r fs s u"
proof -
  obtain p q cs where 1: "pheap s r = Some p" "handles q = handles p" "t = emit cs (s\<lparr>pheap := (pheap s)(r \<mapsto> q)\<rparr>)"
    "frame_calls cs = []" "sinks cs \<subseteq> {pinput p}" using assms(1) by (auto simp: pipe_part_def)
  obtain q' ds where 2: "handles q' = handles q" "u = emit ds (t\<lparr>pheap := (pheap t)(r \<mapsto> q')\<rparr>)"
    "frame_calls ds = fs (phandle q)" "sinks ds \<subseteq> {pinput q}" using assms(2) 1(3) by (auto simp: pipe_part_def)
  have "phandle q = phandle p" "pinput q = pinput p" using 1(2) by (simp_all add: handles_def)
  then show ?thesis using 1 2 unfolding pipe_part_def
    by (intro exI [of _ p] exI [of _ q'] exI [of _ "cs @ ds"]) (simp add: emit_def)
qed

lemma runner_begin_part:
  "pheap s r = Some p \<Longrightarrow> \<exists>st t. runner_begin r cap s = Inr (st, t) \<and> pipe_part r (\<lambda>h. [PipeInit h]) s t"
  by (simp add: runner_begin_def deref_def) (rule pipe_partI; simp add: put_num_def)

lemma runner_end_part:
  "pheap s r = Some p \<Longrightarrow> \<exists>t. runner_end r s = Inr t \<and> pipe_part r (\<lambda>h. [PipeClose h]) s t"
  by (simp add: runner_end_def deref_def) (rule pipe_partI; simp)

lemma runner_source_part:
  assumes "runner_source L fa r n s = Inr t" "pheap s r = Some p"
  shows "pipe_part r (\<lambda>h. []) s t"
proof -
  have set_part: "pipe_part r (\<lambda>h. []) s (emit [CsSetVideoMode (phandle p) m, CsSetSource (pinput p) h] (s\<lparr>pheap := (pheap s)(r \<mapsto> q)\<rparr>))"
    if "handles q = handles p" for m h q
    using assms(2) that unfolding pipe_part_def by (intro exI [of _ p] exI [of _ q] exI [of _ "[CsSetVideoMode (phandle p) m, CsSetSource (pinput p) h]"]) simp
  have "pipe_part r (\<lambda>h. []) s (emit [] s)" by (rule pipe_partI [OF assms(2)]) simp_all
  then show ?thesis using assms
    by (auto simp: runner_source_def setCamera_def setPipeline_def Let_def handles_def split: if_splits intro!: set_part)
qed

lemma runner_iter_part:
  assumes "pipes_live s" "pheap s r = Some p" "source_ok fa s rd"
  shows "\<exists>st' t. runner_iter L fa r rd (st, s) = Inr (st', t) \<and> pipe_part r (\<lambda>h. frame_of h rd) s t"
proof -
  have "runner_inv r s (phandle p) [] s" using assms(1,2) by (simp add: runner_inv_def)
  from runner_iter_ok [OF this assms(3), of L st]
  obtain st' t where i: "runner_iter L fa r rd (st, s) = Inr (st', t)" by blast
  then obtain u where u: "(if fcvtzs32 (r_source rd) \<noteq> ridx st then runner_source L fa r (fcvtzs32 (r_source rd)) s else Inr s) = Inr u"
    by (auto simp: runner_iter_def Let_def simp del: if_split)
  have "pipe_part r (\<lambda>h. []) s (emit [] s)" by (rule pipe_partI [OF assms(2)]) simp_all
  then have p1: "pipe_part r (\<lambda>h. []) s u" using u runner_source_part [OF _ assms(2)] by (auto split: if_splits)
  then obtain q where q: "pheap u r = Some q" by (auto simp: pipe_part_def)
  have "pipe_part r (\<lambda>h. frame_of h rd) u t"
    using i u q unfolding runner_iter_def Let_def
    by (simp add: deref_def del: if_split) (auto simp: frame_of_def split: if_splits intro!: pipe_partI [OF q])
  from pipe_part_trans [OF p1 this] i show ?thesis by blast
qed

subsection \<open>Sessions\<close>

definition hnd :: "server \<Rightarrow> pref \<Rightarrow> handle" where
  "hnd s r = phandle (the (pheap s r))"

text \<open>The frame calls of the pipeline with handle \<open>h\<close>, and those of its session, with \<open>n\<close> frames, as far as its thread
  has come.\<close>

definition calls_of :: "handle \<Rightarrow> log \<Rightarrow> log" where
  "calls_of h cs = filter (\<lambda>c. c \<in> {PipeInit h, PipeProcess h, CsPutFrame h, PipeClose h}) cs"

fun session :: "handle \<Rightarrow> nat \<Rightarrow> runner_pc \<Rightarrow> log" where
  "session h n RBegin = []"
| "session h n (RLoop st) = PipeInit h # concat (replicate n [PipeProcess h, CsPutFrame h])"
| "session h n REnd = PipeInit h # concat (replicate n [PipeProcess h, CsPutFrame h]) @ [PipeClose h]"

lemma concat_replicate_snoc: "concat (replicate n xs) @ xs = xs @ concat (replicate n xs)"
  by (induction n) simp_all

lemma calls_of_append [simp]: "calls_of h (cs @ ds) = calls_of h cs @ calls_of h ds"
  by (simp add: calls_of_def)

lemma calls_of_frame: "calls_of h cs = calls_of h (frame_calls cs)"
  by (induction cs) (auto simp: calls_of_def)

lemma calls_of_none: "frame_calls cs = [] \<Longrightarrow> calls_of h cs = []"
  using calls_of_frame [of h cs] by (simp add: calls_of_def)

lemma calls_of_simps [simp]:
  "calls_of h [PipeInit g] = (if g = h then [PipeInit h] else [])"
  "calls_of h [PipeClose g] = (if g = h then [PipeClose h] else [])"
  "calls_of h (frame_of g rd) = (if g = h then frame_of h rd else [])"
  by (auto simp: calls_of_def frame_of_def)

definition start_ok :: "server \<Rightarrow> bool" where
  "start_ok s \<longleftrightarrow> pipes_live s \<and> small s \<and> \<not> isRunning s \<and> numPipelines s > 0 \<and> distinct (map (hnd s) (pipelines s))
     \<and> distinct (map shandle (streams s)) \<and> (\<forall>r \<in> set (pipelines s). pinput (the (pheap s r)) \<notin> shandle ` set (streams s))"

text \<open>How far thread \<open>i\<close> has come, and what the main thread has reached.\<close>

definition pc_of :: "pool \<Rightarrow> nat \<Rightarrow> runner_pc" where
  "pc_of P i = (if i < length (threads P) then snd (threads P ! i) else RBegin)"

definition main_ok :: "server \<Rightarrow> pool \<Rightarrow> bool" where
  "main_ok s P \<longleftrightarrow> (case mpc P of
       MEnter \<Rightarrow> threads P = [] \<and> \<not> isRunning (srv P)
     | MSpawn i \<Rightarrow> length (threads P) = i \<and> i \<le> numPipelines s
     | MLoop \<Rightarrow> length (threads P) = numPipelines s
     | MJoin i \<Rightarrow> length (threads P) = numPipelines s \<and> \<not> isRunning (srv P) \<and> (\<forall>j < i. pc_of P j = REnd \<or> j \<ge> numPipelines s)
     | MDone b \<Rightarrow> b \<and> length (threads P) = numPipelines s \<and> \<not> isRunning (srv P) \<and> (\<forall>j < numPipelines s. pc_of P j = REnd)
         \<and> last_put (slog (srv P)) vs_table ''Status'' = Some (NtString ''Offline''))"

definition sessions_ok :: "server \<Rightarrow> pool \<Rightarrow> bool" where
  "sessions_ok s P \<longleftrightarrow> (\<forall>i < numPipelines s. \<exists>n. calls_of (hnd s (pipelines s ! i)) (slog (srv P)) =
     calls_of (hnd s (pipelines s ! i)) (slog s) @ session (hnd s (pipelines s ! i)) n (pc_of P i))"

definition pool_inv :: "server \<Rightarrow> pool \<Rightarrow> bool" where
  "pool_inv s P \<longleftrightarrow> crash P = None \<and> same_handles s (srv P) \<and> map fst (threads P) = take (length (threads P)) (pipelines s)
     \<and> main_ok s P \<and> sessions_ok s P"

lemma pool_inv_init: "start_ok s \<Longrightarrow> pool_inv s (pool0 s)"
  by (auto simp: pool_inv_def pool0_def main_ok_def sessions_ok_def pc_of_def start_ok_def)

lemma same_handles_at:
  assumes "same_handles s t" "pheap t r = Some p"
  shows "phandle p = hnd s r" "pinput p = pinput (the (pheap s r))"
proof -
  have "map_option handles (pheap s r) = map_option handles (pheap t r)" using assms(1) unfolding same_handles_def by metis
  then have "map_option handles (pheap s r) = Some (handles p)" using assms(2) by simp
  then obtain q where "pheap s r = Some q" "handles q = handles p" by auto
  then show "phandle p = hnd s r" "pinput p = pinput (the (pheap s r))" by (simp_all add: hnd_def handles_def)
qed

lemma pipe_part_handles: "pipe_part r fs t u \<Longrightarrow> same_handles s t \<Longrightarrow> same_handles s u"
  by (auto simp: pipe_part_def intro: same_handles_heap)

lemma pipe_part_log:
  assumes "pipe_part r fs t u" "same_handles s t"
  shows "\<exists>cs. slog u = slog t @ cs \<and> frame_calls cs = fs (hnd s r) \<and> sinks cs \<subseteq> {pinput (the (pheap s r))}"
    "is_running u = is_running t" "streams u = streams t"
  using assms same_handles_at [OF assms(2)] by (auto simp: pipe_part_def)

lemma pc_of_set_thread:
  "i < length (threads P) \<Longrightarrow> pc_of (set_thread i pc P) j = (if j = i then pc else pc_of P j)"
  by (simp add: pc_of_def set_thread_def nth_list_update)

lemma set_thread_simps [simp]:
  "srv (set_thread i pc P) = srv P" "mpc (set_thread i pc P) = mpc P" "crash (set_thread i pc P) = crash P"
  "length (threads (set_thread i pc P)) = length (threads P)"
  "map fst (threads (set_thread i pc P)) = map fst (threads P)"
  by (simp_all add: set_thread_def map_update list_update_same_conv) (metis list_update_id map_update length_map nth_map)

subsection \<open>Every step keeps the invariant\<close>

text \<open>A part of thread \<open>i\<close> that takes its session from \<open>pc\<close> to \<open>pc'\<close>.\<close>

lemma thread_part_inv:
  assumes inv: "pool_inv s P" and s: "start_ok s" and i: "i < length (threads P)" and pc: "snd (threads P ! i) = pc" "pc \<noteq> REnd"
    and part: "pipe_part (pipelines s ! i) fs (srv P) u"
    and grow: "\<And>n. \<exists>m. session (hnd s (pipelines s ! i)) n pc @ fs (hnd s (pipelines s ! i)) = session (hnd s (pipelines s ! i)) m pc'"
    and only: "\<And>h g. g \<noteq> h \<Longrightarrow> calls_of h (fs g) = []" "\<And>h. calls_of h (fs h) = fs h"
  shows "pool_inv s (set_thread i pc' (P\<lparr>srv := u\<rparr>))"
proof -
  let ?h = "\<lambda>j. hnd s (pipelines s ! j)" and ?P = "set_thread i pc' (P\<lparr>srv := u\<rparr>)"
  have sh: "same_handles s (srv P)" and th: "map fst (threads P) = take (length (threads P)) (pipelines s)"
    and m: "main_ok s P" and ss: "sessions_ok s P" using inv by (simp_all add: pool_inv_def)
  have np: "length (threads P) \<le> numPipelines s"
    using arg_cong [OF th, of length] by (simp add: count_defs)
  obtain cs where cs: "slog u = slog (srv P) @ cs" "frame_calls cs = fs (?h i)" using pipe_part_log(1) [OF part sh] by blast
  have co: "calls_of h cs = calls_of h (fs (?h i))" for h using calls_of_frame [of h cs] cs(2) by simp
  have pcs: "pc_of ?P j = (if j = i then pc' else pc_of P j)" for j
    using pc_of_set_thread [of i "P\<lparr>srv := u\<rparr>"] i by (simp add: pc_of_def)
  have "sessions_ok s ?P"
    unfolding sessions_ok_def
  proof (intro allI impI)
    fix j assume j: "j < numPipelines s"
    obtain n where n: "calls_of (?h j) (slog (srv P)) = calls_of (?h j) (slog s) @ session (?h j) n (pc_of P j)"
      using ss j unfolding sessions_ok_def by blast
    show "\<exists>n. calls_of (?h j) (slog (srv ?P)) = calls_of (?h j) (slog s) @ session (?h j) n (pc_of ?P j)"
    proof (cases "j = i")
      case True
      have "pc_of P i = pc" using i pc by (simp add: pc_of_def)
      then show ?thesis using n True cs(1) co only(2) grow [of n] pcs by auto
    next
      case False
      have "?h j \<noteq> ?h i" using s False i j np
        by (auto simp: start_ok_def distinct_conv_nth count_defs)
      then have "calls_of (?h j) cs = []" using co only(1) by metis
      then show ?thesis using n False cs(1) pcs by auto
    qed
  qed
  moreover have "main_ok s ?P"
  proof -
    have r: "isRunning u = isRunning (srv P)" using pipe_part_log(2) [OF part sh] by (simp add: isRunning_def)
    have "\<not> (case mpc P of MDone b \<Rightarrow> True | _ \<Rightarrow> False)"
    proof
      assume "case mpc P of MDone b \<Rightarrow> True | _ \<Rightarrow> False"
      then have "pc_of P i = REnd" using m i np by (auto simp: main_ok_def split: main_pc.splits)
      then show False using i pc by (simp add: pc_of_def)
    qed
    moreover have "pc_of P i \<noteq> REnd" using i pc by (simp add: pc_of_def)
    ultimately show ?thesis using m r pcs i np by (auto simp: main_ok_def split: main_pc.splits)
  qed
  ultimately show ?thesis using inv th pipe_part_handles [OF part sh] by (simp add: pool_inv_def)
qed

lemma thread_step_inv:
  assumes inv: "pool_inv s P" and s: "start_ok s" and ok: "source_ok fa s rd" and step: "thread_step L fa cap i rd P = Some P'"
  shows "pool_inv s P' \<and> (\<exists>fs. pipe_part (pipelines s ! i) fs (srv P) (srv P')) \<and> i < numPipelines s"
proof -
  have i: "i < length (threads P)" using step by (simp add: thread_step_def Let_def split: if_splits)
  have sh: "same_handles s (srv P)" and th: "map fst (threads P) = take (length (threads P)) (pipelines s)"
    using inv by (simp_all add: pool_inv_def)
  have np: "i < length (pipelines s)" using i arg_cong [OF th, of length] by simp
  have r: "fst (threads P ! i) = pipelines s ! i"
    using arg_cong [OF th, of "\<lambda>xs. xs ! i"] i by simp
  have live: "pipes_live (srv P)" using same_handles_live [OF sh] s by (simp add: start_ok_def)
  have pl: "pipelines (srv P) = pipelines s" using sh by (simp add: same_handles_def)
  then obtain p where p: "pheap (srv P) (pipelines s ! i) = Some p"
    using live np by (metis domD nth_mem pipes_live_def subsetD)
  have ok': "source_ok fa (srv P) rd" using ok pl by (simp add: source_ok_def count_defs)
  note part = thread_part_inv [OF inv s i]
  show ?thesis
  proof (cases "snd (threads P ! i)")
    case RBegin
    obtain st t where t: "runner_begin (pipelines s ! i) cap (srv P) = Inr (st, t)"
      and q: "pipe_part (pipelines s ! i) (\<lambda>h. [PipeInit h]) (srv P) t"
      using runner_begin_part [OF p, of cap] by blast
    have "P' = set_thread i (RLoop st) (P\<lparr>srv := t\<rparr>)" using step i RBegin r t by (simp add: thread_step_def Let_def)
    moreover have "pool_inv s (set_thread i (RLoop st) (P\<lparr>srv := t\<rparr>))"
      by (rule part [OF RBegin _ q]) (auto intro: exI [of _ 0])
    ultimately show ?thesis using q np by (auto simp: count_defs)
  next
    case (RLoop st)
    show ?thesis
    proof (cases "isRunning (srv P)")
      case True
      obtain st' t where t: "runner_iter L fa (pipelines s ! i) rd (st, srv P) = Inr (st', t)"
        and q: "pipe_part (pipelines s ! i) (\<lambda>h. frame_of h rd) (srv P) t"
        using runner_iter_part [OF live p ok', of L st] by blast
      have "P' = set_thread i (RLoop st') (P\<lparr>srv := t\<rparr>)" using step i RLoop r t True by (simp add: thread_step_def Let_def)
      moreover have "\<exists>m. session h n (RLoop st) @ frame_of h rd = session h m (RLoop st')" for h n
        by (rule exI [of _ "if r_enable rd \<and> r_grab rd then Suc n else n"])
          (simp add: frame_of_def concat_replicate_snoc)
      then have "pool_inv s (set_thread i (RLoop st') (P\<lparr>srv := t\<rparr>))"
        by (intro part [OF RLoop _ q]) auto
      ultimately show ?thesis using q np by (auto simp: count_defs)
    next
      case False
      obtain t where t: "runner_end (pipelines s ! i) (srv P) = Inr t"
        and q: "pipe_part (pipelines s ! i) (\<lambda>h. [PipeClose h]) (srv P) t"
        using runner_end_part [OF p] by blast
      have "P' = set_thread i REnd (P\<lparr>srv := t\<rparr>)" using step i RLoop r t False by (simp add: thread_step_def Let_def go_on_def)
      moreover have "pool_inv s (set_thread i REnd (P\<lparr>srv := t\<rparr>))"
        by (rule part [OF RLoop _ q]) auto
      ultimately show ?thesis using q np by (auto simp: count_defs)
    qed
  next
    case REnd
    then show ?thesis using step i by (simp add: thread_step_def Let_def)
  qed
qed

subsection \<open>What the streams show\<close>

text \<open>The specification: each stream has an index and the source it shows. A round gives it the index that is read;
  if that is a new one, the stream shows the source the index names, or what it showed before if it names none.\<close>

definition next_view :: "(int \<Rightarrow> handle option) \<Rightarrow> int \<Rightarrow> int \<times> handle option \<Rightarrow> int \<times> handle option" where
  "next_view src n v = (if n = fst v then v else (n, case src n of Some g \<Rightarrow> Some g | None \<Rightarrow> snd v))"

definition view_round :: "(int \<Rightarrow> handle option) \<Rightarrow> reading \<Rightarrow> (int \<times> handle option) list \<Rightarrow> (int \<times> handle option) list" where
  "view_round src rd vs = map (\<lambda>(j, v). next_view src (fcvtzs32 (r_streams rd j)) v) (enumerate 0 vs)"

definition stream_view :: "server \<Rightarrow> OutputStream \<Rightarrow> int \<times> handle option" where
  "stream_view s st = (local_idx st, shown (slog s) (shandle st))"

definition view_of :: "server \<Rightarrow> (int \<times> handle option) list" where
  "view_of s = map (stream_view s) (streams s)"

definition view_inv :: "server \<Rightarrow> reading \<Rightarrow> nat \<Rightarrow> server \<Rightarrow> bool" where
  "view_inv t rd j u \<longleftrightarrow> same_handles t u \<and> is_running u = is_running t \<and> (\<exists>cs. slog u = slog t @ cs \<and> frame_calls cs = [])
     \<and> (\<forall>m < length (streams t). stream_view u (streams u ! m) =
          (if m < j then next_view (source_of t) (fcvtzs32 (r_streams rd m)) (stream_view t (streams t ! m)) else stream_view t (streams t ! m)))"

lemma view_of_other:
  assumes "streams u = streams t" "slog u = slog t @ cs" "sinks cs \<inter> shandle ` set (streams t) = {}"
  shows "view_of u = view_of t"
  unfolding view_of_def assms(1)
proof (rule map_cong [OF refl])
  fix st assume "st \<in> set (streams t)"
  then have "shandle st \<notin> sinks cs" using assms(3) by blast
  then show "stream_view u st = stream_view t st" by (simp add: stream_view_def assms(2))
qed

lemma view_inv_step:
  assumes "pipes_live t" "small t" "distinct (map shandle (streams t))" and j: "j < length (streams t)" and inv: "view_inv t rd j u"
  shows "\<exists>u'. syncIdx j (r_streams rd j) u = Inr u' \<and> view_inv t rd (Suc j) u'"
proof -
  let ?n = "fcvtzs32 (r_streams rd j)" and ?st = "streams u ! j"
  have sh: "same_handles t u" using inv by (simp add: view_inv_def)
  then have l: "length (streams u) = length (streams t)" by (metis length_map same_handles_def)
  have hd: "shandle (streams u ! m) = shandle (streams t ! m)" if "m < length (streams t)" for m
  proof -
    have "map shandle (streams u) ! m = map shandle (streams t) ! m" using sh by (simp add: same_handles_def)
    then show ?thesis using that l by simp
  qed
  have e: "syncIdx j (r_streams rd j) u = Inr (if local_idx ?st = ?n then u else emit (select_calls u j ?n) (set_local_idx j ?n u))"
    using syncIdx_eq same_handles_live [OF sh assms(1)] same_handles_small [OF sh] assms(2) j l by simp
  have vj: "stream_view u ?st = stream_view t (streams t ! j)" using inv j by (simp add: view_inv_def)
  show ?thesis
  proof (cases "local_idx ?st = ?n")
    case True
    then have "?n = fst (stream_view t (streams t ! j))" using vj by (simp add: stream_view_def)
    then have "next_view (source_of t) ?n (stream_view t (streams t ! j)) = stream_view t (streams t ! j)" by (simp add: next_view_def)
    then have "view_inv t rd (Suc j) u" using inv unfolding view_inv_def by (simp add: less_Suc_eq)
    then show ?thesis using e True by simp
  next
    case False
    let ?u = "emit (select_calls u j ?n) (set_local_idx j ?n u)"
    have src: "source_of u = source_of t" using sh by (rule same_handles_source)
    have frame: "frame_calls (select_calls u j ?n) = []" by (simp add: select_calls_def split: option.splits)
    have "map shandle (streams ?u) = map shandle (streams u)"
      by (rule nth_equalityI) (use j l in \<open>auto simp: nth_list_update\<close>)
    then have h: "same_handles t ?u" using sh by (simp add: same_handles_def)
    have v: "stream_view ?u (streams ?u ! m) =
        (if m < Suc j then next_view (source_of t) (fcvtzs32 (r_streams rd m)) (stream_view t (streams t ! m)) else stream_view t (streams t ! m))"
      if m: "m < length (streams t)" for m
    proof (cases "m = j")
      case True
      have "shown (slog ?u) (shandle ?st) = (case source_of t ?n of Some g \<Rightarrow> Some g | None \<Rightarrow> shown (slog u) (shandle ?st))"
        by (simp add: select_calls_def src shown_append split: option.splits)
      moreover have "?n \<noteq> fst (stream_view t (streams t ! j))" using False vj by (simp add: stream_view_def)
      ultimately show ?thesis using True j l vj
        by (cases "source_of t ?n") (simp_all add: stream_view_def next_view_def)
    next
      case False
      have "shandle (streams t ! m) \<noteq> shandle (streams t ! j)"
        using False m j assms(3) by (simp add: distinct_conv_nth)
      then have "shandle (streams u ! m) \<notin> sinks (select_calls u j ?n)"
        using hd [OF m] hd [OF j] by (simp add: select_calls_def split: option.splits)
      then have "stream_view ?u (streams ?u ! m) = stream_view u (streams u ! m)" using False j l by (simp add: stream_view_def)
      then show ?thesis using inv m False by (simp add: view_inv_def less_Suc_eq)
    qed
    have "\<exists>cs. slog ?u = slog t @ cs \<and> frame_calls cs = []" "is_running ?u = is_running t"
      using inv frame by (auto simp: view_inv_def)
    then show ?thesis using e False h v by (simp add: view_inv_def)
  qed
qed

lemma run_round_view:
  assumes "pipes_live t" "small t" "distinct (map shandle (streams t))"
  shows "\<exists>u. run_round cap rd t = Inr u \<and> same_handles t u \<and> is_running u = is_running t
    \<and> (\<exists>cs. slog u = slog t @ cs \<and> frame_calls cs = []) \<and> view_of u = view_round (source_of t) rd (view_of t)"
proof -
  have "view_inv t rd 0 t" by (simp add: view_inv_def)
  then have "\<exists>v. sync_all rd t = Inr v \<and> view_inv t rd (length (streams t)) v"
    unfolding sync_all_def by (rule rfold_upt) (rule view_inv_step [OF assms])
  then obtain v where v: "sync_all rd t = Inr v" "view_inv t rd (length (streams t)) v" by blast
  have l: "length (streams v) = length (streams t)" using v(2) by (metis length_map same_handles_def view_inv_def)
  let ?u = "emit (NtFlush # pause cap (t_sleep rd - t_beg_frame rd)) v"
  have "stream_view ?u st = stream_view v st" for st by (simp add: stream_view_def)
  then have "view_of ?u = view_round (source_of t) rd (view_of t)"
    using v(2) l by (intro nth_equalityI) (simp_all add: view_of_def view_round_def view_inv_def nth_enumerate_eq)
  moreover have "run_round cap rd t = Inr ?u" using v(1) by (simp add: run_round_def)
  ultimately show ?thesis using v(2) by (auto simp: view_inv_def)
qed

text \<open>The streams after \<^verbatim>\<open>run\<close> taken for itself, without the threads it starts.\<close>

lemma rounds_view:
  assumes "pipes_live t" "small t" "distinct (map shandle (streams t))"
  shows "\<exists>u. rfold (run_round cap) rds t = Inr u \<and> view_of u = fold (view_round (source_of t)) rds (view_of t)"
  using assms
proof (induction rds arbitrary: t)
  case (Cons rd rds)
  obtain u where u: "run_round cap rd t = Inr u" "same_handles t u" "view_of u = view_round (source_of t) rd (view_of t)"
    using run_round_view [OF Cons.prems] by blast
  have "pipes_live u" "small u" "distinct (map shandle (streams u))"
    using same_handles_live [OF u(2)] same_handles_small [OF u(2)] u(2) Cons.prems by (simp_all add: same_handles_def)
  from Cons.IH [OF this] show ?case using u(1,3) same_handles_source [OF u(2)] by (auto simp del: rbind_eq_Inr)
qed simp

lemma run_view:
  assumes "start_ok s"
  shows "\<exists>s'. run cap rds s = Inr (True, s') \<and> view_of s' = fold (view_round (source_of s)) rds (view_of s)"
proof -
  let ?t = "emit (put_status ''Running Multithreaded'' # map ThreadStart (pipelines s)) (s\<lparr>is_running := True\<rparr>)"
  have sh: "same_handles s ?t" by simp
  have "view_of ?t = view_of s"
    by (rule view_of_other [where cs = "put_status ''Running Multithreaded'' # map ThreadStart (pipelines s)"])
      (auto simp: sinks_def put_status_def)
  moreover have "pipes_live ?t" "small ?t" "distinct (map shandle (streams ?t))"
    using same_handles_live [OF sh] same_handles_small [OF sh] assms by (simp_all add: start_ok_def)
  then obtain u where "rfold (run_round cap) rds ?t = Inr u" "view_of u = fold (view_round (source_of ?t)) rds (view_of ?t)"
    using rounds_view by blast
  moreover have "view_of (emit (map ThreadJoin (pipelines u) @ [put_status ''Offline'']) (u\<lparr>is_running := False\<rparr>)) = view_of u"
    by (rule view_of_other [where cs = "map ThreadJoin (pipelines u) @ [put_status ''Offline'']"]) (auto simp: sinks_def put_status_def)
  ultimately show ?thesis using assms same_handles_source [OF sh] by (simp add: run_def start_ok_def del: rbind_eq_Inr)
qed

subsection \<open>The main thread\<close>

lemma sessions_ok_quiet:
  assumes "sessions_ok s P" "slog (srv P') = slog (srv P) @ cs" "frame_calls cs = []" "\<And>i. pc_of P' i = pc_of P i"
  shows "sessions_ok s P'"
  using assms calls_of_none [OF assms(3)] by (simp add: sessions_ok_def)

text \<open>A step of the main thread that changes the server only by calls that are no frame calls.\<close>

lemma main_quiet_inv:
  assumes "pool_inv s P" "slog (srv P') = slog (srv P) @ cs" "frame_calls cs = []" "sinks cs = {}" "streams (srv P') = streams (srv P)"
    and "same_handles s (srv P')" "crash P' = None" "main_ok s P'"
    and "threads P' = threads P \<or> (length (threads P) < length (pipelines s) \<and> threads P' = threads P @ [(pipelines s ! length (threads P), RBegin)])"
  shows "pool_inv s P' \<and> view_of (srv P') = view_of (srv P)"
proof -
  have "pc_of P' i = pc_of P i" for i
    using assms(9) by (auto simp: pc_of_def nth_append)
  then have "sessions_ok s P'" using sessions_ok_quiet [OF _ assms(2,3)] assms(1) by (simp add: pool_inv_def)
  moreover have "map fst (threads P') = take (length (threads P')) (pipelines s)"
    using assms(1,9) by (auto simp: pool_inv_def take_Suc_conv_app_nth)
  ultimately show ?thesis using assms(6-8) view_of_other [OF assms(5,2)] assms(4) by (simp add: pool_inv_def)
qed

lemma main_step_inv:
  assumes inv: "pool_inv s P" and s: "start_ok s" and step: "main_step cap rd P = Some P'"
  shows "pool_inv s P' \<and> view_of (srv P') = fold (view_round (source_of s)) (round_of (Main rd) P) (view_of (srv P))"
proof -
  have sh: "same_handles s (srv P)" and c: "crash P = None" and m: "main_ok s P" using inv by (simp_all add: pool_inv_def)
  have pl: "pipelines (srv P) = pipelines s" using sh by (simp add: same_handles_def)
  have np: "numPipelines (srv P) = numPipelines s" "0 < numPipelines s" using pl s by (simp_all add: count_defs start_ok_def)
  note quiet = main_quiet_inv [OF inv, of P']
  show ?thesis
  proof (cases "mpc P")
    case MEnter
    then have "P' = P\<lparr>srv := emit [put_status ''Running Multithreaded''] ((srv P)\<lparr>is_running := True\<rparr>), mpc := MSpawn 0\<rparr>"
      using step m np by (simp add: main_step_def Let_def main_ok_def)
    then show ?thesis using quiet [of "[put_status ''Running Multithreaded'']"] MEnter sh c m
      by (simp add: main_ok_def put_status_def round_of_def)
  next
    case (MSpawn i)
    then have l: "length (threads P) = i" "i \<le> numPipelines s" using m by (simp_all add: main_ok_def)
    show ?thesis
    proof (cases "i < numPipelines s")
      case True
      then have "P' = P\<lparr>srv := emit [ThreadStart (pipelines s ! i)] (srv P), threads := threads P @ [(pipelines s ! i, RBegin)], mpc := MSpawn (i + 1)\<rparr>"
        using step MSpawn np pl by (simp add: main_step_def Let_def)
      then show ?thesis using quiet [of "[ThreadStart (pipelines s ! i)]"] MSpawn sh c l True
        by (simp add: main_ok_def round_of_def count_defs)
    next
      case False
      then have "P' = P\<lparr>mpc := MLoop\<rparr>" using step MSpawn np by (simp add: main_step_def Let_def)
      then show ?thesis using quiet [of "[]"] MSpawn sh c l False by (simp add: main_ok_def round_of_def)
    qed
  next
    case MLoop
    show ?thesis
    proof (cases "isRunning (srv P)")
      case True
      have live: "pipes_live (srv P)" "small (srv P)" using s sh same_handles_live same_handles_small by (auto simp: start_ok_def)
      have "distinct (map shandle (streams (srv P)))" using s sh by (simp add: start_ok_def same_handles_def)
      then obtain u cs where u: "run_round cap rd (srv P) = Inr u" "same_handles (srv P) u" "is_running u = is_running (srv P)"
        "slog u = slog (srv P) @ cs" "frame_calls cs = []" "view_of u = view_round (source_of (srv P)) rd (view_of (srv P))"
        using run_round_view [OF live] by blast
      have P': "P' = P\<lparr>srv := u\<rparr>" using step MLoop True u(1) by (simp add: main_step_def Let_def go_on_def)
      have "sessions_ok s P'" using inv u(4,5) P' by (auto simp: pool_inv_def pc_of_def intro: sessions_ok_quiet)
      then have "pool_inv s P'"
        using inv P' u(2) same_handles_trans [OF sh u(2)] MLoop by (simp add: pool_inv_def main_ok_def)
      then show ?thesis using P' u(6) MLoop True same_handles_source [OF sh] by (simp add: round_of_def)
    next
      case False
      then have "P' = P\<lparr>mpc := MJoin 0\<rparr>" using step MLoop by (simp add: main_step_def Let_def)
      then show ?thesis using quiet [of "[]"] MLoop sh c m False by (simp add: main_ok_def round_of_def)
    qed
  next
    case (MJoin i)
    then have l: "length (threads P) = numPipelines s" "\<not> isRunning (srv P)" "\<forall>j < i. pc_of P j = REnd \<or> j \<ge> numPipelines s"
      using m by (simp_all add: main_ok_def)
    show ?thesis
    proof (cases "i < length (threads P)")
      case True
      then have e: "snd (threads P ! i) = REnd" and P': "P' = P\<lparr>srv := emit [ThreadJoin (fst (threads P ! i))] (srv P), mpc := MJoin (i + 1)\<rparr>"
        using step MJoin by (auto simp: main_step_def Let_def split: if_splits)
      have "\<forall>j < Suc i. pc_of P' j = REnd \<or> j \<ge> numPipelines s"
        using l(3) e True P' by (auto simp: less_Suc_eq pc_of_def)
      then show ?thesis using quiet [of "[ThreadJoin (fst (threads P ! i))]"] MJoin sh c l P'
        by (simp add: main_ok_def round_of_def isRunning_def)
    next
      case False
      then have P': "P' = P\<lparr>srv := emit [put_status ''Offline''] (srv P), mpc := MDone True\<rparr>"
        using step MJoin by (simp add: main_step_def Let_def)
      have "\<forall>j < numPipelines s. pc_of P' j = REnd" using l False P'
        by (auto simp: pc_of_def) (metis less_le_trans not_le)
      then show ?thesis using quiet [of "[put_status ''Offline'']"] MJoin sh c l P'
        by (simp add: main_ok_def round_of_def isRunning_def put_status_def)
    qed
  next
    case (MDone b)
    then show ?thesis using step by (simp add: main_step_def Let_def)
  qed
qed

lemma stop_inv:
  assumes "pool_inv s P" shows "pool_inv s (clear_flag P) \<and> view_of (srv (clear_flag P)) = view_of (srv P)"
proof -
  have "pc_of (clear_flag P) i = pc_of P i" for i by (simp add: pc_of_def clear_flag_def)
  moreover have "view_of (srv (clear_flag P)) = view_of (srv P)" by (rule view_of_other [where cs = "[]"]) (simp_all add: clear_flag_def)
  ultimately show ?thesis using assms
    by (auto simp: pool_inv_def clear_flag_def main_ok_def sessions_ok_def isRunning_def split: main_pc.splits)
qed

text \<open>The threads of the pool follow the specification of the streams.\<close>

definition follows :: "server \<Rightarrow> pool \<Rightarrow> (int \<times> handle option) list \<Rightarrow> bool" where
  "follows s P vs \<longleftrightarrow> start_ok s \<and> pool_inv s P \<and> view_of (srv P) = vs"

lemma thread_view:
  assumes "start_ok s" "same_handles s (srv P)" "pipe_part (pipelines s ! i) fs (srv P) t" "i < numPipelines s"
  shows "view_of t = view_of (srv P)"
proof -
  obtain cs where cs: "slog t = slog (srv P) @ cs" "sinks cs \<subseteq> {pinput (the (pheap s (pipelines s ! i)))}"
    using pipe_part_log(1) [OF assms(3,2)] by blast
  have "shandle ` set (streams (srv P)) = shandle ` set (streams s)"
    using assms(2) unfolding same_handles_def by (metis list.set_map)
  moreover have "pipelines s ! i \<in> set (pipelines s)" using assms(4) by (simp add: count_defs)
  ultimately have "pinput (the (pheap s (pipelines s ! i))) \<notin> shandle ` set (streams (srv P))"
    using assms(1) unfolding start_ok_def by metis
  moreover have "sinks cs \<inter> A = {}" if "x \<notin> A" "sinks cs \<subseteq> {x}" for x A using that by blast
  ultimately have "sinks cs \<inter> shandle ` set (streams (srv P)) = {}" using cs(2) by metis
  then show ?thesis using view_of_other cs(1) pipe_part_log(3) [OF assms(3,2)] by blast
qed

interpretation pool_sim: label_simulation "act L fa cap" round_of "view_round (source_of s)" "follows s" "action_ok fa s"
proof
  fix P vs a P'
  assume f: "follows s P vs" and ok: "action_ok fa s a" and step: "act L fa cap a P = Some P'"
  then have s: "start_ok s" and inv: "pool_inv s P" and v: "view_of (srv P) = vs" and c: "crash P = None"
    by (simp_all add: follows_def pool_inv_def)
  show "follows s P' (fold (view_round (source_of s)) (round_of a P) vs)"
  proof (cases a)
    case (Main rd)
    then have "main_step cap rd P = Some P'" using step c by (simp add: act_def)
    from main_step_inv [OF inv s this] show ?thesis using v s Main by (simp add: follows_def)
  next
    case (Thread i rd)
    then have t: "thread_step L fa cap i rd P = Some P'" "source_ok fa s rd" using step c ok by (simp_all add: act_def action_ok_def)
    obtain fs where "pool_inv s P'" "pipe_part (pipelines s ! i) fs (srv P) (srv P')" "i < numPipelines s"
      using thread_step_inv [OF inv s t(2,1)] by blast
    then show ?thesis using thread_view [OF s] inv v s Thread by (auto simp: follows_def pool_inv_def round_of_def)
  next
    case Stop
    then have "P' = clear_flag P" using step c by (simp add: act_def)
    then show ?thesis using stop_inv [OF inv] v s Stop by (simp add: follows_def round_of_def)
  qed
qed

subsection \<open>The end of the threads\<close>

text \<open>The steps that are left once the flag is cleared, for \<open>n\<close> pipelines.\<close>

fun thread_work :: "runner_pc \<Rightarrow> nat" where
  "thread_work RBegin = 2" | "thread_work (RLoop st) = 1" | "thread_work REnd = 0"

fun main_work :: "nat \<Rightarrow> main_pc \<Rightarrow> nat" where
  "main_work n MEnter = 2 * n + 4" | "main_work n (MSpawn i) = (n - i) + n + 3" | "main_work n MLoop = n + 2"
| "main_work n (MJoin i) = (n - i) + 1" | "main_work n (MDone b) = 0"

definition pool_work :: "nat \<Rightarrow> pool \<Rightarrow> nat" where
  "pool_work n P = (\<Sum>i < n. thread_work (pc_of P i)) + main_work n (mpc P)"

definition own_act :: "cs_lib \<Rightarrow> int \<Rightarrow> dbl \<Rightarrow> action \<Rightarrow> pool \<Rightarrow> pool option" where
  "own_act L fa cap a P = (if a = Stop then None else act L fa cap a P)"

definition ending :: "server \<Rightarrow> pool \<Rightarrow> bool" where
  "ending s P \<longleftrightarrow> start_ok s \<and> pool_inv s P \<and> \<not> isRunning (srv P) \<and> mpc P \<noteq> MEnter"

lemma pool_work_thread:
  assumes "i < n" "i < length (threads P)" "thread_work pc < thread_work (pc_of P i)"
  shows "pool_work n (set_thread i pc (P\<lparr>srv := u\<rparr>)) < pool_work n P"
proof -
  have pcs: "pc_of (set_thread i pc (P\<lparr>srv := u\<rparr>)) j = (if j = i then pc else pc_of P j)" for j
    using pc_of_set_thread [of i "P\<lparr>srv := u\<rparr>"] assms(2) by (simp add: pc_of_def)
  have "(\<Sum>j < n. thread_work (pc_of (set_thread i pc (P\<lparr>srv := u\<rparr>)) j)) < (\<Sum>j < n. thread_work (pc_of P j))"
    by (rule sum_strict_mono_ex1) (use assms in \<open>auto simp: pcs\<close>)
  then show ?thesis by (simp add: pool_work_def)
qed

lemma pool_work_main:
  assumes "\<And>i. pc_of P' i = pc_of P i" "main_work n (mpc P') < main_work n (mpc P)"
  shows "pool_work n P' < pool_work n P"
  using assms by (simp add: pool_work_def)

text \<open>Without the flag a thread does not look at the source it reads.\<close>

lemma thread_step_stopped:
  assumes "\<not> isRunning (srv P)" shows "thread_step L fa cap i rd P = thread_step L fa cap i rd' P"
  using assms by (simp add: thread_step_def Let_def split: runner_pc.splits)

lemma ending_thread:
  assumes e: "ending s P" and step: "thread_step L fa cap i rd P = Some P'"
  shows "ending s P' \<and> pool_work (numPipelines s) P' < pool_work (numPipelines s) P"
proof -
  have s: "start_ok s" and inv: "pool_inv s P" and r: "\<not> isRunning (srv P)" and m: "mpc P \<noteq> MEnter" using e by (simp_all add: ending_def)
  have "source_ok fa s (rd\<lparr>r_source := Fin 1\<rparr>)" by (simp add: source_ok_def rat_trunc_def sat_def)
  moreover have st: "thread_step L fa cap i (rd\<lparr>r_source := Fin 1\<rparr>) P = Some P'" using thread_step_stopped [OF r] step by metis
  ultimately obtain fs where i: "pool_inv s P'" "pipe_part (pipelines s ! i) fs (srv P) (srv P')" "i < numPipelines s"
    using thread_step_inv [OF inv s] by blast
  have sh: "same_handles s (srv P)" and c': "crash P' = None" using inv i(1) by (simp_all add: pool_inv_def)
  have il: "i < length (threads P)" using step by (simp add: thread_step_def Let_def split: if_splits)
  obtain pc u where P': "P' = set_thread i pc (P\<lparr>srv := u\<rparr>)" and w: "thread_work pc < thread_work (pc_of P i)"
    using step il c' r
    by (auto simp: thread_step_def Let_def go_on_def pc_of_def split: runner_pc.splits sum.splits prod.splits)
  have "\<not> isRunning (srv P')" using pipe_part_log(2) [OF i(2) sh] r by (simp add: isRunning_def)
  then show ?thesis using s i(1,3) m P' pool_work_thread [OF i(3) il w] by (simp add: ending_def)
qed

lemma ending_main:
  assumes e: "ending s P" and step: "main_step cap rd P = Some P'"
  shows "ending s P' \<and> pool_work (numPipelines s) P' < pool_work (numPipelines s) P"
proof -
  have s: "start_ok s" and inv: "pool_inv s P" and r: "\<not> isRunning (srv P)" and m: "mpc P \<noteq> MEnter" using e by (simp_all add: ending_def)
  have sh: "same_handles s (srv P)" and k: "main_ok s P" using inv by (simp_all add: pool_inv_def)
  have np: "numPipelines (srv P) = numPipelines s" using sh by (simp add: same_handles_def count_defs)
  have "\<not> isRunning (srv P') \<and> mpc P' \<noteq> MEnter \<and> main_work (numPipelines s) (mpc P') < main_work (numPipelines s) (mpc P)
      \<and> (\<forall>i. pc_of P' i = pc_of P i)"
    using step r m np k
    by (auto simp: main_step_def Let_def main_ok_def isRunning_def pc_of_def nth_append split: main_pc.splits if_splits)
  then show ?thesis using main_step_inv [OF inv s step] s pool_work_main [of P' P] by (auto simp: ending_def)
qed

interpretation pool_end: bounded_moves "own_act L fa cap" "ending s" "pool_work (numPipelines s)"
proof
  fix P a P'
  assume e: "ending s P" and step: "own_act L fa cap a P = Some P'"
  have "crash P = None" using e by (simp add: ending_def pool_inv_def)
  then have "ending s P' \<and> pool_work (numPipelines s) P' < pool_work (numPipelines s) P"
    using step ending_main [OF e] ending_thread [OF e]
    by (cases a) (auto simp: own_act_def act_def)
  then show "ending s P'" "pool_work (numPipelines s) P' < pool_work (numPipelines s) P" by simp_all
qed

lemma ending_progress:
  assumes "ending s P" "mpc P \<noteq> MDone True" shows "\<exists>a. own_act L fa cap a P \<noteq> None"
proof -
  have c: "crash P = None" and m: "main_ok s P" and r: "\<not> isRunning (srv P)" "mpc P \<noteq> MEnter"
    using assms(1) by (simp_all add: ending_def pool_inv_def)
  have main: "\<exists>a. own_act L fa cap a P \<noteq> None" if "main_step cap rd P \<noteq> None" for rd
    using that c by (intro exI [of _ "Main rd"]) (simp add: own_act_def act_def)
  show ?thesis
  proof (cases "mpc P")
    case (MJoin i)
    show ?thesis
    proof (cases "i < length (threads P) \<and> snd (threads P ! i) \<noteq> REnd")
      case True
      then have "thread_step L fa cap i rd P \<noteq> None" for rd
        by (auto simp: thread_step_def Let_def split: runner_pc.splits)
      then show ?thesis using c by (intro exI [of _ "Thread i undefined"]) (simp add: own_act_def act_def)
    next
      case False
      then show ?thesis using MJoin by (intro main [of undefined]) (auto simp: main_step_def Let_def)
    qed
  next
    case (MDone b)
    then show ?thesis using m assms(2) by (simp add: main_ok_def)
  qed (use r main [of undefined] in \<open>simp_all add: main_step_def Let_def\<close>)
qed

lemma pool_work_bound: "main_ok s P \<Longrightarrow> mpc P \<noteq> MEnter \<Longrightarrow> pool_work (numPipelines s) P \<le> 4 * numPipelines s + 3"
proof -
  assume m: "main_ok s P" "mpc P \<noteq> MEnter"
  have w: "thread_work pc \<le> 2" for pc by (cases pc) simp_all
  have "(\<Sum>i < numPipelines s. thread_work (pc_of P i)) \<le> 2 * numPipelines s"
    using sum_bounded_above [of "{..<numPipelines s}" "\<lambda>i. thread_work (pc_of P i)" 2] w by simp
  moreover have "main_work (numPipelines s) (mpc P) \<le> 2 * numPipelines s + 3" using m(2) by (cases "mpc P") simp_all
  ultimately show ?thesis by (simp add: pool_work_def)
qed

subsection \<open>Every schedule\<close>

lemma schedule_follows:
  assumes "start_ok s" "\<forall>a \<in> set as. action_ok fa s a" "schedule L fa cap as (pool0 s) = Some P"
  shows "follows s P (fold (view_round (source_of s)) (rounds L fa cap as (pool0 s)) (view_of s))"
proof -
  have "follows s (pool0 s) (view_of s)" using assms(1) pool_inv_init by (simp add: follows_def pool0_def)
  from pool_sim.simulates_runs [OF this assms(2)] assms(3) show ?thesis by (simp add: schedule_def rounds_def)
qed

text \<open>C9: The streams follow their specification in every schedule of the threads of \<^verbatim>\<open>run\<close>: at every moment, what the
  streams show and their indices are those that the rounds of the main loop made so far give, each from the
  indices it read, whatever the threads of the pipelines have done in the meantime; and so are the
  same as after \<^verbatim>\<open>run\<close> taken for itself, with the same rounds and without the threads. The handles are taken
  to be different, and no source index to be below those of the pipelines and still accepted.\<close>

theorem interleaving_refines_streams:
  assumes "start_ok s" "\<forall>a \<in> set as. action_ok fa s a" "schedule L fa cap as (pool0 s) = Some P"
  shows "view_of (srv P) = fold (view_round (source_of s)) (rounds L fa cap as (pool0 s)) (view_of s)
    \<and> (\<exists>s'. run cap (rounds L fa cap as (pool0 s)) s = Inr (True, s') \<and> view_of s' = view_of (srv P))"
  using schedule_follows [OF assms] run_view [OF assms(1)] by (simp add: follows_def)



text \<open>C18: The registry is not protected while the threads end. When the flag is cleared, the operations on the
  registry are accepted again although the threads have not been joined; \<^verbatim>\<open>setPipelines\<close> destroys the pipelines the
  server owns, and the next step of such a pipeline's thread uses the destroyed object.\<close>

theorem registry_open_before_join:
  assumes "crash P = None" "i < length (threads P)" "threads P ! i = (r, RLoop st)" "r \<in> set (heap_allocated (srv P))"
  shows "fst (setPipelines ps (srv (clear_flag P)))
    \<and> (\<exists>Q. act L fa cap (Thread i rd) ((clear_flag P)\<lparr>srv := snd (setPipelines ps (srv (clear_flag P)))\<rparr>) = Some Q \<and> crash Q = Some UB)"
  using assms by (simp add: clear_flag_def setPipelines_def isRunning_def act_def thread_step_def Let_def go_on_def
      runner_end_def deref_def)

subsection \<open>An example\<close>

text \<open>A server with one pipeline and two streams, and a schedule in which the pipeline processes a frame between
  two steps of the main loop, until the flag is cleared and all threads end.\<close>

definition demo_base :: server where
  "demo_base = \<lparr>cameras = [], storage = \<lparr>sbuf = 0, scap = 0, listening = []\<rparr>, pipelines = [0], heap_allocated = [0], pheap = [0 \<mapsto> demo_pipe],
     streams = [\<lparr>shandle = 31, stable = [], local_idx = 0\<rparr>, \<lparr>shandle = 32, stable = [], local_idx = 0\<rparr>], is_running = False, slog = []\<rparr>"

definition demo_indices :: reading where
  "demo_indices = demo_reading\<lparr>r_streams := (\<lambda>j. Fin 1)\<rparr>"

definition demo_acts :: "action list" where
  "demo_acts = [Main demo_indices, Main demo_indices, Thread 0 demo_indices, Main demo_indices, Main demo_indices, Thread 0 demo_indices, Stop]"

lemma demo_base_ok: "start_ok demo_base" "\<forall>a \<in> set demo_acts. action_ok 1 demo_base a"
  by (simp_all add: start_ok_def demo_base_def pipes_live_def small_def count_defs demo_pipe_def BasePipe_new_def hnd_def
      demo_acts_def action_ok_def source_ok_def demo_indices_def demo_reading_def rat_trunc_def sat_def)

lemma demo_schedule:
  "\<exists>P. schedule demo_lib 1 (Fin 30) demo_acts (pool0 demo_base) = Some P \<and> mpc P = MLoop \<and> \<not> isRunning (srv P)
     \<and> rounds demo_lib 1 (Fin 30) demo_acts (pool0 demo_base) = [demo_indices] \<and> pc_of P 0 \<noteq> RBegin"
proof -
  have f: "fcvtzs32 (r_streams demo_indices j) = 1" "fcvtzs32 (r_source demo_indices) = 1" for j
    by (simp_all add: demo_indices_def demo_reading_def rat_trunc_def sat_def)
  show ?thesis
    by (simp add: schedule_def rounds_def demo_acts_def act_def main_step_def thread_step_def Let_def pool0_def demo_base_def
        isRunning_def numPipelines_def numCameras_def go_on_def run_round_def sync_all_def syncIdx_def vec_idx_def select_source_def vec_at_def deref_def
        set_local_idx_def runner_begin_def runner_iter_def set_thread_def clear_flag_def f round_of_def pc_of_def c_int_def int32_def)
qed

theorem interleaving_refines_streams_witness:
  "\<exists>P. schedule demo_lib 1 (Fin 30) demo_acts (pool0 demo_base) = Some P \<and> view_of (srv P) = [(1, Some 21), (1, Some 21)]"
proof -
  obtain P where P: "schedule demo_lib 1 (Fin 30) demo_acts (pool0 demo_base) = Some P"
    "rounds demo_lib 1 (Fin 30) demo_acts (pool0 demo_base) = [demo_indices]" using demo_schedule by blast
  have "fcvtzs32 (r_streams demo_indices j) = 1" for j by (simp add: demo_indices_def demo_reading_def rat_trunc_def sat_def)
  then have "view_round (source_of demo_base) demo_indices (view_of demo_base) = [(1, Some 21), (1, Some 21)]"
    by (simp add: view_round_def view_of_def stream_view_def next_view_def demo_base_def source_of_def demo_pipe_def BasePipe_new_def)
  then show ?thesis using interleaving_refines_streams [OF demo_base_ok P(1)] P by simp
qed



theorem registry_open_before_join_witness:
  "\<exists>Q. act demo_lib 1 (Fin 30) (Thread 0 demo_indices)
      (\<lparr>srv = snd (setPipelines [] demo_base), mpc = MLoop, threads = [(0, RLoop \<lparr>ridx = 1, rtiming = timing0 (Fin 30)\<rparr>)], crash = None\<rparr>) = Some Q
    \<and> crash Q = Some UB"
  using registry_open_before_join [of "\<lparr>srv = demo_base, mpc = MLoop, threads = [(0, RLoop \<lparr>ridx = 1, rtiming = timing0 (Fin 30)\<rparr>)], crash = None\<rparr>"
      0 0 _ "[]" demo_lib 1 "Fin 30" demo_indices]
  by (simp add: demo_base_def clear_flag_def)

end
