(* ===== verification/Server_Storage.thy ===== *)
theory Server_Storage
  imports Server_Pool_Props
begin

text \<open>
  Pointers into the vector of cameras. A pipeline keeps pointers to the matrices of its camera
  (\<^verbatim>\<open>getSrcMatrix\<close>, \<^verbatim>\<open>getSrcDistort\<close>), and the listener of a camera keeps a pointer to the camera. Shown: which of them
  are valid in a reachable state, that they stay valid while the loops run, and that they dangle when cameras
  are added to a vector whose capacity is used up.
\<close>

subsection \<open>The pointers of the pipelines\<close>

definition all_ptrs :: "(mat_ptr \<Rightarrow> bool) \<Rightarrow> server \<Rightarrow> bool" where
  "all_ptrs Q s \<longleftrightarrow> (\<forall>r p. pheap s r = Some p \<longrightarrow> Q (src_matrix p) \<and> Q (src_distort p))"

text \<open>A pointer is valid if it points into the present storage; otherwise it points into an earlier one.\<close>

fun valid_ptr :: "server \<Rightarrow> mat_ptr \<Rightarrow> bool" where
  "valid_ptr s DefaultMat = True"
| "valid_ptr s (CameraMat (b, i)) = (b = sbuf (storage s) \<and> i < numCameras s)"

fun old_ptr :: "server \<Rightarrow> mat_ptr \<Rightarrow> bool" where
  "old_ptr s DefaultMat = True"
| "old_ptr s (CameraMat (b, i)) = (b < sbuf (storage s) \<or> b = sbuf (storage s) \<and> i < numCameras s)"

lemma all_ptrsD: "all_ptrs Q s \<Longrightarrow> pheap s r = Some p \<Longrightarrow> Q (src_matrix p) \<and> Q (src_distort p)"
  by (simp add: all_ptrs_def)

lemma all_ptrs_same: "pheap s' = pheap s \<Longrightarrow> all_ptrs Q s' = all_ptrs Q s"
  by (simp add: all_ptrs_def)

lemma all_ptrs_emit [simp]: "all_ptrs Q (emit cs s) = all_ptrs Q s"
  by (simp add: all_ptrs_def)

lemma all_ptrs_upd: "all_ptrs Q s \<Longrightarrow> Q (src_matrix p) \<Longrightarrow> Q (src_distort p) \<Longrightarrow> all_ptrs Q (s\<lparr>pheap := (pheap s)(r \<mapsto> p)\<rparr>)"
  by (simp add: all_ptrs_def)

lemma setCamera_ptrs:
  "setCamera L r i c s = Inr s' \<Longrightarrow> Q (CameraMat (sbuf (storage s), i)) \<Longrightarrow> all_ptrs Q s \<Longrightarrow> all_ptrs Q s'"
  by (auto simp: setCamera_def Let_def intro!: all_ptrs_upd)

lemma setPipeline_ptrs: "setPipeline r q s = Inr s' \<Longrightarrow> all_ptrs Q s \<Longrightarrow> all_ptrs Q s'"
  using all_ptrsD [of Q s q] by (auto simp: setPipeline_def intro!: all_ptrs_upd)

lemma setSource_ptrs: "setSource L r h s = Inr s' \<Longrightarrow> Q DefaultMat \<Longrightarrow> all_ptrs Q s \<Longrightarrow> all_ptrs Q s'"
  by (auto simp: setSource_def intro!: all_ptrs_upd)

text \<open>Selecting the source of a stream leaves the pipelines alone.\<close>

lemma setSourceIdx_heap: "setSourceIdx j i s = Inr s' \<Longrightarrow> pheap s' = pheap s"
  by (auto simp: setSourceIdx_def split: if_splits)

lemma syncIdx_heap: "syncIdx j d s = Inr s' \<Longrightarrow> pheap s' = pheap s"
  by (auto simp: syncIdx_def Let_def split: if_splits)

lemma rfold_heap: "rfold f xs s = Inr s' \<Longrightarrow> (\<And>x s s'. f x s = Inr s' \<Longrightarrow> pheap s' = pheap s) \<Longrightarrow> pheap s' = pheap s"
  by (erule rfold_preserves [where P = "\<lambda>t. pheap t = pheap s"]) auto

lemma compensate_ptrs:
  assumes "compensate L s = Inr (b, s')" "all_ptrs Q s" "\<forall>i < numCameras s. Q (CameraMat (sbuf (storage s), i))"
  shows "all_ptrs Q s'"
proof -
  define a where "a = (case find_connected L (cameras s) 0 of None \<Rightarrow> -1 | Some i \<Rightarrow> int16 (int i))"
  have 1: "all_ptrs Q s1" if "rfold (\<lambda>i s. rbind (vec_at (pipelines s) i) (\<lambda>r.
      rbind (at_int (cameras s) a) (\<lambda>c. setCamera L r (nat a) c s))) [0..<numPipelines s] s = Inr s1" for s1
  proof -
    have "repointed s s1 \<and> all_ptrs Q s1"
    proof (rule rfold_preserves [OF that, where P = "\<lambda>t. repointed s t \<and> all_ptrs Q t"])
      fix i t t' assume t: "repointed s t \<and> all_ptrs Q t"
        and "rbind (vec_at (pipelines t) i) (\<lambda>r. rbind (at_int (cameras t) a) (\<lambda>c. setCamera L r (nat a) c t)) = Inr t'"
      then obtain r c where c: "at_int (cameras t) a = Inr c" "setCamera L r (nat a) c t = Inr t'" by auto
      have "cameras t = cameras s" "storage t = storage s" using t by (simp_all add: repointed_def)
      then have "Q (CameraMat (sbuf (storage t), nat a))" using c(1) assms(3) by (simp add: at_int_def vec_at_def count_defs split: if_splits)
      then show "repointed s t' \<and> all_ptrs Q t'"
        using t setCamera_ptrs [OF c(2), of Q] repointed_trans [OF _ setCamera_repointed [OF c(2)]] by simp
    qed (use assms(2) in simp)
    then show ?thesis by simp
  qed
  have 2: "all_ptrs Q s2" if "rfold (\<lambda>j. setPipelineIdx j i) js s1 = Inr s2" "all_ptrs Q s1" for s1 s2 i js
    using rfold_heap [OF that(1)] setSourceIdx_heap that(2) all_ptrs_same by (metis setPipelineIdx_def)
  have 3: "all_ptrs Q s2" if "rfold (\<lambda>j. setCameraIdx j i) js s1 = Inr s2" "all_ptrs Q s1" for s1 s2 i js
    using rfold_heap [OF that(1)] setSourceIdx_heap that(2) all_ptrs_same by (metis setCameraIdx_def)
  show ?thesis using assms(1,2)
    by (auto simp: compensate_def Let_def a_def [symmetric] split: if_splits dest!: 1 elim: 2 3)
qed

subsection \<open>Reachable states\<close>

definition storage_ok :: "server \<Rightarrow> bool" where
  "storage_ok s \<longleftrightarrow> length (listening (storage s)) = numCameras s \<and> numCameras s \<le> scap (storage s)
     \<and> (\<forall>i < numCameras s. snd (listening (storage s) ! i) = i \<and> fst (listening (storage s) ! i) \<le> sbuf (storage s)) \<and> all_ptrs (old_ptr s) s"

lemma old_ptr_grows:
  "sbuf (storage s) < sbuf (storage s') \<or> sbuf (storage s') = sbuf (storage s) \<and> numCameras s \<le> numCameras s' \<Longrightarrow> old_ptr s m \<Longrightarrow> old_ptr s' m"
  by (cases "(s, m)" rule: old_ptr.cases) auto

lemma all_ptrs_mono: "all_ptrs Q s \<Longrightarrow> (\<And>m. Q m \<Longrightarrow> Q' m) \<Longrightarrow> all_ptrs Q' s"
  by (simp add: all_ptrs_def)

lemma all_ptrs_le: "all_ptrs Q s \<Longrightarrow> pheap t \<subseteq>\<^sub>m pheap s \<Longrightarrow> all_ptrs Q t"
  unfolding all_ptrs_def map_le_def by (metis domI)

text \<open>Operations on the registry that leave the cameras alone.\<close>

lemma storage_ok_frame:
  assumes "storage_ok s" "cameras s' = cameras s" "storage s' = storage s" "all_ptrs (old_ptr s) s'"
  shows "storage_ok s'"
proof -
  have "old_ptr s' = old_ptr s"
  proof
    fix m show "old_ptr s' m = old_ptr s m" by (cases "(s, m)" rule: old_ptr.cases) (simp_all add: assms count_defs)
  qed
  then show ?thesis using assms by (simp add: storage_ok_def count_defs)
qed

lemma make_room_simps [simp]: "listening (make_room n c m) = listening m" "need \<le> c \<Longrightarrow> need \<le> scap (make_room need c m)"
  "sbuf m \<le> sbuf (make_room n c m)"
  by (simp_all add: make_room_def)

lemma storage_ok_grow:
  assumes "storage_ok s" "pheap s' = pheap s" "cameras s' = cameras s @ cms" "numCameras s + length cms \<le> cap"
    and "storage s' = listen (numCameras s) (length cms) (make_room (numCameras s + length cms) cap (storage s))"
  shows "storage_ok s'"
proof -
  have n: "numCameras s' = numCameras s + length cms" using assms(3) by (simp add: count_defs)
  have b: "sbuf (storage s) < sbuf (storage s') \<or> sbuf (storage s') = sbuf (storage s) \<and> numCameras s \<le> numCameras s'"
    using assms(5) n by (simp add: listen_def make_room_def)
  have "all_ptrs (old_ptr s') s'"
    using assms(1,2) old_ptr_grows [OF b] by (auto simp: storage_ok_def all_ptrs_def)
  moreover have "length (listening (storage s)) = numCameras s" "numCameras s' \<le> scap (storage s')"
    using assms(1,4,5) n by (simp_all add: storage_ok_def listen_def)
  moreover have "snd (listening (storage s') ! i) = i \<and> fst (listening (storage s') ! i) \<le> sbuf (storage s')" if "i < numCameras s'" for i
  proof (cases "i < numCameras s")
    case True
    then show ?thesis using assms(1,5) b by (auto simp: storage_ok_def listen_def nth_append)
  next
    case False
    then show ?thesis using assms(1,5) that n by (auto simp: storage_ok_def listen_def nth_append)
  qed
  ultimately show ?thesis using assms(5) n by (simp add: storage_ok_def listen_def)
qed

lemma storage_ok_set:
  assumes "storage_ok s" "pheap s' = pheap s" "cameras s' = cms" "length cms \<le> cap"
    and "storage s' = listen 0 (length cms) \<lparr>sbuf = sbuf (storage s) + 1, scap = cap, listening = []\<rparr>"
  shows "storage_ok s'"
proof -
  have b: "sbuf (storage s) < sbuf (storage s')" using assms(5) by (simp add: listen_def)
  have "all_ptrs (old_ptr s') s'"
    using assms(1,2) old_ptr_grows [OF disjI1 [OF b]] by (auto simp: storage_ok_def all_ptrs_def)
  then show ?thesis using assms(3,4,5) by (auto simp: storage_ok_def listen_def count_defs)
qed

lemma pipeExpander_ptrs:
  "all_ptrs Q s \<Longrightarrow> Q DefaultMat \<Longrightarrow> \<forall>rp \<in> set rps. new_pipe (snd rp) \<Longrightarrow> all_ptrs Q (snd (pipeExpander rps s))"
proof (induction rps arbitrary: s)
  case (Cons rp rps)
  have "all_ptrs Q (s\<lparr>pheap := (pheap s)(fst rp \<mapsto> snd rp)\<rparr>)"
    using Cons.prems by (intro all_ptrs_upd) (simp_all add: new_pipe_def)
  then have "all_ptrs Q (alloc_pipe rp s)" by (simp add: alloc_pipe_def all_ptrs_def)
  then show ?case using Cons.IH Cons.prems(2,3) by (simp add: split_beta Let_def)
qed simp

lemma exec_op_storage:
  assumes "storage_ok s" "op_legal opn s"
  shows "storage_ok (snd (exec_op L opn s))"
proof (cases "isRunning s")
  case True
  then show ?thesis using assms(1) exec_op.frozen by simp
next
  case False
  have ptrs: "all_ptrs (old_ptr s) s" using assms(1) by (simp add: storage_ok_def)
  have same: "storage_ok t" if "same_registry s t" for t
    using that ptrs all_ptrs_same [of t s] by (intro storage_ok_frame [OF assms(1)]) (simp_all add: same_registry_def)
  have frame: "storage_ok t" if "cameras t = cameras s" "storage t = storage s" "pheap t \<subseteq>\<^sub>m pheap s" for t
    using storage_ok_frame [OF assms(1) that(1,2) all_ptrs_le [OF ptrs that(3)]] .
  show ?thesis
  proof (cases opn)
    case (OpAddCamera c)
    then show ?thesis using False
      by (auto simp: addCamera_def split_beta intro!: storage_ok_grow [OF assms(1), of _ "[_]" "numCameras s + max (numCameras s) 1"])
  next
    case (OpAddCameras cs)
    then show ?thesis using False
      by (auto simp: addCameras_def split_beta adjust_all_def
          intro!: storage_ok_grow [OF assms(1), of _ "map (fst \<circ> adjust L) cs" "numCameras s + length cs"])
  next
    case (OpSetCameras cap cs)
    then show ?thesis using False
      by (auto simp: setCameras_def split_beta adjust_all_def
          intro!: storage_ok_set [OF assms(1), of _ "map (fst \<circ> adjust L) cs" "max cap (length cs)"])
  next
    case (OpAddPipelineT rp)
    then have "all_ptrs (old_ptr s) (alloc_pipe rp s)" using assms(2) pipeExpander_ptrs [OF ptrs, of "[rp]"] by simp
    then show ?thesis using False OpAddPipelineT
      by (intro storage_ok_frame [OF assms(1)]) (simp_all add: addPipeline_t_def Let_def all_ptrs_def alloc_pipe_def)
  next
    case (OpSetPipelinesT rps)
    let ?s = "(clear_heap s)\<lparr>pipelines := []\<rparr>"
    have "all_ptrs (old_ptr s) ?s" using ptrs by (auto simp: all_ptrs_def restrict_map_def split: if_splits)
    from pipeExpander_ptrs [OF this, of rps] show ?thesis using assms(2) False OpSetPipelinesT
      by (intro storage_ok_frame [OF assms(1)]) (simp_all add: setPipelines_t_def Let_def pipeExpander_props all_ptrs_def)
  next
    case (OpAddPipeline p)
    then show ?thesis using False by (intro frame) (simp_all add: addPipeline_def)
  next
    case (OpAddPipelines ps)
    then show ?thesis using False by (intro frame) (simp_all add: addPipelines_def)
  next
    case (OpSetPipelines ps)
    then show ?thesis using False by (intro frame) (simp_all add: setPipelines_def map_le_def)
  qed (use False in \<open>auto simp: addStream_def addStream_name_def addStream_port_def
      addStream_server_def addStreams_def addStreams_names_def addStreams_ports_def addStreams_servers_def
      split_beta intro!: same push_stream_same push_n_streams_same fold_same\<close>)
qed

lemma repointed_storage: "storage_ok s \<Longrightarrow> repointed s s' \<Longrightarrow> all_ptrs (old_ptr s) s' \<Longrightarrow> storage_ok s'"
  by (rule storage_ok_frame) (simp_all add: repointed_def)

lemma step_storage: "step L s s' \<Longrightarrow> storage_ok s \<Longrightarrow> storage_ok s'"
proof (induction rule: step.induct)
  case (step_op opn s)
  then show ?case by (simp add: exec_op_storage)
next
  case (step_add_t rps s r s')
  show ?case
  proof (cases "isRunning s")
    case True
    then show ?thesis using step_add_t by (simp add: addPipelines_t_def)
  next
    case False
    have "all_ptrs (old_ptr s) (snd (pipeExpander rps s))"
      using step_add_t pipeExpander_ptrs [of "old_ptr s" s rps] by (simp add: storage_ok_def)
    then show ?thesis using step_add_t addPipelines_t_eq [OF False, of rps]
      by (intro storage_ok_frame [OF step_add_t.prems]) (auto simp: pipeExpander_props all_ptrs_def)
  qed
next
  case (step_new r s p)
  then have "all_ptrs (old_ptr s) (s\<lparr>pheap := (pheap s)(r \<mapsto> p)\<rparr>)"
    by (intro all_ptrs_upd) (simp_all add: storage_ok_def new_pipe_def)
  then show ?case by (intro storage_ok_frame [OF step_new.prems]) simp_all
next
  case (step_delete r s)
  then have "all_ptrs (old_ptr s) s" by (simp add: storage_ok_def)
  then have "all_ptrs (old_ptr s) (s\<lparr>pheap := (pheap s)(r := None)\<rparr>)" by (rule all_ptrs_le) (simp add: map_le_def)
  then show ?case by (intro storage_ok_frame [OF step_delete.prems]) simp_all
next
  case (step_flag s b)
  have "all_ptrs (old_ptr s) (s\<lparr>is_running := b\<rparr>) = all_ptrs (old_ptr s) s" by (rule all_ptrs_same) simp
  then show ?case using step_flag by (intro storage_ok_frame [OF step_flag.prems]) (simp_all add: storage_ok_def)
next
  case (step_camera i s r s')
  then show ?case using setCamera_ptrs [of L r i "cameras s ! i" s s' "old_ptr s"]
    by (intro repointed_storage [OF step_camera.prems] setCamera_repointed) (simp_all add: storage_ok_def)
next
  case (step_pipeline r q s s')
  then show ?case using setPipeline_ptrs [of r q s s' "old_ptr s"]
    by (intro repointed_storage [OF step_pipeline.prems] setPipeline_repointed) (simp_all add: storage_ok_def)
next
  case (step_source r h s s')
  then show ?case using setSource_ptrs [of L r h s s' "old_ptr s"]
    by (intro repointed_storage [OF step_source.prems] setSource_repointed) (simp_all add: storage_ok_def)
next
  case (step_compensate s b s')
  then show ?case using compensate_ptrs [of L s b s' "old_ptr s"]
    by (intro repointed_storage [OF step_compensate.prems] compensate_repointed) (simp_all add: storage_ok_def)
next
  case (step_select j i s s')
  then show ?case using all_ptrs_same [OF setSourceIdx_heap [OF step_select.hyps]]
    by (intro repointed_storage [OF step_select.prems] setSourceIdx_repointed) (simp_all add: storage_ok_def)
next
  case (step_sync j d s s')
  then show ?case using all_ptrs_same [OF syncIdx_heap [OF step_sync.hyps]]
    by (intro repointed_storage [OF step_sync.prems] syncIdx_repointed) (simp_all add: storage_ok_def)
qed

lemma storage_ok_init: "storage_ok VisionServer_init"
  by (simp add: storage_ok_def VisionServer_init_def count_defs all_ptrs_def)

lemma reachable_storage: "reachable L s \<Longrightarrow> storage_ok s"
  by (induction rule: reachable.induct) (auto intro: step_storage storage_ok_init)

subsection \<open>Which pointers are valid\<close>

lemma deref_cam_eq: "i < numCameras s \<Longrightarrow> deref_cam s (b, i) = (if b = sbuf (storage s) then Inr (cameras s ! i) else Inl UB)"
  by (simp add: deref_cam_def vec_idx_ok count_defs)

lemma camera_event_eq:
  assumes "storage_ok s" "i < numCameras s"
  shows "camera_event i key v s = (if fst (listening (storage s) ! i) = sbuf (storage s)
    then Inr (emit (camera_listener (cameras s ! i) key v) s) else Inl UB)"
proof -
  have "listening (storage s) ! i = (fst (listening (storage s) ! i), i)" using assms by (simp add: storage_ok_def prod_eq_iff)
  moreover have "i < length (listening (storage s))" using assms by (simp add: storage_ok_def)
  moreover have "deref_cam s (listening (storage s) ! i) = (if fst (listening (storage s) ! i) = sbuf (storage s) then Inr (cameras s ! i) else Inl UB)"
    using calculation(1) deref_cam_eq [OF assms(2)] by metis
  ultimately show ?thesis by (simp add: camera_event_def vec_idx_ok del: rbind_eq_Inr)
qed

lemma read_mat_valid: "valid_ptr s m \<Longrightarrow> \<exists>a. read_mat s d get m = Inr a"
  by (cases "(s, m)" rule: valid_ptr.cases) (simp_all add: read_mat_def deref_cam_eq)

lemma read_mat_old:
  "old_ptr s m \<Longrightarrow> read_mat s d get m = (case m of DefaultMat \<Rightarrow> Inr d
     | CameraMat a \<Rightarrow> if fst a = sbuf (storage s) then Inr (get (cameras s ! snd a)) else Inl UB)"
  by (cases "(s, m)" rule: old_ptr.cases) (auto simp: read_mat_def deref_cam_eq, simp add: deref_cam_def)

text \<open>C5: In every reachable state: a remote value for a camera is handled by that camera if its listener was added in the
  present storage of the vector, and uses a destroyed camera otherwise; a registered pipeline reads the
  default calibration, or that of its camera if it was connected in the present storage, and a destroyed matrix
  otherwise.\<close>

theorem camera_pointers:
  assumes "reachable L s"
  shows "(\<forall>i < numCameras s. camera_event i key v s = (if fst (listening (storage s) ! i) = sbuf (storage s)
      then Inr (emit (camera_listener (cameras s ! i) key v) s) else Inl UB))
    \<and> (\<forall>r \<in> set (pipelines s). \<exists>p. pheap s r = Some p \<and> getSrcMatrix s r = (case src_matrix p of DefaultMat \<Rightarrow> Inr default_matrix
        | CameraMat a \<Rightarrow> if fst a = sbuf (storage s) then Inr (camera_matrix (cameras s ! snd a)) else Inl UB))"
proof (intro conjI allI ballI impI)
  have ok: "storage_ok s" using assms by (rule reachable_storage)
  then show "camera_event i key v s = (if fst (listening (storage s) ! i) = sbuf (storage s)
      then Inr (emit (camera_listener (cameras s ! i) key v) s) else Inl UB)" if "i < numCameras s" for i
    using that by (rule camera_event_eq)
  show "\<exists>p. pheap s r = Some p \<and> getSrcMatrix s r = (case src_matrix p of DefaultMat \<Rightarrow> Inr default_matrix
        | CameraMat a \<Rightarrow> if fst a = sbuf (storage s) then Inr (camera_matrix (cameras s ! snd a)) else Inl UB)"
    if r: "r \<in> set (pipelines s)" for r
  proof -
    obtain p where p: "pheap s r = Some p" using registry_ok_pipes [OF reachable_ok [OF assms] r] by blast
    have "old_ptr s (src_matrix p)" using ok p by (auto simp: storage_ok_def all_ptrs_def)
    then show ?thesis using p by (simp add: getSrcMatrix_def deref_def read_mat_old)
  qed
qed

subsection \<open>Adding cameras\<close>

text \<open>Cameras that come in one call, to a server that has none or in place of those it has, have valid listeners.\<close>

lemma addCameras_storage:
  "\<not> isRunning s \<Longrightarrow> storage (snd (addCameras L cms s)) =
     listen (numCameras s) (length cms) (make_room (numCameras s + length cms) (numCameras s + length cms) (storage s))"
  by (simp add: addCameras_def split_beta)

lemma addCamera_storage:
  "\<not> isRunning s \<Longrightarrow> storage (snd (addCamera L c s)) =
     listen (numCameras s) 1 (make_room (numCameras s + 1) (numCameras s + max (numCameras s) 1) (storage s))"
  by (simp add: addCamera_def split_beta)

lemma fresh_listeners:
  assumes "storage_ok s" "\<not> isRunning s" "s' = snd (setCameras L cap cms s) \<or> cameras s = [] \<and> s' = snd (addCameras L cms s)"
  shows "storage_ok s' \<and> numCameras s' = length cms \<and> (\<forall>i < length cms. fst (listening (storage s') ! i) = sbuf (storage s'))"
proof -
  obtain opn where opn: "s' = snd (exec_op L opn s)" "op_legal opn s"
    using assms(3) exec_op.simps(2,3) op_legal.simps by metis
  have "storage_ok s'" unfolding opn(1) by (rule exec_op_storage [OF assms(1) opn(2)])
  moreover have l: "listening (storage s) = []" if "cameras s = []" using assms(1) that by (simp add: storage_ok_def count_defs)
  ultimately show ?thesis
    using assms(2,3) by (auto simp: setCameras_def addCameras_def split_beta adjust_all_def count_defs listen_def)
qed

theorem cameras_at_once:
  assumes "reachable L s" "\<not> isRunning s" "s' = snd (setCameras L cap cms s) \<or> cameras s = [] \<and> s' = snd (addCameras L cms s)"
    and "i < length cms"
  shows "camera_event i key v s' = Inr (emit (camera_listener (cameras s' ! i) key v) s')"
  using fresh_listeners [OF reachable_storage [OF assms(1)] assms(2,3)] camera_event_eq [of s' i key v] assms(4) by simp

text \<open>C19: The vector of cameras does not keep its storage. When cameras are added and the capacity is used up, every listener
  added before uses a destroyed camera at its next event, and every pipeline that was connected to a camera reads a
  destroyed matrix. The capacity is used up again after \<^verbatim>\<open>addCameras\<close>, so the next call does the same.\<close>

theorem growing_cameras_dangles:
  assumes "reachable L s" "\<not> isRunning s"
    and "s' = snd (addCameras L cms s) \<and> scap (storage s) < numCameras s + length cms
      \<or> s' = snd (addCamera L c s) \<and> scap (storage s) = numCameras s"
  shows "(\<forall>i < numCameras s. camera_event i key v s' = Inl UB)
    \<and> (\<forall>r p a. pheap s r = Some p \<and> src_matrix p = CameraMat a \<longrightarrow> getSrcMatrix s' r = Inl UB)
    \<and> (s' = snd (addCameras L cms s) \<and> scap (storage s) < numCameras s + length cms \<longrightarrow> scap (storage s') = numCameras s')"
proof -
  have ok: "storage_ok s" using assms(1) by (rule reachable_storage)
  obtain opn where opn: "s' = snd (exec_op L opn s)" "op_legal opn s"
    using assms(3) exec_op.simps(1,2) op_legal.simps by metis
  have ok': "storage_ok s'" unfolding opn(1) by (rule exec_op_storage [OF ok opn(2)])
  have b: "sbuf (storage s') = Suc (sbuf (storage s))" "pheap s' = pheap s" "numCameras s \<le> numCameras s'"
    "\<forall>i < numCameras s. listening (storage s') ! i = listening (storage s) ! i"
    using assms(2,3) ok by (auto simp: addCameras_def addCamera_def split_beta adjust_all_def count_defs listen_def make_room_def
        storage_ok_def nth_append)
  have "camera_event i key v s' = Inl UB" if i: "i < numCameras s" for i
  proof -
    have "fst (listening (storage s') ! i) \<noteq> sbuf (storage s')" using ok i b(1,4) by (auto simp: storage_ok_def)
    then show ?thesis using camera_event_eq [OF ok', of i] i b(3) by simp
  qed
  moreover have "getSrcMatrix s' r = Inl UB" if "pheap s r = Some p \<and> src_matrix p = CameraMat a" for r p a
  proof -
    have "old_ptr s (CameraMat a)" using ok that all_ptrsD [of "old_ptr s" s r p] by (simp add: storage_ok_def)
    then have "fst a \<noteq> sbuf (storage s')" using b(1) by (cases a) auto
    then show ?thesis using that b(2) by (simp add: getSrcMatrix_def deref_def read_mat_def deref_cam_def)
  qed
  moreover have "scap (storage s') = numCameras s'" if "s' = snd (addCameras L cms s) \<and> scap (storage s) < numCameras s + length cms"
    using that assms(2) by (simp add: addCameras_def split_beta adjust_all_def count_defs listen_def make_room_def)
  ultimately show ?thesis by blast
qed

subsection \<open>Calibrations while the loops run\<close>

lemma same_handles_valid: "same_handles s t \<Longrightarrow> valid_ptr t = valid_ptr s"
proof
  fix m assume "same_handles s t"
  then show "valid_ptr t m = valid_ptr s m" by (cases "(s, m)" rule: valid_ptr.cases) (simp_all add: same_handles_def count_defs)
qed

lemma run_round_heap: "run_round cap rd s = Inr s' \<Longrightarrow> pheap s' = pheap s"
  by (auto simp: run_round_def sync_all_def dest!: rfold_heap [OF _ syncIdx_heap])

lemma runner_source_ptrs:
  assumes "runner_source L fa r n s = Inr s'" "all_ptrs (valid_ptr s) s" shows "all_ptrs (valid_ptr s) s'"
  using assms setCamera_ptrs [of L r _ _ s s' "valid_ptr s"] setPipeline_ptrs [of r _ s s' "valid_ptr s"]
  by (auto simp: runner_source_def vec_at_def count_defs split: if_splits)

lemma runner_iter_ptrs:
  assumes "runner_iter L fa r rd (st, s) = Inr (st', s')" "all_ptrs (valid_ptr s) s" shows "all_ptrs (valid_ptr s) s'"
  using assms runner_source_ptrs [of L fa r _ s _] by (auto simp: runner_iter_def Let_def split: if_splits)

lemma act_ptrs:
  assumes "act L fa cap a P = Some P'" "all_ptrs (valid_ptr (srv P)) (srv P)"
  shows "all_ptrs (valid_ptr (srv P)) (srv P')"
proof (cases a)
  case (Main rd)
  have "pheap (srv P') = pheap (srv P)"
    using assms(1) Main run_round_heap [of cap rd "srv P"]
    by (auto simp: act_def main_step_def Let_def go_on_def split: if_splits main_pc.splits sum.splits)
  then show ?thesis using assms(2) all_ptrs_same by blast
next
  case (Thread i rd)
  then show ?thesis using assms runner_iter_ptrs
    by (auto simp: act_def thread_step_def Let_def go_on_def set_thread_def runner_begin_def runner_end_def
        split: if_splits runner_pc.splits sum.splits prod.splits)
next
  case Stop
  then show ?thesis using assms all_ptrs_same [of "srv P'" "srv P"] by (auto simp: act_def clear_flag_def split: if_splits)
qed


subsection \<open>Examples\<close>

text \<open>The example server of theory \<open>Server_Props\<close> after \<^verbatim>\<open>compensate\<close>, and with a second camera.\<close>

lemma demo_storage: "scap (storage demo_server) = 1" "numCameras demo_server = 1" "\<not> isRunning demo_server"
  by (simp_all add: demo_server_def addStreams_def addPipeline_def addCamera_def split_beta count_defs VisionServer_init_def
      numeral_2_eq_2 listen_def make_room_def)

lemma demo_listening: "listening (storage demo_server) = [(1, 0)]" "sbuf (storage demo_server) = 1"
  by (simp_all add: demo_server_def addStreams_def addPipeline_def addCamera_def split_beta count_defs VisionServer_init_def
      numeral_2_eq_2 listen_def make_room_def)

theorem camera_pointers_witness:
  "camera_event 0 ([''x''], ''Brightness'') (NtInteger 10) demo_server
     = Inr (emit (camera_listener (cameras demo_server ! 0) ([''x''], ''Brightness'') (NtInteger 10)) demo_server)
   \<and> getSrcMatrix demo_server 0 = Inr default_matrix"
proof -
  note c = camera_pointers [OF demo_server_reachable, of "([''x''], ''Brightness'')" "NtInteger 10"]
  have "pipelines demo_server = [0]" "pheap demo_server 0 = Some demo_pipe" "src_matrix demo_pipe = DefaultMat"
    using demo_server_simps by (simp_all add: demo_pipe_def BasePipe_new_def)
  then show ?thesis using c demo_listening demo_storage(2) by auto
qed

theorem cameras_at_once_witness:
  "\<exists>s'. s' = snd (setCameras demo_lib 4 [VisionCamera0 demo_lib 7, VisionCamera0 demo_lib 8] demo_server)
     \<and> camera_event 1 ([''x''], ''Exposure'') (NtInteger 10) s'
       = Inr (emit (camera_listener (cameras s' ! 1) ([''x''], ''Exposure'') (NtInteger 10)) s')"
  using cameras_at_once [OF demo_server_reachable demo_storage(3), of _ 4 "[VisionCamera0 demo_lib 7, VisionCamera0 demo_lib 8]" 1] by auto

theorem growing_cameras_dangles_witness:
  "camera_event 0 ([''x''], ''Exposure'') (NtInteger 10) (snd (addCamera demo_lib (VisionCamera0 demo_lib 7) demo_server)) = Inl UB"
  using growing_cameras_dangles [OF demo_server_reachable demo_storage(3), of _ "[]" "VisionCamera0 demo_lib 7"
      "([''x''], ''Exposure'')" "NtInteger 10"] demo_storage by auto


end
