(* ===== verification/Server_Threads.thy ===== *)
theory Server_Threads
  imports Server_Run
begin

text \<open>
  The background thread of the server: \<^verbatim>\<open>runThread\<close>, \<^verbatim>\<open>runSingleThread\<close>, \<^verbatim>\<open>runRawThread\<close> and
  \<^verbatim>\<open>stop\<close>, with the thread \<^verbatim>\<open>head\<close> and the atomic \<^verbatim>\<open>is_running\<close>.

  The functions the thread runs are split at their accesses of the shared flag: the test at the
  beginning, the assignment, and the test of the loop. \<^verbatim>\<open>stop\<close> is split into the assignment, the
  test of \<^verbatim>\<open>joinable()\<close> and the end of \<^verbatim>\<open>join()\<close>. A step of one client thread and of the thread
  \<^verbatim>\<open>head\<close> interleave in any order; an iteration of the loop with the flag set is no step.
\<close>

datatype run_kind = KMulti | KSingle | KRaw

datatype head_pc = HCheck run_kind | HSet run_kind | HLoop run_kind | HDone

datatype client_pc = CIdle | CStopped | CJoin

record tstate =
  flag :: bool
  head :: "head_pc option"
  client :: client_pc

definition joinable :: "tstate \<Rightarrow> bool" where
  "joinable t \<longleftrightarrow> head t \<noteq> None"

text \<open>The three starting functions differ in the function the thread runs.\<close>

definition runThread :: "run_kind \<Rightarrow> tstate \<Rightarrow> bool \<times> tstate" where
  "runThread k t =
     (if \<not> flag t \<and> \<not> joinable t then (True, t\<lparr>head := Some (HCheck k)\<rparr>) else (False, t))"

text \<open>The condition under which the functions enter their loop; \<open>np\<close> tells whether there are
  pipelines.\<close>

fun may_run :: "bool \<Rightarrow> run_kind \<Rightarrow> bool \<Rightarrow> bool" where
  "may_run np KRaw f = (\<not> f)"
| "may_run np _ f = (\<not> f \<and> np)"

fun head_step :: "bool \<Rightarrow> tstate \<Rightarrow> tstate option" where
  "head_step np t = (case head t of
       Some (HCheck k) \<Rightarrow> Some (t\<lparr>head := Some (if may_run np k (flag t) then HSet k else HDone)\<rparr>)
     | Some (HSet k) \<Rightarrow> Some (t\<lparr>flag := True, head := Some (HLoop k)\<rparr>)
     | Some (HLoop k) \<Rightarrow> (if flag t then None else Some (t\<lparr>head := Some HDone\<rparr>))
     | _ \<Rightarrow> None)"

text \<open>The steps of \<^verbatim>\<open>stop\<close>; the result is the value returned, once there is one.\<close>

definition stop_flag :: "tstate \<Rightarrow> tstate" where
  "stop_flag t = t\<lparr>flag := False, client := CStopped\<rparr>"

fun stop_step :: "tstate \<Rightarrow> (bool option \<times> tstate) option" where
  "stop_step t = (case client t of
       CIdle \<Rightarrow> None
     | CStopped \<Rightarrow> (if joinable t then Some (None, t\<lparr>client := CJoin\<rparr>) else Some (Some False, t\<lparr>client := CIdle\<rparr>))
     | CJoin \<Rightarrow> (if head t = Some HDone then Some (Some True, t\<lparr>head := None, client := CIdle\<rparr>) else None))"

declare head_step.simps [simp del] stop_step.simps [simp del]

text \<open>Steps that finish a pending call or advance the thread; and all steps, new calls included.\<close>

inductive tstep :: "bool \<Rightarrow> tstate \<Rightarrow> tstate \<Rightarrow> bool" for np where
  t_head: "head_step np t = Some t' \<Longrightarrow> tstep np t t'"
| t_stop: "stop_step t = Some (r, t') \<Longrightarrow> tstep np t t'"

inductive treach :: "bool \<Rightarrow> tstate \<Rightarrow> bool" for np where
  tr_init: "treach np \<lparr>flag = False, head = None, client = CIdle\<rparr>"
| tr_start: "treach np t \<Longrightarrow> client t = CIdle \<Longrightarrow> treach np (snd (runThread k t))"
| tr_call: "treach np t \<Longrightarrow> client t = CIdle \<Longrightarrow> treach np (stop_flag t)"
| tr_step: "treach np t \<Longrightarrow> tstep np t t' \<Longrightarrow> treach np t'"

inductive_cases tstep_cases: "tstep np t t'"

lemma tstep_iff: "tstep np t t' \<longleftrightarrow> head_step np t = Some t' \<or> (\<exists>r. stop_step t = Some (r, t'))"
  by (auto intro: tstep.intros elim: tstep_cases)

lemma relpowp_2: "(R ^^ 2) a c \<longleftrightarrow> (\<exists>b. R a b \<and> R b c)"
  and relpowp_3: "(R ^^ 3) a c \<longleftrightarrow> (\<exists>b. (R ^^ 2) a b \<and> R b c)"
  by (simp_all add: eval_nat_numeral relcompp_apply OO_def)

lemmas thread_defs = tstep_iff head_step.simps stop_step.simps joinable_def

text \<open>C17: In every reachable interleaving the flag is set only while the thread is in its loop,
  so a second thread is never started, and a client waits in \<^verbatim>\<open>join\<close> only for an existing thread.\<close>

theorem flag_only_in_loop:
  "treach np t \<Longrightarrow>
     (flag t \<longrightarrow> (\<exists>k. head t = Some (HLoop k))) \<and> (client t = CJoin \<longrightarrow> joinable t)
     \<and> (joinable t \<longrightarrow> runThread k t = (False, t))"
proof (induction rule: treach.induct)
  case (tr_step t t')
  then show ?case
    by (auto simp: thread_defs runThread_def split: option.splits head_pc.splits client_pc.splits if_splits)
qed (auto simp: runThread_def stop_flag_def joinable_def)

lemma treach_running:
  assumes "np"
  shows "treach np \<lparr>flag = False, head = Some (HCheck k), client = CIdle\<rparr>"
    "treach np \<lparr>flag = True, head = Some (HLoop k), client = CIdle\<rparr>"
proof -
  show 1: "treach np \<lparr>flag = False, head = Some (HCheck k), client = CIdle\<rparr>"
    using tr_start [OF tr_init, of np k] by (simp add: runThread_def joinable_def)
  have m: "may_run np k False" using assms by (cases k) simp_all
  have "treach np \<lparr>flag = False, head = Some (HSet k), client = CIdle\<rparr>"
    using 1 m by (auto intro!: tr_step [OF 1] t_head simp: head_step.simps)
  from tr_step [OF this t_head] show "treach np \<lparr>flag = True, head = Some (HLoop k), client = CIdle\<rparr>"
    by (simp add: head_step.simps)
qed

theorem flag_only_in_loop_witness:
  "runThread KRaw \<lparr>flag = True, head = Some (HLoop KMulti), client = CIdle\<rparr>
     = (False, \<lparr>flag = True, head = Some (HLoop KMulti), client = CIdle\<rparr>)"
  using flag_only_in_loop [OF treach_running(2) [of True KMulti], of KRaw] by (simp add: joinable_def)

text \<open>\<^verbatim>\<open>stop()\<close> called while the thread is in its loop returns: however the two threads
  interleave, the call ends after exactly three steps, with the thread joined and the flag clear, and
  the system is never stuck before.\<close>

theorem stop_returns_from_loop:
  assumes "flag t" "head t = Some (HLoop k)" "client t = CIdle"
  shows "((tstep np ^^ 3) (stop_flag t) u \<longrightarrow> u = \<lparr>flag = False, head = None, client = CIdle\<rparr>)
    \<and> (n < 3 \<and> (tstep np ^^ n) (stop_flag t) v \<longrightarrow> (\<exists>w. tstep np v w))"
proof -
  let ?s = "\<lambda>h c. \<lparr>flag = False, head = h, client = c\<rparr> :: tstate"
  have t: "stop_flag t = ?s (Some (HLoop k)) CStopped" using assms by (cases t) (simp add: stop_flag_def)
  have st: "tstep np (?s (Some (HLoop k)) CStopped) v \<longleftrightarrow> v = ?s (Some (HLoop k)) CJoin \<or> v = ?s (Some HDone) CStopped"
    "tstep np (?s (Some (HLoop k)) CJoin) v \<longleftrightarrow> v = ?s (Some HDone) CJoin"
    "tstep np (?s (Some HDone) CStopped) v \<longleftrightarrow> v = ?s (Some HDone) CJoin"
    "tstep np (?s (Some HDone) CJoin) v \<longleftrightarrow> v = ?s None CIdle" for v
    by (auto simp: thread_defs)
  have two: "(tstep np ^^ 2) (stop_flag t) v \<longleftrightarrow> v = ?s (Some HDone) CJoin" for v
    unfolding relpowp_2 t st by (metis st(2,3))
  have three: "(tstep np ^^ 3) (stop_flag t) u \<longrightarrow> u = ?s None CIdle"
    unfolding relpowp_3 two by (metis st(4))
  have "\<exists>w. tstep np v w" if n: "n < 3" and v: "(tstep np ^^ n) (stop_flag t) v"
  proof -
    have "n = 0 \<or> n = 1 \<or> n = 2" using n by linarith
    then have "v = ?s (Some (HLoop k)) CStopped \<or> v = ?s (Some (HLoop k)) CJoin \<or> v = ?s (Some HDone) CStopped
        \<or> v = ?s (Some HDone) CJoin"
      using v two by (elim disjE) (auto simp: t st OO_def)
    then show ?thesis using st by metis
  qed
  then show ?thesis using three by blast
qed

theorem stop_returns_from_loop_witness:
  "\<exists>w. tstep True \<lparr>flag = False, head = Some (HLoop KMulti), client = CStopped\<rparr> w"
  using stop_returns_from_loop [of "\<lparr>flag = True, head = Some (HLoop KMulti), client = CIdle\<rparr>" KMulti True _ 0
      "\<lparr>flag = False, head = Some (HLoop KMulti), client = CStopped\<rparr>"]
  by (simp add: stop_flag_def)

text \<open>A \<^verbatim>\<open>stop()\<close> that comes between the start of the thread and the thread's own assignment
  of the flag is lost: there is an interleaving of \<^verbatim>\<open>runThread\<close> and \<^verbatim>\<open>stop\<close> that ends with the client
  waiting in \<^verbatim>\<open>join\<close> for a thread that runs its loop with the flag set, and nothing either of them
  does can end that.\<close>

theorem stop_can_be_lost:
  assumes "np"
  shows "\<exists>t. treach np t \<and> flag t \<and> head t = Some (HLoop k) \<and> client t = CJoin \<and> (\<forall>u. \<not> tstep np t u)"
proof -
  have m: "may_run np k False" using assms by (cases k) simp_all
  have a: "treach np \<lparr>flag = False, head = Some (HCheck k), client = CStopped\<rparr>"
    using tr_call [OF treach_running(1) [OF assms, of k]] by (simp add: stop_flag_def)
  have b: "treach np \<lparr>flag = False, head = Some (HCheck k), client = CJoin\<rparr>"
    by (rule tr_step [OF a]) (simp add: thread_defs)
  have c: "treach np \<lparr>flag = False, head = Some (HSet k), client = CJoin\<rparr>"
    by (rule tr_step [OF b]) (simp add: thread_defs m)
  have "treach np \<lparr>flag = True, head = Some (HLoop k), client = CJoin\<rparr>"
    by (rule tr_step [OF c]) (simp add: thread_defs)
  moreover have "\<not> tstep np \<lparr>flag = True, head = Some (HLoop k), client = CJoin\<rparr> u" for u
    by (simp add: thread_defs)
  ultimately show ?thesis by (intro exI [of _ "\<lparr>flag = True, head = Some (HLoop k), client = CJoin\<rparr>"]) simp
qed

theorem stop_can_be_lost_witness:
  "\<exists>t. treach True t \<and> head t = Some (HLoop KMulti) \<and> client t = CJoin \<and> (\<forall>u. \<not> tstep True t u)"
  using stop_can_be_lost [of True KMulti] by blast

end
