(* ===== verification/Pipelines.thy ===== *)
theory Pipelines
  imports Server
begin

text \<open>
  \<^verbatim>\<open>VPipeline\<close> and \<^verbatim>\<open>SequentialPipeline\<close> (\<^verbatim>\<open>core/visionserver2.h\<close>): the names of pipeline
  instances, and a pipeline that passes a frame through others in order. A frame is any type, and the
  \<^verbatim>\<open>process\<close> of a pipeline is a function on it.
\<close>

subsection \<open>Names of instances\<close>

text \<open>The constructor from a string literal or an lvalue string, and the one from an rvalue string,
  which leaves out the blank.\<close>

definition VPipeline_name :: "string \<Rightarrow> nat \<Rightarrow> string" where
  "VPipeline_name nm inst = nm @ ''/Instance '' @ to_string inst"

definition VPipeline_name_rv :: "string \<Rightarrow> nat \<Rightarrow> string" where
  "VPipeline_name_rv nm inst = nm @ ''/Instance'' @ to_string inst"

text \<open>Writing to a \<^verbatim>\<open>std::stringstream\<close> that was constructed from a string: the stream's buffer
  starts with the string, its put position at the beginning, so output replaces characters.\<close>

definition ss_put :: "string \<Rightarrow> string \<times> nat \<Rightarrow> string \<times> nat" where
  "ss_put t = (\<lambda>(buf, pos). (take pos buf @ t @ drop (pos + length t) buf, pos + length t))"

definition Construct :: "string list \<Rightarrow> string" where
  "Construct names =
     (case names of [] \<Rightarrow> ''void''
      | n # ns \<Rightarrow> fst (fold (\<lambda>m. ss_put m \<circ> ss_put '', '') ns (n, 0)))"

record 'f SequentialPipeline =
  sname :: string
  spipelines :: "('f \<Rightarrow> 'f) list"

text \<open>The constructor passes the member \<^verbatim>\<open>heap_ptrs\<close> to \<^verbatim>\<open>Construct\<close> in the initialiser of the base
  class, before the member is constructed: with at least one pipeline type this appends to a vector
  that does not exist yet.\<close>

definition SequentialPipeline_new :: "string list \<Rightarrow> nat \<Rightarrow> 'f SequentialPipeline res" where
  "SequentialPipeline_new names inst =
     (if names = [] then
        Inr \<lparr>sname = VPipeline_name_rv (''SequentialPipeline<'' @ Construct names @ ''> '') inst, spipelines = []\<rparr>
      else Inl UB)"

definition Seq_addPipeline :: "('f \<Rightarrow> 'f) \<Rightarrow> 'f SequentialPipeline \<Rightarrow> 'f SequentialPipeline" where
  "Seq_addPipeline p q = q\<lparr>spipelines := spipelines q @ [p]\<rparr>"

definition Seq_addPipelines :: "('f \<Rightarrow> 'f) list \<Rightarrow> 'f SequentialPipeline \<Rightarrow> 'f SequentialPipeline" where
  "Seq_addPipelines ps q = q\<lparr>spipelines := spipelines q @ ps\<rparr>"

definition Seq_process :: "'f SequentialPipeline \<Rightarrow> 'f \<Rightarrow> 'f" where
  "Seq_process q f = fold (\<lambda>p. p) (spipelines q) f"

lemma Seq_process_add:
  "Seq_process (Seq_addPipelines ps q) f = fold (\<lambda>p. p) ps (Seq_process q f)"
  "Seq_process (Seq_addPipeline p q) f = p (Seq_process q f)"
  by (simp_all add: Seq_process_def Seq_addPipelines_def Seq_addPipeline_def)

text \<open>The name \<^verbatim>\<open>Construct\<close> gives to a sequence of two pipelines is not "first, second":
  the separator and the second name overwrite the first name, of which only what is longer remains;
  and instances named through an lvalue and through an rvalue have different names although they
  count the same instances.\<close>

theorem construct_overwrites_first:
  "Construct [a, b] = '', '' @ b @ drop (2 + length b) a
   \<and> VPipeline_name nm i \<noteq> VPipeline_name_rv nm i"
proof -
  have "length (VPipeline_name nm i) = length (VPipeline_name_rv nm i) + 1"
    by (simp add: VPipeline_name_def VPipeline_name_rv_def)
  then have "VPipeline_name nm i \<noteq> VPipeline_name_rv nm i" by (metis n_not_Suc_n Suc_eq_plus1)
  then show ?thesis by (simp add: Construct_def ss_put_def)
qed

end
