(* ===== verification/Neon_Machine.thy ===== *)
theory Neon_Machine
  imports VS_Prelude
begin

unbundle bit_operations_syntax

text \<open>
  The part of the ARM machines that the assembly files use: registers \<open>xr\<close>, vector registers \<open>vr\<close> as
  bytes by lane, and a byte-addressed memory; one function per instruction form, the loops the code
  closes with a conditional branch, and a rule for kernels that work block by block. Registers and
  addresses have \<open>'l\<close> bits: 64 for \<^verbatim>\<open>core/neon64.S\<close> (\<open>cpu\<close>), 32 for the files of theory \<open>Neon32\<close>.

  A vector register has 16 lanes; the functions are defined on all lane numbers, and stores use only
  the first 16.
\<close>

type_synonym byte = "8 word"
type_synonym addr = "64 word"

record 'w arm =
  xr :: "nat \<Rightarrow> 'w"
  vr :: "nat \<Rightarrow> nat \<Rightarrow> byte"
  mem :: "'w \<Rightarrow> byte"

type_synonym cpu = "addr arm"

subsection \<open>Lane operations\<close>

definition uqadd8 :: "byte \<Rightarrow> byte \<Rightarrow> byte" where
  "uqadd8 a b = (if unat a + unat b > 255 then 255 else a + b)"

definition uqsub8 :: "byte \<Rightarrow> byte \<Rightarrow> byte" where
  "uqsub8 a b = (if a < b then 0 else a - b)"

definition cmhi8 :: "byte \<Rightarrow> byte \<Rightarrow> byte" where
  "cmhi8 a b = (if a > b then 255 else 0)"

definition ushl8 :: "byte \<Rightarrow> byte \<Rightarrow> byte" where
  "ushl8 a s = (if 0 \<le> sint s then push_bit (nat (sint s)) a else drop_bit (nat (- sint s)) a)"

definition uqshl8 :: "byte \<Rightarrow> byte \<Rightarrow> byte" where
  "uqshl8 a s = (if 0 \<le> sint s
     then (if unat a * 2 ^ nat (sint s) > 255 then 255 else push_bit (nat (sint s)) a)
     else drop_bit (nat (- sint s)) a)"

definition clz8 :: "byte \<Rightarrow> byte" where
  "clz8 a = of_nat (length (takeWhile (\<lambda>i. \<not> bit a i) [7, 6, 5, 4, 3, 2, 1, 0]))"

subsection \<open>Instructions\<close>

definition set_x :: "nat \<Rightarrow> ('l :: len) word \<Rightarrow> 'l word arm \<Rightarrow> 'l word arm" where
  "set_x n w s = s\<lparr>xr := (xr s)(n := w)\<rparr>"

definition set_v :: "nat \<Rightarrow> (nat \<Rightarrow> byte) \<Rightarrow> ('l :: len) word arm \<Rightarrow> 'l word arm" where
  "set_v q f s = s\<lparr>vr := (vr s)(q := f)\<rparr>"

text \<open>\<^verbatim>\<open>ldr q, [x], #16\<close> and \<^verbatim>\<open>str q, [x], #16\<close>.\<close>

definition ldr_q :: "nat \<Rightarrow> nat \<Rightarrow> cpu \<Rightarrow> cpu" where
  "ldr_q q n s = set_x n (xr s n + 16) (set_v q (\<lambda>i. mem s (xr s n + of_nat i)) s)"

definition store :: "nat \<Rightarrow> ('l :: len) word \<Rightarrow> (nat \<Rightarrow> byte) \<Rightarrow> ('l word \<Rightarrow> byte) \<Rightarrow> 'l word \<Rightarrow> byte" where
  "store len p f m = (\<lambda>a. if unat (a - p) < len then f (unat (a - p)) else m a)"

definition str_q :: "nat \<Rightarrow> nat \<Rightarrow> cpu \<Rightarrow> cpu" where
  "str_q q n s = set_x n (xr s n + 16) (s\<lparr>mem := store 16 (xr s n) (vr s q) (mem s)\<rparr>)"

text \<open>\<^verbatim>\<open>ld3\<close> and \<^verbatim>\<open>st3\<close> of three full registers, with de- and re-interleaving.\<close>

definition ld3 :: "nat \<Rightarrow> nat \<Rightarrow> cpu \<Rightarrow> cpu" where
  "ld3 q n s = set_x n (xr s n + 48)
     (set_v q (\<lambda>i. mem s (xr s n + of_nat (3 * i)))
     (set_v (q + 1) (\<lambda>i. mem s (xr s n + of_nat (3 * i + 1)))
     (set_v (q + 2) (\<lambda>i. mem s (xr s n + of_nat (3 * i + 2))) s)))"

definition st3 :: "nat \<Rightarrow> nat \<Rightarrow> cpu \<Rightarrow> cpu" where
  "st3 q n s = set_x n (xr s n + 48)
     (s\<lparr>mem := store 48 (xr s n) (\<lambda>k. vr s (q + k mod 3) (k div 3)) (mem s)\<rparr>)"

text \<open>Lane-wise operations with one and with two source registers.\<close>

definition v1 :: "(byte \<Rightarrow> byte) \<Rightarrow> nat \<Rightarrow> nat \<Rightarrow> ('l :: len) word arm \<Rightarrow> 'l word arm" where
  "v1 f d a s = set_v d (\<lambda>i. f (vr s a i)) s"

definition v2 :: "(byte \<Rightarrow> byte \<Rightarrow> byte) \<Rightarrow> nat \<Rightarrow> nat \<Rightarrow> nat \<Rightarrow> ('l :: len) word arm \<Rightarrow> 'l word arm" where
  "v2 f d a b s = set_v d (\<lambda>i. f (vr s a i) (vr s b i)) s"

text \<open>\<^verbatim>\<open>dup v.16b, w\<close>, and \<^verbatim>\<open>dup v.8b, w\<close>, which clears the upper half.\<close>

definition dup16 :: "nat \<Rightarrow> nat \<Rightarrow> cpu \<Rightarrow> cpu" where
  "dup16 d n s = set_v d (\<lambda>i. ucast (xr s n)) s"

definition dup8 :: "nat \<Rightarrow> nat \<Rightarrow> cpu \<Rightarrow> cpu" where
  "dup8 d n s = set_v d (\<lambda>i. if i < 8 then ucast (xr s n) else 0) s"

text \<open>\<^verbatim>\<open>lsr x, x, #k\<close>, and \<^verbatim>\<open>lsr w, w, #k\<close>, which reads and writes the low half and clears the
  upper one.\<close>

definition lsr_x :: "nat \<Rightarrow> nat \<Rightarrow> cpu \<Rightarrow> cpu" where
  "lsr_x n k s = set_x n (drop_bit k (xr s n)) s"

definition lsr_w :: "nat \<Rightarrow> nat \<Rightarrow> cpu \<Rightarrow> cpu" where
  "lsr_w n k s = set_x n (drop_bit k (take_bit 32 (xr s n))) s"

definition sub_x :: "nat \<Rightarrow> ('l :: len) word \<Rightarrow> 'l word arm \<Rightarrow> 'l word arm" where
  "sub_x n k s = set_x n (xr s n - k) s"

lemma cpu_simps [simp]:
  "xr (set_x n w s) = (xr s)(n := w)" "vr (set_x n w s) = vr s" "mem (set_x n w s) = mem s"
  "xr (set_v q f s) = xr s" "vr (set_v q f s) = (vr s)(q := f)" "mem (set_v q f s) = mem s"
  by (simp_all add: set_x_def set_v_def)

lemmas instr_defs = ldr_q_def str_q_def ld3_def st3_def v1_def v2_def dup16_def dup8_def
  lsr_x_def lsr_w_def sub_x_def

subsection \<open>Loops\<close>

text \<open>\<^verbatim>\<open>loop: body; subs x, x, #1; bne loop\<close>\<close>

partial_function (option) bne_loop :: "(('l :: len) word arm \<Rightarrow> 'l word arm) \<Rightarrow> nat \<Rightarrow> 'l word arm \<Rightarrow> 'l word arm option" where
  "bne_loop body n s =
     (let s' = sub_x n 1 (body s) in if xr s' n \<noteq> 0 then bne_loop body n s' else Some s')"

text \<open>The number of iterations: a counter of 0 wraps around.\<close>

definition iters :: "('l :: len) word \<Rightarrow> nat" where
  "iters w = (if w = 0 then 2 ^ LENGTH('l) else unat w)"

lemma iters_pos: "0 < iters w"
  by (simp add: iters_def unat_gt_0)

lemma iters_step: "w - 1 \<noteq> 0 \<Longrightarrow> iters w = Suc (iters (w - 1))"
proof (cases "w = 0")
  case True
  assume "w - 1 \<noteq> 0"
  then show ?thesis using True by (simp add: iters_def unsigned_minus_1_eq_mask mask_eq_exp_minus_1)
next
  case False
  assume "w - 1 \<noteq> 0"
  moreover have "unat (w - 1) = unat w - 1" using False by (simp add: unat_minus_one)
  moreover have "0 < unat w" using False by (simp add: unat_gt_0)
  ultimately show ?thesis using False by (simp add: iters_def)
qed

lemma iters_last: "w - 1 = 0 \<Longrightarrow> iters w = 1"
  by (simp add: iters_def)

text \<open>The loop always ends, and is the iteration of its body.\<close>

lemma bne_loop_eq:
  assumes "\<And>s. xr (body s) n = xr s n"
  shows "bne_loop body n s = Some (((sub_x n 1 \<circ> body) ^^ iters (xr s n)) s)"
proof (induction "iters (xr s n)" arbitrary: s)
  case 0
  then show ?case using iters_pos by (metis less_irrefl)
next
  case (Suc k)
  let ?s = "sub_x n 1 (body s)"
  have x: "xr ?s n = xr s n - 1" by (simp add: sub_x_def assms)
  show ?case
  proof (cases "xr s n - 1 = 0")
    case True
    then show ?thesis using iters_last [OF True] by (subst bne_loop.simps) (simp add: x)
  next
    case False
    then have i: "iters (xr s n) = Suc (iters (xr ?s n))" using iters_step x by simp
    then have "bne_loop body n ?s = Some (((sub_x n 1 \<circ> body) ^^ iters (xr ?s n)) ?s)"
      using Suc by simp
    then show ?thesis using False
      by (subst bne_loop.simps) (simp add: x i funpow_Suc_right del: funpow.simps)
  qed
qed

subsection \<open>Kernels that work block by block\<close>

lemma unat_of_nat_fit: "n < 2 ^ LENGTH('l :: len) \<Longrightarrow> unat (of_nat n :: 'l word) = n"
  by (simp add: unat_of_nat take_bit_nat_eq_self)

lemma unat_lt2p: "unat (w :: ('l :: len) word) < 2 ^ LENGTH('l)"
  using unsigned_less [of w, where ?'a = nat] by simp

lemma unat_minus_of_nat:
  fixes w :: "('l :: len) word"
  assumes "m \<le> unat w" shows "unat (w - of_nat m) = unat w - m"
proof -
  have m: "unat (of_nat m :: 'l word) = m"
    using assms unat_lt2p [of w] by (intro unat_of_nat_fit) linarith
  then have "of_nat m \<le> w" using assms by (simp add: word_le_nat_alt)
  then show ?thesis by (simp add: unat_sub m)
qed

lemma unat_minus_lt:
  fixes w :: "('l :: len) word"
  assumes "m + len \<le> 2 ^ LENGTH('l)"
  shows "unat (w - of_nat m) < len \<longleftrightarrow> m \<le> unat w \<and> unat w < m + len"
proof (cases "m \<le> unat w")
  case True
  then show ?thesis by (auto simp: unat_minus_of_nat)
next
  case False
  show ?thesis
  proof (cases "len = 0")
    case False': False
    then have m: "unat (of_nat m :: 'l word) = m" using assms by (intro unat_of_nat_fit) linarith
    then have lt: "w < of_nat m" using False by (simp add: word_less_nat_alt)
    have "unat (w - of_nat m) = unat w + 2 ^ LENGTH('l) - m"
      using lt m by (simp add: unat_sub_if_size word_size word_less_nat_alt)
    then show ?thesis using False assms by linarith
  qed simp
qed

text \<open>A destination block of a kernel may coincide with the source block read in the same iteration,
  but not with one read later: destination at \<open>p\<close> in blocks of \<open>bd\<close> bytes, source at \<open>q\<close> in blocks
  of \<open>bs\<close>, \<open>m\<close> iterations.\<close>

definition clear_of :: "('l :: len) word \<Rightarrow> nat \<Rightarrow> 'l word \<Rightarrow> nat \<Rightarrow> nat \<Rightarrow> bool" where
  "clear_of p bd q bs m \<longleftrightarrow> (\<forall>i < m * bd. \<forall>j < m * bs.
     i div bd < j div bs \<longrightarrow> p + of_nat i \<noteq> q + of_nat j)"

lemma clear_of_Suc: "clear_of p bd q bs (Suc m) \<Longrightarrow> clear_of p bd q bs m"
  by (simp add: clear_of_def trans_less_add2)

lemma clear_of_one [simp]: "clear_of p bd q bs (Suc 0)"
  by (simp add: clear_of_def)

text \<open>Source and destination may be the same buffer, if it does not wrap around.\<close>

lemma clear_of_same:
  fixes p :: "('l :: len) word"
  shows "m * b \<le> 2 ^ LENGTH('l) \<Longrightarrow> clear_of p b p b m"
  unfolding clear_of_def
proof (intro allI impI notI)
  fix i j assume le: "m * b \<le> 2 ^ LENGTH('l)" and i: "i < m * b" and j: "j < m * b" and lt: "i div b < j div b"
    and "p + of_nat i = p + of_nat j"
  then have "(of_nat i :: 'l word) = of_nat j" by simp
  then have "i = j" using i j le by (metis order_less_le_trans unat_of_nat_fit)
  then show False using lt by simp
qed

text \<open>So is a source that ends before the destination begins.\<close>

lemma clear_of_before:
  assumes "Q + m * bs \<le> P" "P + m * bd \<le> 2 ^ LENGTH('l :: len)"
  shows "clear_of (of_nat P :: 'l word) bd (of_nat Q) bs m"
  unfolding clear_of_def
proof (intro allI impI notI)
  fix i j assume i: "i < m * bd" and j: "j < m * bs" and "of_nat P + of_nat i = (of_nat Q + of_nat j :: 'l word)"
  then have e: "(of_nat (P + i) :: 'l word) = of_nat (Q + j)" by simp
  have "P + i < 2 ^ LENGTH('l)" "Q + j < 2 ^ LENGTH('l)" using i j assms by linarith+
  then have "P + i = Q + j" using e by (metis unat_of_nat_fit)
  then show False using j assms(1) by linarith
qed

text \<open>A body reads a block at each source pointer and writes one at the destination pointer,
  and advances the pointers. \<open>g c u k\<close> is byte \<open>k\<close> of the block written, from the constant
  registers \<open>c\<close> and the bytes \<open>u r i\<close> at the source pointers.\<close>

locale block_kernel =
  fixes body :: "('l :: len) word arm \<Rightarrow> 'l word arm" and srcs :: "nat set" and stride :: "nat \<Rightarrow> nat" and d :: nat and n :: nat
    and cregs :: "nat set" and g :: "(nat \<Rightarrow> nat \<Rightarrow> byte) \<Rightarrow> (nat \<Rightarrow> nat \<Rightarrow> byte) \<Rightarrow> nat \<Rightarrow> byte"
  assumes mem_body: "mem (body s) = store (stride d) (xr s d) (g (vr s) (\<lambda>r i. mem s (xr s r + of_nat i))) (mem s)"
    and xr_body: "r \<in> insert d srcs \<Longrightarrow> xr (body s) r = xr s r + of_nat (stride r)"
    and xr_count: "xr (body s) n = xr s n"
    and vr_body: "q \<in> cregs \<Longrightarrow> vr (body s) q = vr s q"
    and g_cong: "(\<And>q. q \<in> cregs \<Longrightarrow> c q = c' q) \<Longrightarrow> (\<And>r i. r \<in> srcs \<Longrightarrow> i < stride r \<Longrightarrow> u r i = v r i) \<Longrightarrow>
      k < stride d \<Longrightarrow> g c u k = g c' v k"
    and stride_pos: "0 < stride d" "r \<in> srcs \<Longrightarrow> 0 < stride r"
    and d_src: "d \<notin> srcs" "n \<noteq> d" "n \<notin> srcs"
begin

definition step :: "'l word arm \<Rightarrow> 'l word arm" where
  "step s = sub_x n 1 (body s)"

definition no_clobber :: "'l word arm \<Rightarrow> nat \<Rightarrow> bool" where
  "no_clobber s m \<longleftrightarrow> (\<forall>r \<in> srcs. clear_of (xr s d) (stride d) (xr s r) (stride r) m)"

text \<open>The bytes written by the first \<open>m\<close> iterations.\<close>

definition written :: "'l word arm \<Rightarrow> nat \<Rightarrow> byte" where
  "written s k = g (vr s) (\<lambda>r i. mem s (xr s r + of_nat (k div stride d * stride r + i))) (k mod stride d)"

lemma step_simps:
  "xr (step s) r = (if r = n then xr s n - 1 else xr (body s) r)" "vr (step s) = vr (body s)"
  "mem (step s) = mem (body s)"
  by (simp_all add: step_def sub_x_def xr_count)

lemma step_regs:
  "r \<in> insert d srcs \<Longrightarrow> xr ((step ^^ m) s) r = xr s r + of_nat (m * stride r)"
  "q \<in> cregs \<Longrightarrow> vr ((step ^^ m) s) q = vr s q"
proof (induction m)
  case (Suc m)
  case 1
  then show ?case using Suc.IH(1) [OF 1] xr_body [of r "(step ^^ m) s"] d_src
    by (auto simp: step_simps algebra_simps)
next
  case (Suc m)
  case 2
  then show ?case using Suc.IH(2) vr_body by (simp add: step_simps)
qed simp_all

lemma no_clobber_Suc: "no_clobber s (Suc m) \<Longrightarrow> no_clobber s m"
  by (auto simp: no_clobber_def intro: clear_of_Suc)

lemma source_untouched:
  assumes "no_clobber s (Suc m)" "m * stride d \<le> 2 ^ LENGTH('l)" "r \<in> srcs" "i < stride r"
    and "mem t = store (m * stride d) (xr s d) f (mem s)"
  shows "mem t (xr s r + of_nat (m * stride r + i)) = mem s (xr s r + of_nat (m * stride r + i))"
proof -
  let ?j = "m * stride r + i" and ?i = "unat (xr s r + of_nat (m * stride r + i) - xr s d)"
  have "\<not> ?i < m * stride d"
  proof
    assume i: "?i < m * stride d"
    have "xr s d + of_nat ?i = xr s r + of_nat ?j" by simp
    moreover have "?i div stride d < ?j div stride r"
      using i assms(4) stride_pos by (simp add: less_mult_imp_div_less)
    moreover have "?i < Suc m * stride d" "?j < Suc m * stride r" using i assms(4) by simp_all
    ultimately show False using assms(1,3) unfolding no_clobber_def clear_of_def by blast
  qed
  then show ?thesis by (simp add: assms(5) store_def)
qed

text \<open>The memory after \<open>m\<close> iterations.\<close>

lemma mem_steps:
  assumes "no_clobber s m" "m * stride d \<le> 2 ^ LENGTH('l)"
  shows "mem ((step ^^ m) s) = store (m * stride d) (xr s d) (written s) (mem s)"
  using assms
proof (induction m)
  case 0
  then show ?case by (simp add: store_def)
next
  case (Suc m)
  let ?t = "(step ^^ m) s"
  have le: "m * stride d \<le> 2 ^ LENGTH('l)" "m * stride d + stride d \<le> 2 ^ LENGTH('l)" using Suc.prems(2) by simp_all
  have IH: "mem ?t = store (m * stride d) (xr s d) (written s) (mem s)"
    using Suc.IH no_clobber_Suc [OF Suc.prems(1)] le(1) by blast
  have xd: "xr ?t d = xr s d + of_nat (m * stride d)" by (simp add: step_regs)
  have w: "g (vr ?t) (\<lambda>r i. mem ?t (xr ?t r + of_nat i)) k = written s (m * stride d + k)" if "k < stride d" for k
  proof -
    have "(m * stride d + k) div stride d = m" "(m * stride d + k) mod stride d = k"
      using that stride_pos(1) by simp_all
    then show ?thesis unfolding written_def
    proof (simp only:, intro g_cong)
    fix r i assume r: "r \<in> srcs" and i: "i < stride r"
    show "mem ?t (xr ?t r + of_nat i) = mem s (xr s r + of_nat (m * stride r + i))"
      using source_untouched [OF Suc.prems(1) le(1) r i IH] r by (simp add: step_regs add.assoc)
    qed (use that in \<open>simp_all add: step_regs\<close>)
  qed
  have "mem (step ?t) a = store (Suc m * stride d) (xr s d) (written s) (mem s) a" for a
  proof -
    have e: "a - xr ?t d = (a - xr s d) - of_nat (m * stride d)" by (simp add: xd)
    show ?thesis
    proof (cases "unat (a - xr ?t d) < stride d")
      case True
      then have k: "m * stride d \<le> unat (a - xr s d)" "unat (a - xr s d) < m * stride d + stride d"
        unfolding e using unat_minus_lt [OF le(2)] by blast+
      then have "unat (a - xr ?t d) = unat (a - xr s d) - m * stride d"
        unfolding e by (intro unat_minus_of_nat)
      then have "mem (step ?t) a = written s (unat (a - xr s d))"
        using True k(1) w by (simp add: step_simps mem_body store_def)
      then show ?thesis using k(2) by (simp add: store_def)
    next
      case False
      then have "\<not> (m * stride d \<le> unat (a - xr s d) \<and> unat (a - xr s d) < m * stride d + stride d)"
        unfolding e using unat_minus_lt [OF le(2)] by blast
      then show ?thesis using False by (auto simp: step_simps mem_body store_def IH)
    qed
  qed
  then show ?case by auto
qed

text \<open>Whatever overlaps, nothing beyond the blocks is written.\<close>

lemma mem_frame:
  assumes "m * stride d \<le> unat (a - xr s d)" "k \<le> m"
  shows "mem ((step ^^ k) s) a = mem s a"
  using assms(2)
proof (induction k)
  case (Suc k)
  let ?t = "(step ^^ k) s"
  have "Suc k * stride d \<le> m * stride d" using Suc.prems by (intro mult_le_mono1)
  then have ge: "k * stride d + stride d \<le> unat (a - xr s d)" using assms(1) by simp
  have e: "a - xr ?t d = (a - xr s d) - of_nat (k * stride d)" by (simp add: step_regs)
  have "unat (a - xr ?t d) = unat (a - xr s d) - k * stride d"
    unfolding e using ge by (intro unat_minus_of_nat) linarith
  then have "\<not> unat (a - xr ?t d) < stride d" using ge by linarith
  then show ?case using Suc by (simp add: step_simps mem_body store_def)
qed simp

lemma loop_frame:
  assumes "iters (xr s n) * stride d \<le> unat (a - xr s d)"
  shows "\<exists>t. bne_loop body n s = Some t \<and> mem t a = mem s a"
proof -
  have "sub_x n 1 \<circ> body = step" by (simp add: fun_eq_iff step_def)
  then show ?thesis using mem_frame [OF assms order_refl] bne_loop_eq [OF xr_count, of s] by simp
qed

text \<open>The loop over the blocks: it ends, and the memory it leaves.\<close>

lemma loop_mem:
  assumes "no_clobber s (iters (xr s n))" "iters (xr s n) * stride d \<le> 2 ^ LENGTH('l)"
  shows "\<exists>t. bne_loop body n s = Some t \<and>
    mem t = store (iters (xr s n) * stride d) (xr s d) (written s) (mem s)"
proof -
  have "sub_x n 1 \<circ> body = step" by (simp add: fun_eq_iff step_def)
  then show ?thesis using mem_steps [OF assms] bne_loop_eq [OF xr_count, of s] by simp
qed

end

end
