(* ===== verification/Neon_Kernels.thy ===== *)
theory Neon_Kernels
  imports Neon_Machine
begin

unbundle bit_operations_syntax

text \<open>
  The functions of \<^verbatim>\<open>core/neon64.S\<close>, instruction by instruction. A function takes the machine
  state with its arguments in the registers and returns the state at its \<^verbatim>\<open>ret\<close>; the bodies of the
  loops are interpretations of \<open>block_kernel\<close>, which gives the memory each function leaves.
\<close>

definition exec :: "(cpu \<Rightarrow> cpu) list \<Rightarrow> cpu \<Rightarrow> cpu" where
  "exec is s = fold (\<lambda>i. i) is s"

lemma exec_simps [simp]: "exec [] s = s" "exec (i # is) s = exec is (i s)"
  by (simp_all add: exec_def)

subsection \<open>Thresholds\<close>

definition thresh_body :: "cpu \<Rightarrow> cpu" where
  "thresh_body = exec [ldr_q 0 0, v2 cmhi8 1 0 3, v2 (AND) 2 1 0, str_q 2 1]"

definition memcpy_threshold_asm :: "cpu \<Rightarrow> cpu option" where
  "memcpy_threshold_asm s = bne_loop thresh_body 2 (exec [lsr_w 2 4, dup16 3 3] s)"

definition thresh_bin_body :: "cpu \<Rightarrow> cpu" where
  "thresh_bin_body = exec [ldr_q 0 1, v2 cmhi8 1 0 3, str_q 1 0]"

definition memcpy_threshold_binary_asm :: "cpu \<Rightarrow> cpu option" where
  "memcpy_threshold_binary_asm s = bne_loop thresh_bin_body 2 (exec [lsr_w 2 4, dup8 3 3] s)"

subsection \<open>Comparison and weighted subtraction\<close>

definition cmp3_add_body :: "cpu \<Rightarrow> cpu" where
  "cmp3_add_body = exec
     [ldr_q 0 0, ldr_q 1 1, ldr_q 2 2, ldr_q 3 3,
      v2 cmhi8 1 0 1, v2 cmhi8 2 0 2, v2 (AND) 1 1 2, v2 (AND) 2 0 1, v1 (drop_bit 6) 1 2,
      v1 uminus 1 1, v2 uqshl8 2 0 1, v1 (\<lambda>a. uqshl8 a 4) 2 2, v2 uqadd8 3 2 3,
      str_q 3 4]"

definition memcpy_compare3_add_asm :: "cpu \<Rightarrow> cpu option" where
  "memcpy_compare3_add_asm s = bne_loop cmp3_add_body 5 (exec [lsr_w 5 4] s)"

definition wst_body :: "cpu \<Rightarrow> cpu" where
  "wst_body = exec
     [ldr_q 0 0, ldr_q 1 1, ldr_q 2 2,
      v2 ushl8 1 1 4, v2 ushl8 2 2 5, v2 uqadd8 3 1 2, v2 uqadd8 3 3 6, v2 uqsub8 3 0 3,
      str_q 3 1]"

definition memcpy_wst_asm :: "cpu \<Rightarrow> cpu option" where
  "memcpy_wst_asm s = bne_loop wst_body 4 (exec
     [dup16 4 5, v1 clz8 4 4, v1 uminus 4 4, dup16 5 6, v1 clz8 5 5, v1 uminus 5 5, dup16 6 7, lsr_x 4 4] s)"

text \<open>The three loops of \<^verbatim>\<open>memcpy_deinterlace_wstb_asm\<close> differ in the channel that is primary.\<close>

definition c0_body :: "cpu \<Rightarrow> cpu" where
  "c0_body = exec [ld3 0 0, v2 ushl8 1 1 4, v2 ushl8 2 2 5, v2 uqadd8 3 1 2, v2 uqsub8 3 0 3,
     v2 cmhi8 3 3 6, str_q 3 1]"

definition c1_body :: "cpu \<Rightarrow> cpu" where
  "c1_body = exec [ld3 0 0, v2 ushl8 2 2 4, v2 ushl8 0 0 5, v2 uqadd8 3 2 0, v2 uqsub8 3 1 3,
     v2 cmhi8 3 3 6, str_q 3 1]"

definition c2_body :: "cpu \<Rightarrow> cpu" where
  "c2_body = exec [ld3 0 0, v2 ushl8 0 0 4, v2 ushl8 1 1 5, v2 uqadd8 3 0 1, v2 uqsub8 3 2 3,
     v2 cmhi8 3 3 6, str_q 3 1]"

definition memcpy_deinterlace_wstb_asm :: "cpu \<Rightarrow> cpu option" where
  "memcpy_deinterlace_wstb_asm s =
     (let s = exec [dup16 4 4, v1 clz8 4 4, v1 uminus 4 4, dup16 5 5, v1 clz8 5 5, v1 uminus 5 5,
                    dup16 6 6, lsr_x 2 4] s
      in if sint (xr s 3) < 1 then bne_loop c0_body 2 s
         else if xr s 3 = 1 then bne_loop c1_body 2 s
         else bne_loop c2_body 2 s)"

subsection \<open>Conversion to gray\<close>

definition gray_arith :: "(cpu \<Rightarrow> cpu) list" where
  "gray_arith = [v1 (drop_bit 2) 0 0, v1 (drop_bit 1) 1 1, v1 (drop_bit 2) 2 2, v2 uqadd8 3 0 1, v2 uqadd8 3 2 3]"

definition gray_body :: "cpu \<Rightarrow> cpu" where
  "gray_body = exec ([ld3 0 0] @ gray_arith @ [str_q 3 1])"

text \<open>\<^verbatim>\<open>ld3 {v0.b - v2.b}[0], [x0], #3\<close> and \<^verbatim>\<open>st1 {v2.b}[0], [x1], #1\<close>\<close>

definition ld3_lane0 :: "nat \<Rightarrow> nat \<Rightarrow> cpu \<Rightarrow> cpu" where
  "ld3_lane0 q n s = set_x n (xr s n + 3)
     (set_v q ((vr s q)(0 := mem s (xr s n)))
     (set_v (q + 1) ((vr s (q + 1))(0 := mem s (xr s n + 1)))
     (set_v (q + 2) ((vr s (q + 2))(0 := mem s (xr s n + 2))) s)))"

definition st1_lane0 :: "nat \<Rightarrow> nat \<Rightarrow> cpu \<Rightarrow> cpu" where
  "st1_lane0 q n s = set_x n (xr s n + 1) (s\<lparr>mem := (mem s)(xr s n := vr s q 0)\<rparr>)"

definition gray_single_body :: "cpu \<Rightarrow> cpu" where
  "gray_single_body = exec ([ld3_lane0 0 0] @ gray_arith @ [st1_lane0 2 1])"

partial_function (option) togray_loop :: "cpu \<Rightarrow> cpu option" where
  "togray_loop s =
     (let s' = sub_x 2 16 (gray_body s) in
      if xr s' 2 = 0 then Some s'
      else if xr s' 2 \<ge> 16 then togray_loop s'
      else bne_loop gray_single_body 2 s')"

definition memcpy_deinterlace_togray_asm :: "cpu \<Rightarrow> cpu option" where
  "memcpy_deinterlace_togray_asm s =
     (if xr s 2 < 16 then bne_loop gray_single_body 2 s else togray_loop s)"

subsection \<open>Or, sum and difference\<close>

definition or_body :: "cpu \<Rightarrow> cpu" where
  "or_body = exec [ldr_q 0 0, ldr_q 1 1, v2 (OR) 2 0 1, str_q 2 2]"

definition memcpy_bitwise_or_asm :: "cpu \<Rightarrow> cpu option" where
  "memcpy_bitwise_or_asm s = bne_loop or_body 3 (exec [lsr_x 3 4] s)"

definition or_3c_body :: "cpu \<Rightarrow> cpu" where
  "or_3c_body = exec [ld3 0 0, ldr_q 3 1, v2 (OR) 0 0 3, v2 (OR) 1 1 3, v2 (OR) 2 2 3, st3 0 2]"

text \<open>The branch at the end of this loop goes to the loop of \<^verbatim>\<open>memcpy_bitwise_or_asm\<close>.\<close>

definition memcpy_bitwise_or_3c_asm :: "cpu \<Rightarrow> cpu option" where
  "memcpy_bitwise_or_3c_asm s =
     (let s' = sub_x 3 1 (or_3c_body (exec [lsr_x 3 4] s)) in
      if xr s' 3 \<noteq> 0 then bne_loop or_body 3 s' else Some s')"

definition add_body :: "cpu \<Rightarrow> cpu" where
  "add_body = exec [ldr_q 0 0, ldr_q 1 1, v2 uqadd8 2 0 1, str_q 2 2]"

definition memcpy_add_asm :: "cpu \<Rightarrow> cpu option" where
  "memcpy_add_asm s = bne_loop add_body 3 (exec [lsr_x 3 4] s)"

definition add_3c_body :: "cpu \<Rightarrow> cpu" where
  "add_3c_body = exec [ld3 0 0, ldr_q 3 1, v2 uqadd8 0 0 3, v2 uqadd8 1 1 3, v2 uqadd8 2 2 3, st3 0 2]"

definition memcpy_add_3c_asm :: "cpu \<Rightarrow> cpu option" where
  "memcpy_add_3c_asm s = bne_loop add_3c_body 3 (exec [lsr_x 3 4] s)"

definition add_3c2_body :: "cpu \<Rightarrow> cpu" where
  "add_3c2_body = exec [ld3 0 0, ld3 3 1, v2 uqadd8 0 0 3, v2 uqadd8 1 1 4, v2 uqadd8 2 2 5, st3 0 2]"

text \<open>The branch at the end of this loop goes to the loop of \<^verbatim>\<open>memcpy_add_3c_asm\<close>.\<close>

definition memcpy_add_3c2_asm :: "cpu \<Rightarrow> cpu option" where
  "memcpy_add_3c2_asm s =
     (let s' = sub_x 3 1 (add_3c2_body (exec [lsr_x 3 4] s)) in
      if xr s' 3 \<noteq> 0 then bne_loop add_3c_body 3 s' else Some s')"

definition subtract_body :: "cpu \<Rightarrow> cpu" where
  "subtract_body = exec [ldr_q 0 0, ldr_q 1 1, v2 uqsub8 2 0 1, str_q 2 2]"

definition memcpy_subtract_asm :: "cpu \<Rightarrow> cpu option" where
  "memcpy_subtract_asm s = bne_loop subtract_body 3 (exec [lsr_x 3 4] s)"

subsection \<open>The bodies are block kernels\<close>

lemma store_cong: "(\<And>k. k < len \<Longrightarrow> f k = f' k) \<Longrightarrow> store len p f m = store len p f' m"
  by (simp add: store_def fun_eq_iff)

interpretation thresh: block_kernel thresh_body "{0}" "\<lambda>r. 16" 1 2 "{3}"
  "\<lambda>c u k. cmhi8 (u 0 k) (c 3 k) AND u 0 k"
  by unfold_locales (auto simp: thresh_body_def instr_defs)

interpretation thresh_bin: block_kernel thresh_bin_body "{1}" "\<lambda>r. 16" 0 2 "{3}"
  "\<lambda>c u k. cmhi8 (u 1 k) (c 3 k)"
  by unfold_locales (auto simp: thresh_bin_body_def instr_defs)

interpretation or_k: block_kernel or_body "{0, 1}" "\<lambda>r. 16" 2 3 "{}" "\<lambda>c u k. u 0 k OR u 1 k"
  by unfold_locales (auto simp: or_body_def instr_defs)

interpretation add_k: block_kernel add_body "{0, 1}" "\<lambda>r. 16" 2 3 "{}" "\<lambda>c u k. uqadd8 (u 0 k) (u 1 k)"
  by unfold_locales (auto simp: add_body_def instr_defs)

interpretation sub_k: block_kernel subtract_body "{0, 1}" "\<lambda>r. 16" 2 3 "{}" "\<lambda>c u k. uqsub8 (u 0 k) (u 1 k)"
  by unfold_locales (auto simp: subtract_body_def instr_defs)


text \<open>What the comparison kernel computes for one pixel: the primary value, shifted right by its top
  two bits if it is the greatest of the three and not at all otherwise, then shifted left by four with
  saturation, and added to the fourth operand.\<close>

definition cmp3_pixel :: "byte \<Rightarrow> byte \<Rightarrow> byte \<Rightarrow> byte \<Rightarrow> byte" where
  "cmp3_pixel p a b e = uqadd8 (uqshl8 (uqshl8 p (- drop_bit 6 (p AND (cmhi8 p a AND cmhi8 p b)))) 4) e"

interpretation cmp3: block_kernel cmp3_add_body "{0, 1, 2, 3}" "\<lambda>r. 16" 4 5 "{}"
  "\<lambda>c u k. cmp3_pixel (u 0 k) (u 1 k) (u 2 k) (u 3 k)"
  by unfold_locales (auto simp: cmp3_add_body_def cmp3_pixel_def instr_defs)

abbreviation stride3 :: "nat \<Rightarrow> nat" where
  "stride3 r \<equiv> (if r = 1 then 16 else 48)"

lemma interleave: "3 * (k div 3) + k mod 3 = (k :: nat)"
  by presburger

lemma interleave_addr:
  "of_nat (k mod 3) + of_nat (3 * (k div 3)) = (of_nat k :: addr)"
  by (metis add.commute interleave of_nat_add)

lemma mod3_cases: "k mod 3 = 0 \<or> k mod 3 = 1 \<or> k mod 3 = (2 :: nat)"
  by presburger

interpretation add3: block_kernel add_3c_body "{0, 1}" stride3 2 3 "{}"
  "\<lambda>c u k. uqadd8 (u 0 k) (u 1 (k div 3))"
proof unfold_locales
  fix s :: cpu
  let ?f = "\<lambda>k. vr (exec [ld3 0 0, ldr_q 3 1, v2 uqadd8 0 0 3, v2 uqadd8 1 1 3, v2 uqadd8 2 2 3] s) (k mod 3) (k div 3)"
  have "?f k = uqadd8 (mem s (xr s 0 + of_nat k)) (mem s (xr s 1 + of_nat (k div 3)))" for k
    using mod3_cases [of k] interleave_addr [of k]
    by (elim disjE) (simp_all add: instr_defs del: of_nat_mult)
  then show "mem (add_3c_body s) = store (stride3 2) (xr s 2) (\<lambda>k. uqadd8 (mem s (xr s 0 + of_nat k))
      (mem s (xr s 1 + of_nat (k div 3)))) (mem s)"
    by (simp add: add_3c_body_def instr_defs)
qed (auto simp: add_3c_body_def instr_defs)

text \<open>The byte that the weighted subtraction with threshold writes: \<open>p\<close> less the weighted channels
  \<open>a\<close> and \<open>b\<close>, compared with \<open>t\<close>. The weights are powers of two: a weight \<open>w\<close> shifts its channel right
  by the number of leading zeros of \<open>w\<close>.\<close>

definition weight :: "byte \<Rightarrow> byte \<Rightarrow> byte" where
  "weight w a = ushl8 a (- clz8 w)"

definition wstb_pixel :: "byte \<Rightarrow> byte \<Rightarrow> byte \<Rightarrow> byte \<Rightarrow> byte \<Rightarrow> byte \<Rightarrow> byte" where
  "wstb_pixel al be t p a b = cmhi8 (uqsub8 p (uqadd8 (weight al a) (weight be b))) t"

text \<open>Strides of the functions that read three channels and write one.\<close>

abbreviation stride31 :: "nat \<Rightarrow> nat" where
  "stride31 r \<equiv> (if r = 0 then 48 else 16)"

interpretation c0: block_kernel c0_body "{0}" stride31 1 2 "{4, 5, 6}"
  "\<lambda>c u k. cmhi8 (uqsub8 (u 0 (3 * k)) (uqadd8 (ushl8 (u 0 (3 * k + 1)) (c 4 k)) (ushl8 (u 0 (3 * k + 2)) (c 5 k)))) (c 6 k)"
  by unfold_locales (auto simp: c0_body_def instr_defs)

interpretation c1: block_kernel c1_body "{0}" stride31 1 2 "{4, 5, 6}"
  "\<lambda>c u k. cmhi8 (uqsub8 (u 0 (3 * k + 1)) (uqadd8 (ushl8 (u 0 (3 * k + 2)) (c 4 k)) (ushl8 (u 0 (3 * k)) (c 5 k)))) (c 6 k)"
  by unfold_locales (auto simp: c1_body_def instr_defs)

interpretation c2: block_kernel c2_body "{0}" stride31 1 2 "{4, 5, 6}"
  "\<lambda>c u k. cmhi8 (uqsub8 (u 0 (3 * k + 2)) (uqadd8 (ushl8 (u 0 (3 * k)) (c 4 k)) (ushl8 (u 0 (3 * k + 1)) (c 5 k)))) (c 6 k)"
  by unfold_locales (auto simp: c2_body_def instr_defs)

definition gray_pixel :: "byte \<Rightarrow> byte \<Rightarrow> byte \<Rightarrow> byte" where
  "gray_pixel a b c = uqadd8 (drop_bit 2 c) (uqadd8 (drop_bit 2 a) (drop_bit 1 b))"

interpretation gray: block_kernel gray_body "{0}" stride31 1 2 "{}"
  "\<lambda>c u k. gray_pixel (u 0 (3 * k)) (u 0 (3 * k + 1)) (u 0 (3 * k + 2))"
  by unfold_locales (auto simp: gray_body_def gray_arith_def gray_pixel_def instr_defs)


lemma store_one:
  fixes p :: addr
  shows "store 1 p f m = m(p := f 0)"
proof -
  have "unat (a - p) < 1 \<longleftrightarrow> a = p" for a :: addr by (simp add: unat_eq_0)
  then show ?thesis by (auto simp: store_def fun_eq_iff)
qed

text \<open>The loop for single pixels stores the third channel, already divided, and not the sum.\<close>

interpretation gray1: block_kernel gray_single_body "{0}" "\<lambda>r. if r = 0 then 3 else 1" 1 2 "{}"
  "\<lambda>c u k. drop_bit 2 (u 0 2)"
proof unfold_locales
  fix s :: cpu
  show "mem (gray_single_body s) = store (if (1 :: nat) = 0 then 3 else 1) (xr s 1)
      (\<lambda>k. drop_bit 2 (mem s (xr s 0 + of_nat 2))) (mem s)"
    using store_one [of "xr s 1" "\<lambda>k. drop_bit 2 (mem s (xr s 0 + of_nat 2))" "mem s"]
    by (simp add: gray_single_body_def gray_arith_def ld3_lane0_def st1_lane0_def instr_defs)
qed (auto simp: gray_single_body_def gray_arith_def ld3_lane0_def st1_lane0_def instr_defs)

end
