(* ===== verification/Neon_Props.thy ===== *)
theory Neon_Props
  imports Neon_Kernels
begin

unbundle bit_operations_syntax

text \<open>
  What the functions of \<^verbatim>\<open>core/neon64.S\<close> compute. A pixel count of \<open>n\<close> gives \<open>n div 16\<close>
  iterations; \<open>store len p f m\<close> is the memory \<open>m\<close> with the \<open>len\<close> bytes at \<open>p\<close> replaced by \<open>f\<close>, so the
  statements also say what is left unchanged.
\<close>

lemma iters_lsr: "16 \<le> n \<Longrightarrow> n < 2 ^ 64 \<Longrightarrow> iters (drop_bit 4 (of_nat n :: addr)) = n div 16"
proof -
  assume n: "16 \<le> n" "n < 2 ^ 64"
  have u: "unat (drop_bit 4 (of_nat n :: addr)) = n div 16"
    using n by (simp add: drop_bit_eq_div unat_div_distrib unat_of_nat_64)
  then have "drop_bit 4 (of_nat n :: addr) \<noteq> 0"
    using n by (metis div_greater_zero_iff less_irrefl unsigned_0 zero_less_numeral)
  then show ?thesis by (simp add: iters_def u)
qed

lemma iters_lsr_w: "16 \<le> n \<Longrightarrow> n < 2 ^ 32 \<Longrightarrow> iters (drop_bit 4 (take_bit 32 (of_nat n :: addr))) = n div 16"
  using iters_lsr [of n] by (simp add: take_bit_of_nat take_bit_nat_eq_self)

lemma block_bound:
  fixes n b :: nat
  assumes "n < 2 ^ 60" "b \<le> 48" shows "n div 16 * b \<le> 2 ^ LENGTH(64)"
proof -
  have "n div 16 * b \<le> n div 16 * 48" using assms(2) by simp
  also have "\<dots> \<le> n * 3" by linarith
  finally show ?thesis using assms(1) by simp
qed

lemma div_mult_mod16: "i div 16 * 16 + i mod 16 = (i :: nat)"
  by simp

subsection \<open>Or, sum and difference\<close>

lemma add_or_sub_mem:
  assumes "xr s 3 = of_nat n" "16 \<le> n" "n < 2 ^ 31"
    and "clear_of (xr s 2) 16 (xr s 0) 16 (n div 16)" "clear_of (xr s 2) 16 (xr s 1) 16 (n div 16)"
  shows "\<exists>t t' t''. memcpy_add_asm s = Some t \<and> memcpy_bitwise_or_asm s = Some t' \<and> memcpy_subtract_asm s = Some t''
    \<and> mem t = store (n div 16 * 16) (xr s 2)
        (\<lambda>i. uqadd8 (mem s (xr s 0 + of_nat i)) (mem s (xr s 1 + of_nat i))) (mem s)
    \<and> mem t' = store (n div 16 * 16) (xr s 2)
        (\<lambda>i. mem s (xr s 0 + of_nat i) OR mem s (xr s 1 + of_nat i)) (mem s)
    \<and> mem t'' = store (n div 16 * 16) (xr s 2)
        (\<lambda>i. uqsub8 (mem s (xr s 0 + of_nat i)) (mem s (xr s 1 + of_nat i))) (mem s)"
proof -
  let ?s = "exec [lsr_x 3 4] s"
  have x: "xr ?s 3 = drop_bit 4 (of_nat n)" "xr ?s 0 = xr s 0" "xr ?s 1 = xr s 1" "xr ?s 2 = xr s 2" "mem ?s = mem s"
    using assms(1) by (simp_all add: lsr_x_def)
  have i0: "iters (drop_bit 4 (of_nat n :: addr)) = n div 16" using assms(2,3) by (intro iters_lsr) simp_all
  then have i: "iters (xr ?s 3) = n div 16" by (simp only: x)
  have b: "n div 16 * 16 \<le> 2 ^ LENGTH(64)" using assms(3) by (intro block_bound) simp_all
  have c: "\<forall>r \<in> {0, 1}. clear_of (xr ?s 2) 16 (xr ?s r) 16 (iters (xr ?s 3))" 
    unfolding i using assms(4,5) by (auto simp: lsr_x_def)
  note cb = c [folded add_k.no_clobber_def] c [folded or_k.no_clobber_def] c [folded sub_k.no_clobber_def]
    b [folded i]
  show ?thesis
    using add_k.loop_mem [OF cb(1) cb(4)] or_k.loop_mem [OF cb(2) cb(4)] sub_k.loop_mem [OF cb(3) cb(4)]
    unfolding memcpy_add_asm_def memcpy_bitwise_or_asm_def memcpy_subtract_asm_def
      add_k.written_def or_k.written_def sub_k.written_def x i0 div_mult_mod16 by blast
qed


text \<open>C20: The kernels for the bitwise or, the saturating sum and the saturating difference of two
  one-channel frames. With at least 16 pixels each ends and sets every pixel of the destination up to
  the last full group of 16 to the operation of the two source pixels; the pixels of an incomplete
  last group, and all other memory, keep their values. The destination may be one of the sources.\<close>

theorem binary_kernels_pixelwise:
  assumes "xr s 3 = of_nat n" "16 \<le> n" "n < 2 ^ 31"
    and "clear_of (xr s 2) 16 (xr s 0) 16 (n div 16)" "clear_of (xr s 2) 16 (xr s 1) 16 (n div 16)"
  shows "\<exists>t t' t''. memcpy_add_asm s = Some t \<and> memcpy_bitwise_or_asm s = Some t' \<and> memcpy_subtract_asm s = Some t''
    \<and> mem t = store (n div 16 * 16) (xr s 2)
        (\<lambda>i. uqadd8 (mem s (xr s 0 + of_nat i)) (mem s (xr s 1 + of_nat i))) (mem s)
    \<and> mem t' = store (n div 16 * 16) (xr s 2)
        (\<lambda>i. mem s (xr s 0 + of_nat i) OR mem s (xr s 1 + of_nat i)) (mem s)
    \<and> mem t'' = store (n div 16 * 16) (xr s 2)
        (\<lambda>i. uqsub8 (mem s (xr s 0 + of_nat i)) (mem s (xr s 1 + of_nat i))) (mem s)"
  by (rule add_or_sub_mem [OF assms])

text \<open>A memory with two buffers of one block, for the examples: byte \<open>i\<close> at \<open>i\<close>, from address 16 on 250.\<close>

definition demo_mem :: "addr \<Rightarrow> byte" where
  "demo_mem a = (if a < 16 then ucast a else 250)"

definition demo_cpu :: "(nat \<Rightarrow> addr) \<Rightarrow> cpu" where
  "demo_cpu f = \<lparr>xr = f, vr = (\<lambda>q i. 0), mem = demo_mem\<rparr>"

theorem binary_kernels_pixelwise_witness:
  "\<exists>t. memcpy_add_asm (demo_cpu ((\<lambda>r. 0)(1 := 16, 2 := 32, 3 := 17))) = Some t
     \<and> mem t 34 = 252 \<and> mem t 47 = 255 \<and> mem t 48 = 250"
proof -
  let ?s = "demo_cpu ((\<lambda>r. 0)(1 := 16, 2 := 32, 3 := 17))"
  have "\<exists>t. memcpy_add_asm ?s = Some t \<and> mem t = store 16 32
      (\<lambda>i. uqadd8 (mem ?s (of_nat i)) (mem ?s (16 + of_nat i))) (mem ?s)"
    using binary_kernels_pixelwise [of ?s 17] by (auto simp: demo_cpu_def)
  then show ?thesis by (auto simp: store_def uqadd8_def demo_cpu_def demo_mem_def)
qed


subsection \<open>Thresholds\<close>

lemma and_255: "(255 :: byte) AND a = a"
proof -
  have "(255 :: byte) = - 1" by simp
  then show ?thesis by (metis and.left_neutral)
qed

lemma cmhi8_and: "cmhi8 a b AND a = (if b < a then a else 0)"
  by (simp add: cmhi8_def and_255)

text \<open>The threshold kernel keeps every pixel of the source that is greater than the threshold
  and sets the others to 0, for all full groups of 16 pixels, and changes nothing else.\<close>

theorem threshold_pixelwise:
  assumes "take_bit 32 (xr s 2) = of_nat n" "16 \<le> n" "n < 2 ^ 31"
    and "clear_of (xr s 1) 16 (xr s 0) 16 (n div 16)"
  shows "\<exists>t. memcpy_threshold_asm s = Some t \<and>
    mem t = store (n div 16 * 16) (xr s 1)
      (\<lambda>i. let p = mem s (xr s 0 + of_nat i) in if ucast (xr s 3) < p then p else 0) (mem s)"
proof -
  let ?s = "exec [lsr_w 2 4, dup16 3 3] s"
  have x: "xr ?s 2 = drop_bit 4 (of_nat n)" "xr ?s 0 = xr s 0" "xr ?s 1 = xr s 1" "mem ?s = mem s"
    "vr ?s 3 = (\<lambda>i. ucast (xr s 3))"
    using assms(1) by (simp_all add: lsr_w_def dup16_def)
  have i0: "iters (drop_bit 4 (of_nat n :: addr)) = n div 16" using assms(2,3) by (intro iters_lsr) simp_all
  have c: "thresh.no_clobber ?s (iters (xr ?s 2))"
    using assms(4) unfolding thresh.no_clobber_def x i0 by (simp add: x del: exec_simps)
  have "iters (xr ?s 2) * 16 \<le> 2 ^ LENGTH(64)" unfolding x i0 using assms(3) by (intro block_bound) simp_all
  from thresh.loop_mem [OF c this] show ?thesis
    unfolding memcpy_threshold_asm_def thresh.written_def x i0 div_mult_mod16 unfolding cmhi8_and Let_def .
qed

theorem threshold_pixelwise_witness:
  "\<exists>t. memcpy_threshold_asm (demo_cpu ((\<lambda>r. 0)(1 := 32, 2 := 16, 3 := 10))) = Some t
     \<and> mem t 42 = 0 \<and> mem t 43 = 11"
proof -
  let ?s = "demo_cpu ((\<lambda>r. 0)(1 := 32, 2 := 16, 3 := 10))"
  have "\<exists>t. memcpy_threshold_asm ?s = Some t \<and> mem t = store 16 32
      (\<lambda>i. let p = mem ?s (of_nat i) in if 10 < p then p else 0) (mem ?s)"
    using threshold_pixelwise [of ?s 16] by (auto simp: demo_cpu_def)
  then show ?thesis by (auto simp: store_def demo_cpu_def demo_mem_def)
qed

lemma wst_body_simps:
  "xr (wst_body s) 4 = xr s 4" "xr (wst_body s) 1 = xr s 1 + 32"
  "unat (a - (xr s 1 + 16)) \<ge> 16 \<Longrightarrow> mem (wst_body s) a = mem s a"
  by (simp_all add: wst_body_def instr_defs store_def)

definition wst_step :: "cpu \<Rightarrow> cpu" where
  "wst_step s = sub_x 4 1 (wst_body s)"

lemma wst_step_simps:
  "xr (wst_step s) 1 = xr s 1 + 32" "unat (a - (xr s 1 + 16)) \<ge> 16 \<Longrightarrow> mem (wst_step s) a = mem s a"
  by (simp_all add: wst_step_def sub_x_def wst_body_simps [simplified])

lemma wst_steps:
  assumes "m * 32 \<le> unat (a - xr u 1)" "k \<le> m"
  shows "xr ((wst_step ^^ k) u) 1 = xr u 1 + of_nat (32 * k)
    \<and> mem ((wst_step ^^ k) u) a = mem u a"
  using assms(2)
proof (induction k)
  case (Suc k)
  let ?t = "(wst_step ^^ k) u"
  have IH: "xr ?t 1 = xr u 1 + of_nat (32 * k)" "mem ?t a = mem u a" using Suc by simp_all
  have ge: "32 * k + 32 \<le> unat (a - xr u 1)" using assms(1) Suc.prems by linarith
  have e: "a - (xr ?t 1 + 16) = (a - xr u 1) - of_nat (32 * k + 16)"
    unfolding IH(1) by (simp add: algebra_simps)
  have "16 \<le> unat (a - (xr ?t 1 + 16))"
    unfolding e using unat_minus_of_nat [of "32 * k + 16" "a - xr u 1"] ge by linarith
  then show ?case using IH wst_step_simps(1) [of ?t] wst_step_simps(2) [of a ?t] by (simp add: algebra_simps)
qed simp

text \<open>Two kernels store to the wrong buffer. The binary threshold reads its destination and
  overwrites its source, and compares the upper eight pixels of every group with 0 instead of the
  threshold; the weighted subtraction stores through the pointer of its second channel and never
  writes its destination (any address outside the \<open>32\<close> bytes per iteration at that channel keeps its
  value).\<close>

theorem misdirected_stores:
  assumes "take_bit 32 (xr s 2) = of_nat n" "16 \<le> n" "n < 2 ^ 31"
    and "clear_of (xr s 0) 16 (xr s 1) 16 (n div 16)"
    and "xr u 4 = of_nat n" "n div 16 * 32 \<le> unat (a - xr u 1)"
  shows "(\<exists>t. memcpy_threshold_binary_asm s = Some t \<and>
      mem t = store (n div 16 * 16) (xr s 0)
        (\<lambda>i. cmhi8 (mem s (xr s 1 + of_nat i)) (if i mod 16 < 8 then ucast (xr s 3) else 0)) (mem s))
    \<and> (\<exists>t. memcpy_wst_asm u = Some t \<and> mem t a = mem u a)"
proof
  let ?s = "exec [lsr_w 2 4, dup8 3 3] s"
  have x: "xr ?s 2 = drop_bit 4 (of_nat n)" "xr ?s 0 = xr s 0" "xr ?s 1 = xr s 1" "mem ?s = mem s"
    "vr ?s 3 = (\<lambda>i. if i < 8 then ucast (xr s 3) else 0)"
    using assms(1) by (simp_all add: lsr_w_def dup8_def cong: if_cong)
  have i0: "iters (drop_bit 4 (of_nat n :: addr)) = n div 16" using assms(2,3) by (intro iters_lsr) simp_all
  have c: "thresh_bin.no_clobber ?s (iters (xr ?s 2))"
    unfolding thresh_bin.no_clobber_def using assms(1,4) by (simp add: lsr_w_def dup8_def i0)
  have "iters (xr ?s 2) * 16 \<le> 2 ^ LENGTH(64)" unfolding x i0 using assms(3) by (intro block_bound) simp_all
  from thresh_bin.loop_mem [OF c this]
  show "\<exists>t. memcpy_threshold_binary_asm s = Some t \<and>
      mem t = store (n div 16 * 16) (xr s 0)
        (\<lambda>i. cmhi8 (mem s (xr s 1 + of_nat i)) (if i mod 16 < 8 then ucast (xr s 3) else 0)) (mem s)"
    unfolding memcpy_threshold_binary_asm_def thresh_bin.written_def x i0 div_mult_mod16 .
next
  have comp_wst: "wst_step = sub_x 4 1 \<circ> wst_body" by (simp add: fun_eq_iff wst_step_def)
  let ?u = "exec [dup16 4 5, v1 clz8 4 4, v1 uminus 4 4, dup16 5 6, v1 clz8 5 5, v1 uminus 5 5, dup16 6 7, lsr_x 4 4] u"
  have x: "xr ?u 4 = drop_bit 4 (of_nat n)" "xr ?u 1 = xr u 1" "mem ?u = mem u"
    using assms(5) by (simp_all add: instr_defs)
  have "iters (xr ?u 4) = n div 16" unfolding x using assms(2,3) by (intro iters_lsr) simp_all
  then show "\<exists>t. memcpy_wst_asm u = Some t \<and> mem t a = mem u a"
    using bne_loop_eq [of wst_body 4 ?u, folded comp_wst] wst_steps [of "n div 16" a ?u "n div 16"] assms(6)
    unfolding memcpy_wst_asm_def x by (simp add: wst_body_simps del: exec_simps)
qed


theorem misdirected_stores_witness:
  "(\<exists>t. memcpy_threshold_binary_asm (demo_cpu ((\<lambda>r. 0)(0 := 32, 2 := 16, 3 := 20))) = Some t \<and>
      mem t 39 = 0 \<and> mem t 41 = 255)
   \<and> (\<exists>t. memcpy_wst_asm (demo_cpu ((\<lambda>r. 0)(1 := 100, 3 := 200, 4 := 16))) = Some t \<and> mem t 200 = 250)"
proof -
  let ?s = "demo_cpu ((\<lambda>r. 0)(0 := 32, 2 := 16, 3 := 20))" and ?u = "demo_cpu ((\<lambda>r. 0)(1 := 100, 3 := 200, 4 := 16))"
  have "(\<exists>t. memcpy_threshold_binary_asm ?s = Some t \<and>
      mem t = store 16 32 (\<lambda>i. cmhi8 (mem ?s (of_nat i)) (if i mod 16 < 8 then 20 else 0)) (mem ?s))
    \<and> (\<exists>t. memcpy_wst_asm ?u = Some t \<and> mem t 200 = mem ?u 200)"
    using misdirected_stores [of ?s 16 ?u 200] by (simp add: demo_cpu_def cong: if_cong)
  then show ?thesis by (auto simp: store_def demo_cpu_def demo_mem_def cmhi8_def)
qed

subsection \<open>Three channels\<close>

lemma stride31_mod:
  fixes i :: nat
  shows "i div 16 * 16 + i mod 16 = i" "i div 16 * 48 + 3 * (i mod 16) = 3 * i"
proof -
  have "i div 16 * 48 + 3 * (i mod 16) = 3 * (i div 16 * 16 + i mod 16)" by (simp only: distrib_left)
  then show "i div 16 * 48 + 3 * (i mod 16) = 3 * i" by (simp only: div_mult_mod_eq)
qed simp

text \<open>C22: The segmentation kernel. For every pixel of the full groups of 16 it writes 255 where the
  primary channel, less the other two channels weighted with powers of two, is above the threshold,
  and 0 elsewhere; the channel after the primary one, cyclically, has the weight \<open>alpha\<close> and the other
  \<open>beta\<close>. Nothing else changes.\<close>

theorem wstb_pixelwise:
  assumes "xr s 2 = of_nat n" "16 \<le> n" "n < 2 ^ 31" "xr s 3 = of_nat p" "p < 3"
    and "clear_of (xr s 1) 16 (xr s 0) 48 (n div 16)"
  shows "\<exists>t. memcpy_deinterlace_wstb_asm s = Some t \<and>
    mem t = store (n div 16 * 16) (xr s 1) (\<lambda>i. let ch = (\<lambda>c. mem s (xr s 0 + of_nat (3 * i + c))) in
      wstb_pixel (ucast (xr s 4)) (ucast (xr s 5)) (ucast (xr s 6)) (ch p) (ch ((p + 1) mod 3)) (ch ((p + 2) mod 3)))
      (mem s)"
proof -
  let ?s = "exec [dup16 4 4, v1 clz8 4 4, v1 uminus 4 4, dup16 5 5, v1 clz8 5 5, v1 uminus 5 5, dup16 6 6, lsr_x 2 4] s"
  have x: "xr ?s 2 = drop_bit 4 (of_nat n)" "xr ?s 0 = xr s 0" "xr ?s 1 = xr s 1" "xr ?s 3 = of_nat p" "mem ?s = mem s"
    "vr ?s 4 = (\<lambda>i. - clz8 (ucast (xr s 4)))" "vr ?s 5 = (\<lambda>i. - clz8 (ucast (xr s 5)))" "vr ?s 6 = (\<lambda>i. ucast (xr s 6))"
    using assms(1,4) by (simp_all add: instr_defs)
  have i0: "iters (drop_bit 4 (of_nat n :: addr)) = n div 16" using assms(2,3) by (intro iters_lsr) simp_all
  have "clear_of (xr ?s 1) 16 (xr ?s 0) 48 (iters (xr ?s 2))" using assms(6) unfolding x i0 .
  then have c: "c0.no_clobber ?s (iters (xr ?s 2))" "c1.no_clobber ?s (iters (xr ?s 2))" "c2.no_clobber ?s (iters (xr ?s 2))"
    unfolding c0.no_clobber_def c1.no_clobber_def c2.no_clobber_def by simp_all
  have b: "iters (xr ?s 2) * stride31 1 \<le> 2 ^ LENGTH(64)" unfolding x i0 using assms(3) block_bound [of n 16] by simp
  note l = c0.loop_mem [OF c(1) b] c1.loop_mem [OF c(2) b] c2.loop_mem [OF c(3) b]
  have "p = 0 \<or> p = 1 \<or> p = 2" using assms(5) by linarith
  then show ?thesis
  proof (elim disjE)
    assume p: "p = 0"
    show ?thesis using l(1)
      unfolding memcpy_deinterlace_wstb_asm_def Let_def c0.written_def x i0
      by (simp add: p wstb_pixel_def weight_def stride31_mod add.assoc [symmetric] del: exec_simps of_nat_add of_nat_mult)
  next
    assume p: "p = 1"
    show ?thesis using l(2)
      unfolding memcpy_deinterlace_wstb_asm_def Let_def c1.written_def x i0
      by (simp add: p wstb_pixel_def weight_def stride31_mod add.assoc [symmetric] del: exec_simps of_nat_add of_nat_mult)
  next
    assume p: "p = 2"
    show ?thesis using l(3)
      unfolding memcpy_deinterlace_wstb_asm_def Let_def c2.written_def x i0
      by (simp add: p wstb_pixel_def weight_def stride31_mod add.assoc [symmetric] del: exec_simps of_nat_add of_nat_mult)
  qed
qed


lemma wstb_pixel_example: "wstb_pixel 1 1 5 250 250 15 = 255" "wstb_pixel 255 255 5 250 250 15 = 0"
  by (simp_all add: wstb_pixel_def weight_def clz8_def ushl8_def uqadd8_def uqsub8_def cmhi8_def)

theorem wstb_pixelwise_witness:
  "\<exists>t. memcpy_deinterlace_wstb_asm (demo_cpu ((\<lambda>r. 0)(1 := 100, 2 := 16, 3 := 1, 4 := 1, 5 := 1, 6 := 5))) = Some t
     \<and> mem t 105 = 255"
proof -
  let ?s = "demo_cpu ((\<lambda>r. 0)(1 := 100, 2 := 16, 3 := 1, 4 := 1, 5 := 1, 6 := 5))"
  from wstb_pixelwise [of ?s 16 1] obtain t where "memcpy_deinterlace_wstb_asm ?s = Some t"
    and "mem t 105 = wstb_pixel 1 1 5 250 250 15"
    by (auto simp: demo_cpu_def store_def demo_mem_def)
  then show ?thesis using wstb_pixel_example by simp
qed


lemma stride3_mod:
  fixes k :: nat
  shows "k div 48 * 48 + k mod 48 = k" "k div 48 * 16 + k mod 48 div 3 = k div 3"
proof -
  have "k mod 48 = 3 * (k div 3 mod 16) + k mod 3" using mod_mult2_eq [of k 3 16] by simp
  then have "k mod 48 div 3 = k div 3 mod 16" by simp
  moreover have "k div 48 = k div 3 div 16" using div_mult2_eq [of k 3 16] by simp
  ultimately show "k div 48 * 16 + k mod 48 div 3 = k div 3" by simp
qed simp

text \<open>C21: Combining a three-channel frame with a one-channel one. The sum adds pixel \<open>i\<close> of the second
  frame, with saturation, to all three channels of pixel \<open>i\<close> of the first. The bitwise or of the same
  shape closes its loop with a branch into the one-channel loop: from \<open>n\<close> pixels it writes only the
  first \<open>48 + 16 * (n div 16 - 1)\<close> of the \<open>48 * (n div 16)\<close> bytes, and everything after them keeps its
  value.\<close>

theorem three_channel_kernels:
  assumes "xr s 3 = of_nat n" "16 \<le> n" "n < 2 ^ 31"
    and "clear_of (xr s 2) 48 (xr s 0) 48 (n div 16)" "clear_of (xr s 2) 48 (xr s 1) 16 (n div 16)"
  shows "(\<exists>t. memcpy_add_3c_asm s = Some t \<and> mem t = store (n div 16 * 48) (xr s 2)
        (\<lambda>k. uqadd8 (mem s (xr s 0 + of_nat k)) (mem s (xr s 1 + of_nat (k div 3)))) (mem s))
    \<and> (32 \<le> n \<and> 48 + (n div 16 - 1) * 16 \<le> unat (a - xr s 2) \<longrightarrow>
        (\<exists>t. memcpy_bitwise_or_3c_asm s = Some t \<and> mem t a = mem s a))"
proof (intro conjI impI)
  let ?s = "exec [lsr_x 3 4] s"
  have x: "xr ?s 3 = drop_bit 4 (of_nat n)" "xr ?s 0 = xr s 0" "xr ?s 1 = xr s 1" "xr ?s 2 = xr s 2" "mem ?s = mem s"
    using assms(1) by (simp_all add: lsr_x_def)
  have i0: "iters (drop_bit 4 (of_nat n :: addr)) = n div 16" using assms(2,3) by (intro iters_lsr) simp_all
  have c: "add3.no_clobber ?s (iters (xr ?s 3))"
    unfolding add3.no_clobber_def using assms(1,4,5) by (simp add: lsr_x_def i0)
  have b: "iters (xr ?s 3) * stride3 2 \<le> 2 ^ LENGTH(64)" unfolding x i0 using assms(3) block_bound [of n 48] by simp
  from add3.loop_mem [OF c b] show "\<exists>t. memcpy_add_3c_asm s = Some t \<and> mem t = store (n div 16 * 48) (xr s 2)
        (\<lambda>k. uqadd8 (mem s (xr s 0 + of_nat k)) (mem s (xr s 1 + of_nat (k div 3)))) (mem s)"
    unfolding memcpy_add_3c_asm_def add3.written_def x i0 by (simp add: stride3_mod)
next
  assume n: "32 \<le> n \<and> 48 + (n div 16 - 1) * 16 \<le> unat (a - xr s 2)"
  let ?t = "sub_x 3 1 (or_3c_body (exec [lsr_x 3 4] s))"
  have "2 \<le> n div 16" using n by linarith
  have w: "drop_bit 4 (of_nat n :: addr) = of_nat (n div 16)"
    using assms(3) by (intro word_unat_eq_iff [THEN iffD2])
      (simp add: drop_bit_eq_div unat_div_distrib unat_of_nat_64)
  have t3: "xr ?t 3 = of_nat (n div 16 - 1)"
    using assms(1) w \<open>2 \<le> n div 16\<close> by (simp add: or_3c_body_def instr_defs of_nat_diff)
  have u: "unat (of_nat (n div 16 - 1) :: addr) = n div 16 - 1" using assms(3) by (intro unat_of_nat_64) simp
  then have t: "xr ?t 3 \<noteq> 0" "iters (xr ?t 3) = n div 16 - 1"
    using \<open>2 \<le> n div 16\<close> unfolding t3 by (auto simp: iters_def)
  have "xr ?t 2 = xr s 2 + of_nat 48" by (simp add: or_3c_body_def instr_defs)
  then have d: "a - xr ?t 2 = (a - xr s 2) - of_nat 48" by simp
  have "unat (a - xr ?t 2) = unat (a - xr s 2) - 48" unfolding d using n by (intro unat_minus_of_nat) linarith
  then have "iters (xr ?t 3) * 16 \<le> unat (a - xr ?t 2)" unfolding t(2) using n by linarith
  from or_k.loop_frame [OF this] obtain v where v: "bne_loop or_body 3 ?t = Some v" "mem v a = mem ?t a" by auto
  have "\<not> unat (a - xr s 2) < 48" using n by linarith
  then have "mem ?t a = mem s a" by (simp add: or_3c_body_def instr_defs store_def)
  then show "\<exists>t. memcpy_bitwise_or_3c_asm s = Some t \<and> mem t a = mem s a"
    using v t(1) by (simp add: memcpy_bitwise_or_3c_asm_def Let_def del: exec_simps)
qed


theorem three_channel_kernels_witness:
  "(\<exists>t. memcpy_add_3c_asm (demo_cpu ((\<lambda>r. 0)(1 := 2, 2 := 100, 3 := 16))) = Some t \<and> mem t 104 = 7)
   \<and> (\<exists>t. memcpy_bitwise_or_3c_asm (demo_cpu ((\<lambda>r. 0)(1 := 2, 2 := 100, 3 := 32))) = Some t \<and> mem t 164 = 250)"
proof -
  let ?s = "demo_cpu ((\<lambda>r. 0)(1 := 2, 2 := 100, 3 := 16))" and ?u = "demo_cpu ((\<lambda>r. 0)(1 := 2, 2 := 100, 3 := 32))"
  have "clear_of (100 :: addr) 48 0 48 2" "clear_of (100 :: addr) 48 2 16 2"
    using clear_of_before [where 'l = 64, of 0 2 48 100 48] clear_of_before [where 'l = 64, of 2 2 16 100 48] by simp_all
  then have "\<exists>t. memcpy_bitwise_or_3c_asm ?u = Some t \<and> mem t 164 = mem ?u 164"
    using three_channel_kernels [of ?u 32 164] by (simp add: demo_cpu_def)
  moreover obtain t where "memcpy_add_3c_asm ?s = Some t" "mem t 104 = uqadd8 4 3"
    using three_channel_kernels [of ?s 16 0] by (auto simp: demo_cpu_def store_def demo_mem_def)
  ultimately show ?thesis by (auto simp: demo_cpu_def demo_mem_def uqadd8_def)
qed


subsection \<open>Gray\<close>

lemma set_x_twice [simp]: "set_x r v (set_x r w s) = set_x r v s"
  by (simp add: set_x_def)

lemma gray_body_count: "gray_body (set_x 2 w s) = set_x 2 w (gray_body s)"
  by (simp add: gray_body_def gray_arith_def instr_defs set_x_def set_v_def fun_upd_twist)

lemma gray_step_eq: "gray.step s = set_x 2 (xr s 2 - 1) (gray_body s)"
  by (simp add: gray.step_def sub_x_def gray.xr_count)

definition gray_step16 :: "cpu \<Rightarrow> cpu" where
  "gray_step16 s = sub_x 2 16 (gray_body s)"

lemma gray_step16_eq: "gray_step16 s = set_x 2 (xr s 2 - 16) (gray_body s)"
  by (simp add: gray_step16_def sub_x_def gray.xr_count)

text \<open>The counter aside, the loop for whole groups makes the same steps as a loop that counts groups.\<close>

lemma gray_steps: "(gray_step16 ^^ m) s = set_x 2 (xr s 2 - of_nat (16 * m)) ((gray.step ^^ m) s)"
proof (induction m)
  case 0
  show ?case by (simp add: set_x_def)
next
  case (Suc m)
  then show ?case by (simp add: gray_step16_eq gray_step_eq gray_body_count algebra_simps)
qed

lemma togray_loop_groups:
  assumes "xr s 2 = of_nat (16 * Suc m)" "16 * Suc m < 2 ^ 64"
  shows "togray_loop s = Some ((gray_step16 ^^ Suc m) s)"
  using assms
proof (induction m arbitrary: s)
  case 0
  then show ?case
    by (subst togray_loop.simps) (simp add: gray_step16_def [symmetric] gray_step16_eq)
next
  case (Suc m)
  have x: "xr (gray_step16 s) 2 = of_nat (16 * Suc m)" using Suc.prems(1) by (simp add: gray_step16_eq)
  have u: "unat (of_nat (16 * Suc m) :: addr) = 16 * Suc m" using Suc.prems(2) by (intro unat_of_nat_64) simp
  have ge: "(16 :: addr) \<le> of_nat (16 * Suc m)" unfolding word_le_nat_alt u by simp
  moreover from this have "(of_nat (16 * Suc m) :: addr) \<noteq> 0" by (metis u unsigned_0 nat.distinct(1) mult_is_0 zero_neq_numeral)
  ultimately have "togray_loop s = togray_loop (gray_step16 s)"
    by (subst togray_loop.simps) (simp only: Let_def gray_step16_def [symmetric] x if_False if_True)
  then show ?case using Suc.IH [OF x] Suc.prems(2) by (simp add: funpow_Suc_right del: funpow.simps)
qed

text \<open>Conversion to gray. For a number of pixels that is a multiple of 16 each pixel of the
  destination is a quarter of the first channel plus half of the second plus a quarter of the third,
  and nothing else changes. For fewer than 16 pixels the code's single-pixel loop stores a quarter of
  the third channel instead of the sum.\<close>

theorem togray_pixelwise:
  assumes "xr s 2 = of_nat n" "0 < n" "n < 2 ^ 31"
    and "clear_of (xr s 1) 16 (xr s 0) 48 (n div 16)" "clear_of (xr s 1) 1 (xr s 0) 3 n"
  shows "(16 dvd n \<longrightarrow> (\<exists>t. memcpy_deinterlace_togray_asm s = Some t \<and> mem t = store n (xr s 1)
        (\<lambda>i. gray_pixel (mem s (xr s 0 + of_nat (3 * i))) (mem s (xr s 0 + of_nat (3 * i + 1)))
          (mem s (xr s 0 + of_nat (3 * i + 2)))) (mem s)))
    \<and> (n < 16 \<longrightarrow> (\<exists>t. memcpy_deinterlace_togray_asm s = Some t \<and> mem t = store n (xr s 1)
        (\<lambda>i. drop_bit 2 (mem s (xr s 0 + of_nat (3 * i + 2)))) (mem s)))"
proof -
  have u: "unat (xr s 2) = n" unfolding assms(1) using assms(3) by (intro unat_of_nat_64) simp
  show ?thesis
  proof (intro conjI impI)
    assume "16 dvd n"
    then obtain k where "n = 16 * k" by (elim dvdE)
    then obtain m where m: "n = 16 * Suc m" using assms(2) by (cases k) simp_all
    have "\<not> xr s 2 < 16" unfolding word_less_nat_alt u m by simp
    then have e: "memcpy_deinterlace_togray_asm s = Some ((gray_step16 ^^ Suc m) s)"
      using togray_loop_groups [of s m] assms(1,3) m by (simp add: memcpy_deinterlace_togray_asm_def del: funpow.simps)
    have c: "gray.no_clobber s (Suc m)" unfolding gray.no_clobber_def using assms(4) by (simp add: m)
    have b: "Suc m * stride31 1 \<le> 2 ^ LENGTH(64)" using assms(3) m by simp
    have "mem ((gray_step16 ^^ Suc m) s) = store n (xr s 1) (gray.written s) (mem s)"
      using gray.mem_steps [OF c b] by (simp add: gray_steps m mult.commute del: funpow.simps)
    moreover have "gray.written s = (\<lambda>i. gray_pixel (mem s (xr s 0 + of_nat (3 * i)))
        (mem s (xr s 0 + of_nat (3 * i + 1))) (mem s (xr s 0 + of_nat (3 * i + 2))))"
      unfolding gray.written_def
      by (simp add: stride31_mod add.assoc [symmetric] del: of_nat_add of_nat_mult)
    ultimately show "\<exists>t. memcpy_deinterlace_togray_asm s = Some t \<and> mem t = store n (xr s 1)
        (\<lambda>i. gray_pixel (mem s (xr s 0 + of_nat (3 * i))) (mem s (xr s 0 + of_nat (3 * i + 1)))
          (mem s (xr s 0 + of_nat (3 * i + 2)))) (mem s)" using e by simp
  next
    assume "n < 16"
    then have lt: "xr s 2 < 16" unfolding word_less_nat_alt u by simp
    have i: "iters (xr s 2) = n" using u assms(2) by (auto simp: iters_def)
    have c: "gray1.no_clobber s (iters (xr s 2))" unfolding gray1.no_clobber_def using assms(5) by (simp add: i)
    have b: "iters (xr s 2) * (if (1 :: nat) = 0 then 3 else 1) \<le> 2 ^ LENGTH(64)" using assms(3) by (simp add: i)
    from gray1.loop_mem [OF c b] show "\<exists>t. memcpy_deinterlace_togray_asm s = Some t \<and> mem t = store n (xr s 1)
        (\<lambda>i. drop_bit 2 (mem s (xr s 0 + of_nat (3 * i + 2)))) (mem s)"
      using lt unfolding memcpy_deinterlace_togray_asm_def gray1.written_def i
      by (simp add: mult.commute del: of_nat_add of_nat_mult)
  qed
qed


theorem togray_pixelwise_witness:
  "(\<exists>t. memcpy_deinterlace_togray_asm (demo_cpu ((\<lambda>r. 0)(1 := 100, 2 := 16))) = Some t \<and> mem t 104 = 12)
   \<and> (\<exists>t. memcpy_deinterlace_togray_asm (demo_cpu ((\<lambda>r. 0)(1 := 100, 2 := 5))) = Some t \<and> mem t 104 = 3)"
proof -
  let ?s = "demo_cpu ((\<lambda>r. 0)(1 := 100, 2 := 16))" and ?u = "demo_cpu ((\<lambda>r. 0)(1 := 100, 2 := 5))"
  have c: "clear_of (100 :: addr) 1 0 3 16" "clear_of (100 :: addr) 1 0 3 5" "clear_of (100 :: addr) 16 0 48 0"
    using clear_of_before [where 'l = 64, of 0 16 3 100 1] clear_of_before [where 'l = 64, of 0 5 3 100 1] clear_of_before [where 'l = 64, of 0 0 48 100 16]
    by simp_all
  obtain t where "memcpy_deinterlace_togray_asm ?s = Some t" "mem t 104 = gray_pixel 12 13 14"
    using togray_pixelwise [of ?s 16] c by (auto simp: demo_cpu_def store_def demo_mem_def)
  moreover obtain v where "memcpy_deinterlace_togray_asm ?u = Some v" "mem v 104 = drop_bit 2 14"
    using togray_pixelwise [of ?u 5] c by (auto simp: demo_cpu_def store_def demo_mem_def)
  ultimately show ?thesis by (auto simp: gray_pixel_def uqadd8_def)
qed

subsection \<open>Small frames\<close>

text \<open>Frames of fewer than 16 pixels. The counter of the kernels is then 0 before the loop, the
  loop tests it only after decrementing it, and so the body is executed \<open>2 ^ 64\<close> times, running over
  all of memory, instead of not at all.\<close>

theorem small_frame_wraps:
  assumes "xr s 3 = of_nat n" "n < 16"
  shows "memcpy_add_asm s = Some (((sub_x 3 1 \<circ> add_body) ^^ (2 ^ 64)) (set_x 3 0 s))
    \<and> memcpy_bitwise_or_asm s = Some (((sub_x 3 1 \<circ> or_body) ^^ (2 ^ 64)) (set_x 3 0 s))
    \<and> memcpy_subtract_asm s = Some (((sub_x 3 1 \<circ> subtract_body) ^^ (2 ^ 64)) (set_x 3 0 s))"
proof -
  have "drop_bit 4 (of_nat n :: addr) = 0"
    using assms(2) by (simp add: word_unat_eq_iff drop_bit_eq_div unat_div_distrib unat_of_nat_64)
  then have s: "exec [lsr_x 3 4] s = set_x 3 0 s" by (simp add: lsr_x_def assms(1))
  have i: "iters (xr (set_x 3 0 s) 3) = 2 ^ 64" unfolding iters_def cpu_simps by (subst if_P) simp_all
  show ?thesis
    unfolding memcpy_add_asm_def memcpy_bitwise_or_asm_def memcpy_subtract_asm_def s
    using bne_loop_eq [OF add_k.xr_count, of "set_x 3 0 s"] bne_loop_eq [OF or_k.xr_count, of "set_x 3 0 s"]
      bne_loop_eq [OF sub_k.xr_count, of "set_x 3 0 s"]
    unfolding i by blast
qed

theorem small_frame_wraps_witness:
  "memcpy_add_asm (demo_cpu ((\<lambda>r. 0)(3 := 9))) =
     Some (((sub_x 3 1 \<circ> add_body) ^^ (2 ^ 64)) (set_x 3 0 (demo_cpu ((\<lambda>r. 0)(3 := 9)))))"
proof -
  have "xr (demo_cpu ((\<lambda>r. 0)(3 := 9))) 3 = of_nat 9" by (simp add: demo_cpu_def)
  from small_frame_wraps [OF this] show ?thesis by linarith
qed

end
