(* ===== verification/Neon_Wrappers.thy ===== *)
theory Neon_Wrappers
  imports Neon_Props
begin

text \<open>
  The OpenCV wrappers of \<^verbatim>\<open>core/neon.h\<close> and the channel names of \<^verbatim>\<open>core/extensions.h\<close>. A
  \<^verbatim>\<open>cv::Mat\<close> is its type code, the area of its size and the address of its data; a failed
  \<^verbatim>\<open>CV_Assert\<close> is \<open>Inl CvAssertion\<close>. The compiled caller writes a 32-bit argument through a \<^verbatim>\<open>w\<close>
  register, which clears the upper half of the \<^verbatim>\<open>x\<close> register.
\<close>

record Mat =
  mtype :: int
  marea :: int
  mdata :: addr

abbreviation (input) CV_8UC1 :: int where "CV_8UC1 \<equiv> 0"
abbreviation (input) CV_8UC3 :: int where "CV_8UC3 \<equiv> 16"

definition channels :: "Mat \<Rightarrow> int" where
  "channels m = mtype m div 8 + 1"

datatype BGR = BLUE | GREEN | RED

primrec BGR_code :: "BGR \<Rightarrow> nat" where
  "BGR_code BLUE = 0" | "BGR_code GREEN = 1" | "BGR_code RED = 2"

definition weights_map :: "nat list list" where
  "weights_map = [[BGR_code GREEN, BGR_code RED], [BGR_code BLUE, BGR_code RED], [BGR_code BLUE, BGR_code GREEN]]"

definition arg32 :: "int \<Rightarrow> addr" where
  "arg32 i = of_int (uint32 i)"

definition arg8 :: "byte \<Rightarrow> addr" where
  "arg8 b = ucast b"

text \<open>A call with arguments in the registers from \<^verbatim>\<open>x0\<close> on.\<close>

fun set_args :: "nat \<Rightarrow> addr list \<Rightarrow> cpu \<Rightarrow> cpu" where
  "set_args n [] s = s"
| "set_args n (w # ws) s = set_args (Suc n) ws (set_x n w s)"

definition CV_Assert :: "bool list \<Rightarrow> 'a \<Rightarrow> 'a res" where
  "CV_Assert bs k = (if list_all (\<lambda>b. b) bs then Inr k else Inl CvAssertion)"

lemma CV_Assert_Inr [simp]: "CV_Assert bs k = Inr r \<longleftrightarrow> list_all (\<lambda>b. b) bs \<and> k = r"
  by (simp add: CV_Assert_def)

definition neon_threshold :: "Mat \<Rightarrow> Mat \<Rightarrow> byte \<Rightarrow> cpu \<Rightarrow> cpu option res" where
  "neon_threshold src dest thresh s = CV_Assert
     [mtype src = CV_8UC1, mtype dest = CV_8UC1, marea src = marea dest]
     (memcpy_threshold_asm (set_args 0 [mdata src, mdata dest, arg32 (marea src), arg8 thresh] s))"

definition neon_threshold_binary :: "Mat \<Rightarrow> Mat \<Rightarrow> byte \<Rightarrow> cpu \<Rightarrow> cpu option res" where
  "neon_threshold_binary src dest thresh s = CV_Assert
     [mtype src = CV_8UC1, mtype dest = CV_8UC1, marea src = marea dest]
     (memcpy_threshold_binary_asm (set_args 0 [mdata src, mdata dest, arg32 (marea src), arg8 thresh] s))"

definition neon_compare3_add :: "Mat \<Rightarrow> Mat \<Rightarrow> Mat \<Rightarrow> Mat \<Rightarrow> Mat \<Rightarrow> cpu \<Rightarrow> cpu option res" where
  "neon_compare3_add primary comp1 comp2 ad dest s = CV_Assert
     [mtype primary = CV_8UC1, mtype comp1 = CV_8UC1, mtype comp2 = CV_8UC1, mtype ad = CV_8UC1,
      mtype dest = CV_8UC1, marea primary = marea comp1, marea primary = marea comp2,
      marea primary = marea ad, marea primary = marea dest]
     (memcpy_compare3_add_asm (set_args 0
        [mdata primary, mdata comp1, mdata comp2, mdata ad, mdata dest, arg32 (marea primary)] s))"

definition neon_wst :: "Mat \<Rightarrow> Mat \<Rightarrow> byte \<Rightarrow> Mat \<Rightarrow> byte \<Rightarrow> Mat \<Rightarrow> byte \<Rightarrow> cpu \<Rightarrow> cpu option res" where
  "neon_wst primary ch1 alpha ch2 beta dest gamma s = CV_Assert
     [mtype primary = CV_8UC1, mtype ch1 = CV_8UC1, mtype ch2 = CV_8UC1, mtype dest = CV_8UC1,
      marea primary = marea ch1, marea primary = marea ch2, marea primary = marea dest]
     (memcpy_wst_asm (set_args 0
        [mdata primary, mdata ch1, mdata ch2, mdata dest, arg32 (marea primary), arg8 alpha, arg8 beta, arg8 gamma] s))"

definition neon_deinterlace_wstb :: "Mat \<Rightarrow> Mat \<Rightarrow> BGR \<Rightarrow> byte \<Rightarrow> byte \<Rightarrow> byte \<Rightarrow> cpu \<Rightarrow> cpu option res" where
  "neon_deinterlace_wstb frame_3C dest primary alpha beta thresh s = CV_Assert
     [mtype frame_3C = CV_8UC3, mtype dest = CV_8UC1, marea frame_3C = marea dest]
     (memcpy_deinterlace_wstb_asm (set_args 0
        [mdata frame_3C, mdata dest, arg32 (marea frame_3C), of_nat (BGR_code primary),
         arg8 alpha, arg8 beta, arg8 thresh] s))"

definition neon_deinterlace_cvt2gray :: "Mat \<Rightarrow> Mat \<Rightarrow> cpu \<Rightarrow> cpu option res" where
  "neon_deinterlace_cvt2gray frame_3C dest s = CV_Assert
     [mtype frame_3C = CV_8UC3, mtype dest = CV_8UC1, marea frame_3C = marea dest]
     (memcpy_deinterlace_togray_asm (set_args 0 [mdata frame_3C, mdata dest, arg32 (marea frame_3C)] s))"

definition neon_bitwise_or :: "Mat \<Rightarrow> Mat \<Rightarrow> Mat \<Rightarrow> cpu \<Rightarrow> cpu option res" where
  "neon_bitwise_or a b dest s = rbind (CV_Assert [marea a = marea b, marea a = marea dest] ()) (\<lambda>_.
     if mtype a = mtype b then CV_Assert [mtype a = mtype dest]
       (memcpy_bitwise_or_asm (set_args 0 [mdata a, mdata b, mdata dest, arg32 (marea a * channels a)] s))
     else if mtype a = CV_8UC3 then CV_Assert [mtype b = CV_8UC1, mtype dest = CV_8UC3]
       (memcpy_bitwise_or_3c_asm (set_args 0 [mdata a, mdata b, mdata dest, arg32 (marea a)] s))
     else CV_Assert [mtype a = CV_8UC1, mtype b = CV_8UC3, mtype dest = CV_8UC3]
       (memcpy_bitwise_or_3c_asm (set_args 0 [mdata b, mdata a, mdata dest, arg32 (marea a)] s)))"

definition neon_add :: "Mat \<Rightarrow> Mat \<Rightarrow> Mat \<Rightarrow> cpu \<Rightarrow> cpu option res" where
  "neon_add a b dest s = rbind (CV_Assert [marea a = marea b, marea a = marea dest] ()) (\<lambda>_.
     if mtype a = CV_8UC3 then rbind (CV_Assert [mtype dest = CV_8UC3] ()) (\<lambda>_.
       if mtype b = CV_8UC3 then
         Inr (memcpy_add_3c2_asm (set_args 0 [mdata a, mdata b, mdata dest, arg32 (marea a)] s))
       else CV_Assert [mtype b = CV_8UC1]
         (memcpy_add_3c_asm (set_args 0 [mdata a, mdata b, mdata dest, arg32 (marea a)] s)))
     else if mtype b = CV_8UC3 then CV_Assert [mtype a = CV_8UC1, mtype dest = CV_8UC3]
       (memcpy_add_3c_asm (set_args 0 [mdata b, mdata a, mdata dest, arg32 (marea a)] s))
     else CV_Assert [mtype a = CV_8UC1, mtype b = CV_8UC1, mtype dest = CV_8UC1]
       (memcpy_add_asm (set_args 0 [mdata a, mdata b, mdata dest, arg32 (marea a)] s)))"

text \<open>The third assertion compares the type of the destination with itself.\<close>

definition neon_subtract :: "Mat \<Rightarrow> Mat \<Rightarrow> Mat \<Rightarrow> cpu \<Rightarrow> cpu option res" where
  "neon_subtract src sub dest s = CV_Assert
     [mtype src = CV_8UC1, mtype sub = CV_8UC1, mtype dest = mtype dest,
      marea src = marea sub, marea src = marea dest]
     (memcpy_subtract_asm (set_args 0 [mdata src, mdata sub, mdata dest, arg32 (marea src)] s))"

subsection \<open>Properties\<close>

lemma arg32_nat: "n < 2 ^ 32 \<Longrightarrow> arg32 (int n) = of_nat n"
  by (simp add: arg32_def uint32_id)

lemma set_args4:
  "xr (set_args 0 [a, b, c, d] s) 0 = a" "xr (set_args 0 [a, b, c, d] s) 1 = b"
  "xr (set_args 0 [a, b, c, d] s) 2 = c" "xr (set_args 0 [a, b, c, d] s) 3 = d"
  "mem (set_args 0 [a, b, c, d] s) = mem s"
  by (simp_all add: numeral_2_eq_2 numeral_3_eq_3)

text \<open>Frames of one channel, the destination one of the sources or apart from them.\<close>

definition frames_ok :: "Mat \<Rightarrow> Mat \<Rightarrow> Mat \<Rightarrow> nat \<Rightarrow> bool" where
  "frames_ok a b dest n \<longleftrightarrow> 16 \<le> n \<and> n < 2 ^ 31 \<and> marea a = int n \<and> marea b = int n \<and> marea dest = int n
     \<and> clear_of (mdata dest) 16 (mdata a) 16 (n div 16) \<and> clear_of (mdata dest) 16 (mdata b) 16 (n div 16)"

text \<open>C23: \<^verbatim>\<open>neon_add\<close> on one-channel frames of equal area of at least 16 pixels passes its assertions,
  returns, and leaves in the destination the saturated sums of the pixels, up to the last full group of
  16; frames of different areas are refused with an exception; and \<^verbatim>\<open>neon_subtract\<close>, whose check of
  the destination compares its type with itself, accepts a destination of any type.\<close>

theorem neon_add_sums_frames:
  assumes "frames_ok a b dest n" "mtype a = CV_8UC1" "mtype b = CV_8UC1"
  shows "(mtype dest = CV_8UC1 \<longrightarrow> (\<exists>t. neon_add a b dest s = Inr (Some t) \<and>
        mem t = store (n div 16 * 16) (mdata dest)
          (\<lambda>i. uqadd8 (mem s (mdata a + of_nat i)) (mem s (mdata b + of_nat i))) (mem s)))
    \<and> (\<exists>t. neon_subtract a b dest s = Inr (Some t) \<and>
        mem t = store (n div 16 * 16) (mdata dest)
          (\<lambda>i. uqsub8 (mem s (mdata a + of_nat i)) (mem s (mdata b + of_nat i))) (mem s))
    \<and> (marea c \<noteq> marea a \<longrightarrow> neon_add a c dest s = Inl CvAssertion)"
proof -
  let ?s = "set_args 0 [mdata a, mdata b, mdata dest, arg32 (marea a)] s"
  have n: "16 \<le> n" "n < 2 ^ 31" "marea a = int n" using assms(1) by (simp_all add: frames_ok_def)
  then have x3: "xr ?s 3 = of_nat n" using arg32_nat [of n] by (simp only: set_args4) simp
  have x: "xr ?s 0 = mdata a" "xr ?s 1 = mdata b" "xr ?s 2 = mdata dest" "mem ?s = mem s"
    by (simp_all only: set_args4)
  have c: "clear_of (xr ?s 2) 16 (xr ?s 0) 16 (n div 16)" "clear_of (xr ?s 2) 16 (xr ?s 1) 16 (n div 16)"
    unfolding x using assms(1) by (simp_all add: frames_ok_def)
  obtain t t'' where t: "memcpy_add_asm ?s = Some t" "memcpy_subtract_asm ?s = Some t''"
      "mem t = store (n div 16 * 16) (mdata dest) (\<lambda>i. uqadd8 (mem s (mdata a + of_nat i)) (mem s (mdata b + of_nat i))) (mem s)"
      "mem t'' = store (n div 16 * 16) (mdata dest) (\<lambda>i. uqsub8 (mem s (mdata a + of_nat i)) (mem s (mdata b + of_nat i))) (mem s)"
    using add_or_sub_mem [OF x3 n(1,2) c] unfolding x by blast
  have "marea b = marea a" "marea dest = marea a" using assms(1) by (simp_all add: frames_ok_def)
  then show ?thesis using assms(2,3) t
    by (auto simp: neon_add_def neon_subtract_def CV_Assert_def simp del: set_args.simps)
qed

theorem neon_add_sums_frames_witness:
  "\<exists>t. neon_add \<lparr>mtype = 0, marea = 17, mdata = 0\<rparr> \<lparr>mtype = 0, marea = 17, mdata = 100\<rparr>
      \<lparr>mtype = 0, marea = 17, mdata = 0\<rparr> (demo_cpu (\<lambda>r. 0)) = Inr (Some t) \<and> mem t 3 = 253 \<and> mem t 9 = 255"
proof -
  let ?a = "\<lparr>mtype = 0, marea = 17, mdata = 0\<rparr> :: Mat" and ?b = "\<lparr>mtype = 0, marea = 17, mdata = 100\<rparr> :: Mat"
  have "frames_ok ?a ?b ?a 17" by (simp add: frames_ok_def)
  from neon_add_sums_frames [OF this, of "demo_cpu (\<lambda>r. 0)" ?a]
  obtain t where "neon_add ?a ?b ?a (demo_cpu (\<lambda>r. 0)) = Inr (Some t)"
    "mem t 3 = uqadd8 3 250" "mem t 9 = uqadd8 9 250"
    by (auto simp: demo_cpu_def demo_mem_def store_def)
  then show ?thesis by (auto simp: uqadd8_def)
qed

end
