(* ===== verification/Geometry.thy ===== *)
theory Geometry
  imports VS_Prelude "HOL-Library.Multiset"
begin

text \<open>
  The geometric helpers of \<^verbatim>\<open>core/vision.h\<close>, for \<^verbatim>\<open>num_t = int\<close>: arithmetic is that of a 32-bit
  \<^verbatim>\<open>int\<close>, with an overflow as \<open>Inl UB\<close>. OpenCV's rounding of a \<^verbatim>\<open>double\<close> to an \<^verbatim>\<open>int\<close>
  (\<open>cv_round\<close>) and \<^verbatim>\<open>atan2\<close> (\<open>ang\<close>) are parameters.
\<close>

record Point = px :: int py :: int
record Point3 = qx :: int qy :: int qz :: int
record Size = sw :: int sh :: int
record Rect = rx :: int ry :: int rw :: int rh :: int

definition Point0 :: Point where "Point0 = \<lparr>px = 0, py = 0\<rparr>"
definition Point3_0 :: Point3 where "Point3_0 = \<lparr>qx = 0, qy = 0, qz = 0\<rparr>"

text \<open>The result of a signed operation, if it is representable.\<close>

definition chk :: "int \<Rightarrow> int res" where
  "chk z = (if - (2 ^ 31) \<le> z \<and> z < 2 ^ 31 then Inr z else Inl UB)"

lemma chk_Inr [simp]: "chk z = Inr w \<longleftrightarrow> z = w \<and> - (2 ^ 31) \<le> z \<and> z < 2 ^ 31"
  by (auto simp: chk_def)

lemma chk_ok: "- (2 ^ 31) \<le> z \<Longrightarrow> z < 2 ^ 31 \<Longrightarrow> chk z = Inr z"
  by simp

text \<open>Division of two \<^verbatim>\<open>int\<close>s truncates towards zero and is undefined for a divisor 0.\<close>

definition quot :: "int \<Rightarrow> int \<Rightarrow> int" where
  "quot a b = sgn a * sgn b * (\<bar>a\<bar> div \<bar>b\<bar>)"

definition sdiv :: "int \<Rightarrow> int \<Rightarrow> int res" where
  "sdiv a b = (if b = 0 then Inl UB else chk (quot a b))"

subsection \<open>Small helpers\<close>

definition inRange :: "int \<Rightarrow> int \<Rightarrow> int \<Rightarrow> bool" where
  "inRange a lower upper \<longleftrightarrow> a \<le> upper \<and> a \<ge> lower"

definition vs_sgn :: "int \<Rightarrow> int" where
  "vs_sgn v = (if 0 < v then 1 else 0) - (if v < 0 then 1 else 0)"

definition reinsert :: "nat \<Rightarrow> 'a list \<Rightarrow> 'a list res" where
  "reinsert idx v = rbind (vec_at v idx) (\<lambda>x.
     let v' = x # v in Inr (take (idx + 1) v' @ drop (idx + 2) v'))"

definition swapIdx :: "nat \<Rightarrow> nat \<Rightarrow> 'a list \<Rightarrow> 'a list res" where
  "swapIdx i j v = rbind (vec_idx v i) (\<lambda>a. rbind (vec_idx v j) (\<lambda>b. Inr (v[i := b, j := a])))"

definition distance2 :: "Point \<Rightarrow> Point \<Rightarrow> Size res" where
  "distance2 a b = rbind (chk (px a - px b)) (\<lambda>dx. rbind (chk (py a - py b)) (\<lambda>dy.
     rbind (chk \<bar>dx\<bar>) (\<lambda>w. rbind (chk \<bar>dy\<bar>) (\<lambda>h. Inr \<lparr>sw = w, sh = h\<rparr>))))"

definition distance3 :: "Point3 \<Rightarrow> Point3 \<Rightarrow> Point3 res" where
  "distance3 a b = rbind (chk (qx a - qx b)) (\<lambda>dx. rbind (chk (qy a - qy b)) (\<lambda>dy. rbind (chk (qz a - qz b)) (\<lambda>dz.
     rbind (chk \<bar>dx\<bar>) (\<lambda>x. rbind (chk \<bar>dy\<bar>) (\<lambda>y. rbind (chk \<bar>dz\<bar>) (\<lambda>z. Inr \<lparr>qx = x, qy = y, qz = z\<rparr>))))))"

definition size_lt :: "Size \<Rightarrow> Size \<Rightarrow> bool" where "size_lt a b \<longleftrightarrow> sw a < sw b \<and> sh a < sh b"
definition size_le :: "Size \<Rightarrow> Size \<Rightarrow> bool" where "size_le a b \<longleftrightarrow> sw a \<le> sw b \<and> sh a \<le> sh b"
definition size_gt :: "Size \<Rightarrow> Size \<Rightarrow> bool" where "size_gt a b \<longleftrightarrow> sw a > sw b \<and> sh a > sh b"
definition size_ge :: "Size \<Rightarrow> Size \<Rightarrow> bool" where "size_ge a b \<longleftrightarrow> sw a \<ge> sw b \<and> sh a \<ge> sh b"

definition size_div :: "Size \<Rightarrow> int \<Rightarrow> Size res" where
  "size_div s k = rbind (sdiv (sw s) k) (\<lambda>w. rbind (sdiv (sh s) k) (\<lambda>h. Inr \<lparr>sw = w, sh = h\<rparr>))"

definition point_minus_size :: "Point \<Rightarrow> Size \<Rightarrow> Point res" where
  "point_minus_size a b = rbind (chk (px a - sw b)) (\<lambda>x. rbind (chk (py a - sh b)) (\<lambda>y. Inr \<lparr>px = x, py = y\<rparr>))"

definition point_plus_size :: "Point \<Rightarrow> Size \<Rightarrow> Point res" where
  "point_plus_size a b = rbind (chk (px a + sw b)) (\<lambda>x. rbind (chk (py a + sh b)) (\<lambda>y. Inr \<lparr>px = x, py = y\<rparr>))"

definition size_minus_point :: "Size \<Rightarrow> Point \<Rightarrow> Size res" where
  "size_minus_point a b = rbind (chk (sw a - px b)) (\<lambda>x. rbind (chk (sh a - py b)) (\<lambda>y. Inr \<lparr>sw = x, sh = y\<rparr>))"

definition size_plus_point :: "Size \<Rightarrow> Point \<Rightarrow> Size res" where
  "size_plus_point a b = rbind (chk (sw a + px b)) (\<lambda>x. rbind (chk (sh a + py b)) (\<lambda>y. Inr \<lparr>sw = x, sh = y\<rparr>))"

definition size_div_size :: "Size \<Rightarrow> Size \<Rightarrow> Size res" where
  "size_div_size a b = rbind (sdiv (sw a) (sw b)) (\<lambda>x. rbind (sdiv (sh a) (sh b)) (\<lambda>y. Inr \<lparr>sw = x, sh = y\<rparr>))"

subsection \<open>Scaling\<close>

text \<open>A loop that replaces every element, stopping at the first failure.\<close>

fun rmap :: "('a \<Rightarrow> 'b res) \<Rightarrow> 'a list \<Rightarrow> 'b list res" where
  "rmap f [] = Inr []"
| "rmap f (x # xs) = rbind (f x) (\<lambda>y. rbind (rmap f xs) (\<lambda>ys. Inr (y # ys)))"

definition rescale_up :: "nat \<Rightarrow> Point list \<Rightarrow> Point list res" where
  "rescale_up scale ps = rmap (\<lambda>p. rbind (chk (px p * c_int scale)) (\<lambda>x.
     rbind (chk (py p * c_int scale)) (\<lambda>y. Inr \<lparr>px = x, py = y\<rparr>))) ps"

definition rescale_down :: "nat \<Rightarrow> Point list \<Rightarrow> Point list res" where
  "rescale_down scale ps = rmap (\<lambda>p. rbind (sdiv (px p) (c_int scale)) (\<lambda>x.
     rbind (sdiv (py p) (c_int scale)) (\<lambda>y. Inr \<lparr>px = x, py = y\<rparr>))) ps"

definition rescale_d :: "(rat \<Rightarrow> int) \<Rightarrow> rat \<Rightarrow> Point list \<Rightarrow> Point list" where
  "rescale_d cv_round scale ps =
     map (\<lambda>p. \<lparr>px = cv_round (of_int (px p) * scale), py = cv_round (of_int (py p) * scale)\<rparr>) ps"

definition rescale_contours :: "(rat \<Rightarrow> int) \<Rightarrow> rat \<Rightarrow> Point list list \<Rightarrow> Point list list" where
  "rescale_contours cv_round scale cs = map (rescale_d cv_round scale) cs"

text \<open>The members of a rectangle are multiplied by the \<^verbatim>\<open>double\<close> and converted back, towards zero.\<close>

definition rescale_rects :: "rat \<Rightarrow> Rect list \<Rightarrow> Rect list" where
  "rescale_rects scale rs = map (\<lambda>r. let f = (\<lambda>v. fcvtzs32 (Fin (of_int v * scale)))
     in \<lparr>rx = f (rx r), ry = f (ry r), rw = f (rw r), rh = f (rh r)\<rparr>) rs"

subsection \<open>Centers\<close>

text \<open>\<^verbatim>\<open>ret.x /= contour.size()\<close>: the \<^verbatim>\<open>int\<close> is converted to \<^verbatim>\<open>size_t\<close>, divided as unsigned, and the
  quotient converted back.\<close>

definition div_size :: "int \<Rightarrow> nat \<Rightarrow> int" where
  "div_size a n = int32 ((a mod 2 ^ 64) div int n)"

fun sum_points :: "Point list \<Rightarrow> Point \<Rightarrow> Point res" where
  "sum_points [] acc = Inr acc"
| "sum_points (p # ps) acc = rbind (chk (px acc + px p)) (\<lambda>x. rbind (chk (py acc + py p)) (\<lambda>y.
     sum_points ps \<lparr>px = x, py = y\<rparr>))"

definition findCenter :: "Point list \<Rightarrow> Point res" where
  "findCenter contour =
     (if length contour > 0 then rbind (sum_points contour Point0) (\<lambda>r.
        Inr \<lparr>px = div_size (px r) (length contour), py = div_size (py r) (length contour)\<rparr>)
      else Inr Point0)"

fun sum_points3 :: "Point3 list \<Rightarrow> Point3 \<Rightarrow> Point3 res" where
  "sum_points3 [] acc = Inr acc"
| "sum_points3 (p # ps) acc = rbind (chk (qx acc + qx p)) (\<lambda>x. rbind (chk (qy acc + qy p)) (\<lambda>y.
     rbind (chk (qz acc + qz p)) (\<lambda>z. sum_points3 ps \<lparr>qx = x, qy = y, qz = z\<rparr>)))"

definition findCenter3D :: "Point3 list \<Rightarrow> Point3 res" where
  "findCenter3D contour =
     (if length contour > 0 then rbind (sum_points3 contour Point3_0) (\<lambda>r.
        Inr \<lparr>qx = div_size (qx r) (length contour), qy = div_size (qy r) (length contour),
             qz = div_size (qz r) (length contour)\<rparr>)
      else Inr Point3_0)"

definition findCenter_rect :: "Rect \<Rightarrow> Point res" where
  "findCenter_rect r = rbind (chk (rx r + rw r)) (\<lambda>bx. rbind (chk (ry r + rh r)) (\<lambda>by.
     rbind (chk (rx r + bx)) (\<lambda>x. rbind (chk (ry r + by)) (\<lambda>y.
     Inr \<lparr>px = quot x 2, py = quot y 2\<rparr>))))"

subsection \<open>Ordering points around their center\<close>

text \<open>\<^verbatim>\<open>std::sort\<close> by the angle of a point around the center. Points of equal angle stay in order
  here, which is one of the results the library may give. The comparison subtracts the center from
  every point as soon as there are two.\<close>

definition psub :: "Point \<Rightarrow> Point \<Rightarrow> Point res" where
  "psub c a = rbind (chk (px a - px c)) (\<lambda>x. rbind (chk (py a - py c)) (\<lambda>y. Inr \<lparr>px = x, py = y\<rparr>))"

definition offsets :: "Point \<Rightarrow> Point list \<Rightarrow> unit res" where
  "offsets c ps = (if length ps < 2 then Inr () else rbind (rmap (psub c) ps) (\<lambda>_. Inr ()))"

definition angle :: "(int \<times> int \<Rightarrow> real) \<Rightarrow> Point \<Rightarrow> Point \<Rightarrow> real" where
  "angle ang c p = ang (px p - px c, py p - py c)"

definition reorderClockWise :: "(int \<times> int \<Rightarrow> real) \<Rightarrow> Point list \<Rightarrow> Point list res" where
  "reorderClockWise ang ps = rbind (findCenter ps) (\<lambda>c. rbind (offsets c ps) (\<lambda>_.
     Inr (sort_key (\<lambda>p. - angle ang c p) ps)))"

definition reorderCClockWise :: "(int \<times> int \<Rightarrow> real) \<Rightarrow> Point list \<Rightarrow> Point list res" where
  "reorderCClockWise ang ps = rbind (findCenter ps) (\<lambda>c. rbind (offsets c ps) (\<lambda>_.
     Inr (sort_key (angle ang c) ps)))"

subsection \<open>Adding a depth\<close>

definition array_plus_depth :: "Point list \<Rightarrow> int \<Rightarrow> Point3 list" where
  "array_plus_depth base depth = map (\<lambda>p. \<lparr>qx = px p, qy = py p, qz = depth\<rparr>) base"

definition extend_array :: "Point3 list \<Rightarrow> int \<Rightarrow> Point3 list res" where
  "extend_array base depth = rmap (\<lambda>p. rbind (chk (qz p + depth)) (\<lambda>z. Inr (p\<lparr>qz := z\<rparr>))) base"

text \<open>The version for an array of three-dimensional points does not return its result.\<close>

definition array3_plus_depth :: "Point3 list \<Rightarrow> int \<Rightarrow> Point3 list res" where
  "array3_plus_depth base depth = rbind (extend_array base depth) (\<lambda>_. Inl UB)"

text \<open>The vector is constructed with as many zero points as the base has, and the points are appended.\<close>

definition vector_plus_depth :: "Point list \<Rightarrow> int \<Rightarrow> Point3 list" where
  "vector_plus_depth base depth = replicate (length base) Point3_0
     @ map (\<lambda>p. \<lparr>qx = px p, qy = py p, qz = depth\<rparr>) base"

definition vector3_plus_depth :: "Point3 list \<Rightarrow> int \<Rightarrow> Point3 list res" where
  "vector3_plus_depth base depth = rbind
     (rmap (\<lambda>p. rbind (chk (qz p + depth)) (\<lambda>z. Inr \<lparr>qx = qx p, qy = qy p, qz = z\<rparr>)) base) (\<lambda>ps.
     Inr (replicate (length base) Point3_0 @ ps))"

subsection \<open>Laws\<close>

text \<open>The helper that brings an element to the front.\<close>

lemma reinsert_front:
  "idx < length v \<Longrightarrow> reinsert idx v = Inr (v ! idx # take idx v @ drop (Suc idx) v)"
  by (simp add: reinsert_def vec_at_ok Let_def)

lemma reinsert_perm: "idx < length v \<Longrightarrow> mset (v ! idx # take idx v @ drop (Suc idx) v) = mset v"
  by (metis id_take_nth_drop mset.simps(2) mset_append union_mset_add_mset_right add_mset_add_single
      append_Cons)


subsubsection \<open>The center\<close>

lemma sum_points_ok:
  assumes "\<forall>p \<in> set ps. 0 \<le> px p \<and> 0 \<le> py p" "0 \<le> px acc" "0 \<le> py acc"
    and "px acc + sum_list (map px ps) < 2 ^ 31" "py acc + sum_list (map py ps) < 2 ^ 31"
  shows "sum_points ps acc = Inr \<lparr>px = px acc + sum_list (map px ps), py = py acc + sum_list (map py ps)\<rparr>"
  using assms
proof (induction ps arbitrary: acc)
  case (Cons p ps)
  have "0 \<le> sum_list (map px ps)" "0 \<le> sum_list (map py ps)"
    using Cons.prems(1) by (auto intro!: sum_list_nonneg)
  then have "px acc + px p < 2 ^ 31" "py acc + py p < 2 ^ 31" "0 \<le> px p" "0 \<le> py p"
    using Cons.prems by auto
  then show ?case
    using Cons.IH [of "\<lparr>px = px acc + px p, py = py acc + py p\<rparr>"] Cons.prems by (simp add: chk_def add.assoc)
qed simp

lemma div_size_nonneg: "0 \<le> a \<Longrightarrow> a < 2 ^ 31 \<Longrightarrow> 0 < n \<Longrightarrow> div_size a n = a div int n"
proof -
  assume a: "0 \<le> a" "a < 2 ^ 31" and n: "0 < n"
  have "a mod 2 ^ 64 = a" using a by simp
  moreover have "a div int n \<le> a" using zdiv_mono2 [of a 1 "int n"] a(1) n by simp
  moreover have "0 \<le> a div int n" using a(1) n by (simp add: pos_imp_zdiv_nonneg_iff)
  ultimately show ?thesis using a(2) by (simp add: div_size_def int32_id)
qed

lemma sum_list_bounds:
  fixes f :: "'a \<Rightarrow> int"
  assumes "\<forall>x \<in> set xs. lo \<le> f x \<and> f x \<le> hi"
  shows "lo * int (length xs) \<le> sum_list (map f xs)" "sum_list (map f xs) \<le> hi * int (length xs)"
  using assms by (induction xs) (auto simp: algebra_simps)

lemma mean_bounds:
  fixes f :: "'a \<Rightarrow> int"
  assumes "\<forall>x \<in> set xs. lo \<le> f x \<and> f x \<le> hi" "xs \<noteq> []"
  shows "lo \<le> sum_list (map f xs) div int (length xs) \<and> sum_list (map f xs) div int (length xs) \<le> hi"
proof
  have n: "0 < int (length xs)" using assms(2) by simp
  show "lo \<le> sum_list (map f xs) div int (length xs)"
    using zdiv_mono1 [OF sum_list_bounds(1) [OF assms(1)] n] n by simp
  show "sum_list (map f xs) div int (length xs) \<le> hi"
    using zdiv_mono1 [OF sum_list_bounds(2) [OF assms(1)] n] n by simp
qed

text \<open>The center of a contour with coordinates that are not negative is their mean, rounded down,
  and lies in every box that contains the contour, as long as the sums fit an \<^verbatim>\<open>int\<close>. With negative
  coordinates the division by the unsigned size is wrong: the center of three points at -1 is at
  1431655764.\<close>

theorem findCenter_is_mean:
  assumes "ps \<noteq> []" "\<forall>p \<in> set ps. lx \<le> px p \<and> px p \<le> hx \<and> ly \<le> py p \<and> py p \<le> hy"
    and "0 \<le> lx" "0 \<le> ly" "sum_list (map px ps) < 2 ^ 31" "sum_list (map py ps) < 2 ^ 31"
  shows "(\<exists>c. findCenter ps = Inr c \<and> px c = sum_list (map px ps) div int (length ps)
        \<and> py c = sum_list (map py ps) div int (length ps) \<and> lx \<le> px c \<and> px c \<le> hx \<and> ly \<le> py c \<and> py c \<le> hy)
    \<and> findCenter (replicate 3 \<lparr>px = - 1, py = 0\<rparr>) = Inr \<lparr>px = 1431655764, py = 0\<rparr>"
proof
  have nn: "\<forall>p \<in> set ps. 0 \<le> px p \<and> 0 \<le> py p" using assms(2-4) by force
  then have s: "0 \<le> sum_list (map px ps)" "0 \<le> sum_list (map py ps)" by (auto intro!: sum_list_nonneg)
  have "sum_points ps Point0 = Inr \<lparr>px = sum_list (map px ps), py = sum_list (map py ps)\<rparr>"
    using sum_points_ok [OF nn, of Point0] assms(5,6) by (simp add: Point0_def)
  then have "findCenter ps = Inr \<lparr>px = sum_list (map px ps) div int (length ps), py = sum_list (map py ps) div int (length ps)\<rparr>"
    using assms(1,5,6) s by (simp add: findCenter_def div_size_nonneg)
  then show "\<exists>c. findCenter ps = Inr c \<and> px c = sum_list (map px ps) div int (length ps)
        \<and> py c = sum_list (map py ps) div int (length ps) \<and> lx \<le> px c \<and> px c \<le> hx \<and> ly \<le> py c \<and> py c \<le> hy"
    using mean_bounds [of ps lx px hx] mean_bounds [of ps ly py hy] assms(1,2) by simp
  show "findCenter (replicate 3 \<lparr>px = - 1, py = 0\<rparr>) = Inr \<lparr>px = 1431655764, py = 0\<rparr>"
    by (simp add: findCenter_def numeral_3_eq_3 Point0_def chk_def div_size_def int32_def)
qed

theorem findCenter_is_mean_witness:
  "\<exists>c. findCenter [\<lparr>px = 1, py = 2\<rparr>, \<lparr>px = 4, py = 9\<rparr>] = Inr c \<and> px c = 2 \<and> py c = 5"
  using findCenter_is_mean [of "[\<lparr>px = 1, py = 2\<rparr>, \<lparr>px = 4, py = 9\<rparr>]" 1 4 2 9] by auto

subsubsection \<open>Ordering\<close>

lemma sort_key_uminus:
  fixes f :: "'a \<Rightarrow> real"
  assumes "distinct (map f xs)"
  shows "sort_key (\<lambda>x. - f x) xs = rev (sort_key f xs)"
proof (rule map_sorted_distinct_set_unique [where f = "\<lambda>x. - f x"])
  have d: "inj_on f (set xs)" "distinct xs" using assms by (simp_all add: distinct_map)
  then show "inj_on (\<lambda>x. - f x) (set (sort_key (\<lambda>x. - f x) xs) \<union> set (rev (sort_key f xs)))"
    by (simp add: inj_on_def)
  show "distinct (map (\<lambda>x. - f x) (sort_key (\<lambda>x. - f x) xs))"
    "distinct (map (\<lambda>x. - f x) (rev (sort_key f xs)))"
    using d by (simp_all add: distinct_map inj_on_def)
  show "sorted (map (\<lambda>x. - f x) (rev (sort_key f xs)))"
    using sorted_sort_key [of f xs] by (simp add: sorted_map sorted_wrt_rev)
qed simp_all

text \<open>Both orderings return the given points, permuted: in the order of increasing angle around the
  center for the counterclockwise one, and exactly reversed for the clockwise one when no two points
  have the same angle.\<close>

theorem reorder_by_angle:
  assumes "findCenter ps = Inr c" "offsets c ps = Inr ()"
  shows "\<exists>qs rs. reorderCClockWise ang ps = Inr qs \<and> reorderClockWise ang ps = Inr rs
    \<and> mset qs = mset ps \<and> mset rs = mset ps \<and> sorted (map (angle ang c) qs)
    \<and> (distinct (map (angle ang c) ps) \<longrightarrow> rs = rev qs)"
  using assms sort_key_uminus [of "angle ang c" ps]
  by (simp add: reorderClockWise_def reorderCClockWise_def)

theorem reorder_by_angle_witness:
  "reorderClockWise (\<lambda>(x, y). of_int x) [\<lparr>px = 1, py = 2\<rparr>, \<lparr>px = 7, py = 9\<rparr>] = Inr [\<lparr>px = 7, py = 9\<rparr>, \<lparr>px = 1, py = 2\<rparr>]"
proof -
  let ?ps = "[\<lparr>px = 1, py = 2\<rparr>, \<lparr>px = 7, py = 9\<rparr>]"
  have c: "findCenter ?ps = Inr \<lparr>px = 4, py = 5\<rparr>"
    by (simp add: findCenter_def Point0_def chk_def div_size_def int32_def)
  have o: "offsets \<lparr>px = 4, py = 5\<rparr> ?ps = Inr ()" by (simp add: offsets_def psub_def chk_def)
  show ?thesis using reorder_by_angle [OF c o, of "\<lambda>(x, y). of_int x"] c o
    by (simp add: angle_def reorderCClockWise_def)
qed

text \<open>Adding a depth to points in the plane. The version for arrays gives each point its depth; the
  version for vectors gives twice as many points, the first half all at the origin, before the points
  asked for; and the version for arrays of three-dimensional points has no return statement, so using
  it is undefined.\<close>

theorem add_depth:
  "length (array_plus_depth base d) = length base
   \<and> (\<forall>i < length base. array_plus_depth base d ! i = \<lparr>qx = px (base ! i), qy = py (base ! i), qz = d\<rparr>)
   \<and> length (vector_plus_depth base d) = 2 * length base
   \<and> (\<forall>i < length base. vector_plus_depth base d ! i = Point3_0
        \<and> vector_plus_depth base d ! (length base + i) = array_plus_depth base d ! i)
   \<and> (\<exists>e. array3_plus_depth b3 d = Inl e)"
  by (cases "extend_array b3 d")
    (auto simp: array_plus_depth_def vector_plus_depth_def nth_append array3_plus_depth_def)

theorem add_depth_witness:
  "vector_plus_depth [\<lparr>px = 1, py = 2\<rparr>] 5 ! 0 = Point3_0 \<and> vector_plus_depth [\<lparr>px = 1, py = 2\<rparr>] 5 ! 1 = \<lparr>qx = 1, qy = 2, qz = 5\<rparr>"
  using add_depth [of "[\<lparr>px = 1, py = 2\<rparr>]" 5 "[]"] by simp

end
