(* ===== verification/Calib.thy ===== *)
theory Calib
  imports Camera
begin

text \<open>
  The calibration containers of \<^verbatim>\<open>core/calib.h\<close> and the functions that search them. A container is
  modelled by the sequence of its entries together with the kind of map it is built on, which selects
  the search at compile time (\<^verbatim>\<open>CalProps\<close>). A pointer that is null or points into the container is
  an option.
\<close>

type_synonym isize = "int \<times> int"
type_synonym calib = "cvmat \<times> cvmat"

text \<open>The kinds of map: \<^verbatim>\<open>wpi::StringMap\<close>, \<^verbatim>\<open>VecMap\<close>, the associative containers of the standard
  library, and any other template.\<close>

datatype map_kind = WpiMap | SeqMap | AssocMap | OtherMap

record calib_set =
  set_kind :: map_kind
  set_items :: "(isize \<times> calib) list"

record calib_map =
  map_kind :: map_kind
  map_items :: "(string \<times> calib_set) list"

definition is_wpi_smap :: "calib_map \<Rightarrow> bool" where "is_wpi_smap m \<longleftrightarrow> map_kind m = WpiMap"
definition is_seq_smap :: "calib_map \<Rightarrow> bool" where "is_seq_smap m \<longleftrightarrow> map_kind m = SeqMap"
definition is_assoc_smap :: "calib_map \<Rightarrow> bool" where "is_assoc_smap m \<longleftrightarrow> map_kind m = AssocMap"
definition is_seq_cmap :: "calib_set \<Rightarrow> bool" where "is_seq_cmap s \<longleftrightarrow> set_kind s = SeqMap"
definition is_assoc_cmap :: "calib_set \<Rightarrow> bool" where "is_assoc_cmap s \<longleftrightarrow> set_kind s = AssocMap"

text \<open>The associative containers hold one entry per key; \<^verbatim>\<open>find\<close> on them, and the loop over a
  sequence, both give the first entry of the key.\<close>

fun seq_find :: "'k \<Rightarrow> ('k \<times> 'v) list \<Rightarrow> 'v option" where
  "seq_find k [] = None"
| "seq_find k (e # es) = (if fst e = k then Some (snd e) else seq_find k es)"

definition wpi_find_set_impl :: "string \<Rightarrow> calib_map \<Rightarrow> calib_set option" where
  "wpi_find_set_impl name m = map_of (map_items m) name"

definition seq_find_set_impl :: "string \<Rightarrow> calib_map \<Rightarrow> calib_set option" where
  "seq_find_set_impl name m = seq_find name (map_items m)"

text \<open>The body of this one is commented out.\<close>

definition assoc_find_set_impl :: "string \<Rightarrow> calib_map \<Rightarrow> calib_set option" where
  "assoc_find_set_impl name m = None"

definition findSet :: "string \<Rightarrow> calib_map \<Rightarrow> calib_set option" where
  "findSet name m =
     (if is_wpi_smap m then wpi_find_set_impl name m
      else if is_seq_smap m then seq_find_set_impl name m
      else if is_assoc_smap m then assoc_find_set_impl name m
      else None)"

definition seq_find_calib_impl :: "isize \<Rightarrow> calib_set \<Rightarrow> calib option" where
  "seq_find_calib_impl sz s = seq_find sz (set_items s)"

definition assoc_find_calib_impl :: "isize \<Rightarrow> calib_set \<Rightarrow> calib option" where
  "assoc_find_calib_impl sz s = map_of (set_items s) sz"

definition findCalib_set :: "isize \<Rightarrow> calib_set \<Rightarrow> calib option" where
  "findCalib_set sz s =
     (if is_seq_cmap s then seq_find_calib_impl sz s
      else if is_assoc_cmap s then assoc_find_calib_impl sz s
      else None)"

definition findCalib :: "string \<Rightarrow> isize \<Rightarrow> calib_map \<Rightarrow> calib option" where
  "findCalib name sz m = (case findSet name m of None \<Rightarrow> None | Some s \<Rightarrow> findCalib_set sz s)"

fun findAnyCalib :: "string list \<Rightarrow> isize \<Rightarrow> calib_map \<Rightarrow> calib option" where
  "findAnyCalib [] sz m = None"
| "findAnyCalib (n # ns) sz m =
     (case findSet n m of
        None \<Rightarrow> findAnyCalib ns sz m
      | Some s \<Rightarrow> (case findCalib_set sz s of None \<Rightarrow> findAnyCalib ns sz m | Some c \<Rightarrow> Some c))"

subsection \<open>Sizes in names\<close>

text \<open>\<^verbatim>\<open>std::from_chars\<close> for \<^verbatim>\<open>int\<close>: an optional minus sign and the longest sequence of digits; without
  digits, or out of range, the target keeps its value.\<close>

definition is_digit :: "char \<Rightarrow> bool" where
  "is_digit c \<longleftrightarrow> 48 \<le> (of_char c :: nat) \<and> (of_char c :: nat) \<le> 57"

definition from_chars :: "string \<Rightarrow> int \<Rightarrow> int" where
  "from_chars s old =
     (let neg = (case s of c # _ \<Rightarrow> c = CHR ''-'' | [] \<Rightarrow> False);
          ds = takeWhile is_digit (if neg then tl s else s);
          v = (if neg then - int (digits_val ds) else int (digits_val ds))
      in if ds \<noteq> [] \<and> - (2 ^ 31) \<le> v \<and> v < 2 ^ 31 then v else old)"

text \<open>\<^verbatim>\<open>str.find('x')\<close> is the position of the first \<^verbatim>\<open>x\<close>; without one it is \<^verbatim>\<open>npos\<close>, and the range
  given to \<^verbatim>\<open>from_chars\<close> is not one.\<close>

definition extractSize :: "string \<Rightarrow> isize res" where
  "extractSize s =
     (let a = length (takeWhile (\<lambda>c. c \<noteq> CHR ''x'') s) in
      if a = length s then Inl UB
      else Inr (from_chars (take a s) 0, from_chars (drop (a + 1) s) 0))"

subsection \<open>Laws\<close>

lemma seq_find_map_of: "seq_find k es = map_of es k"
  by (induction es) auto

text \<open>The reference: the first entry of the name, and in it the first entry of the size.\<close>

definition calib_lookup :: "string \<Rightarrow> isize \<Rightarrow> calib_map \<Rightarrow> calib option" where
  "calib_lookup name sz m = Option.bind (map_of (map_items m) name) (\<lambda>s. map_of (set_items s) sz)"

definition searchable :: "calib_map \<Rightarrow> bool" where
  "searchable m \<longleftrightarrow> (is_wpi_smap m \<or> is_seq_smap m) \<and>
     (\<forall>s \<in> snd ` set (map_items m). is_seq_cmap s \<or> is_assoc_cmap s)"

lemma findSet_eq: "is_wpi_smap m \<or> is_seq_smap m \<Longrightarrow> findSet name m = map_of (map_items m) name"
  by (auto simp: findSet_def wpi_find_set_impl_def seq_find_set_impl_def seq_find_map_of)

lemma findCalib_set_eq: "is_seq_cmap s \<or> is_assoc_cmap s \<Longrightarrow> findCalib_set sz s = map_of (set_items s) sz"
  by (auto simp: findCalib_set_def seq_find_calib_impl_def assoc_find_calib_impl_def seq_find_map_of)

lemma searchable_set: "searchable m \<Longrightarrow> map_of (map_items m) name = Some s \<Longrightarrow> is_seq_cmap s \<or> is_assoc_cmap s"
  by (force simp: searchable_def dest: map_of_SomeD)

lemma findCalib_eq:
  assumes "searchable m" shows "findCalib name sz m = calib_lookup name sz m"
proof -
  have f: "findSet name m = map_of (map_items m) name" using assms by (simp add: findSet_eq searchable_def)
  show ?thesis
  proof (cases "map_of (map_items m) name")
    case (Some s)
    then show ?thesis using f findCalib_set_eq [OF searchable_set [OF assms Some]]
      by (simp add: findCalib_def calib_lookup_def)
  qed (simp add: findCalib_def calib_lookup_def f)
qed

lemma findAnyCalib_eq:
  "searchable m \<Longrightarrow> findAnyCalib ns sz m =
     (case filter (\<lambda>n. calib_lookup n sz m \<noteq> None) ns of [] \<Rightarrow> None | n # _ \<Rightarrow> calib_lookup n sz m)"
proof (induction ns)
  case (Cons n ns)
  have f: "findSet n m = map_of (map_items m) n" using Cons.prems by (simp add: findSet_eq searchable_def)
  show ?case
  proof (cases "map_of (map_items m) n")
    case None
    then show ?thesis using Cons f by (simp add: calib_lookup_def)
  next
    case (Some s)
    then have "findCalib_set sz s = map_of (set_items s) sz"
      using searchable_set Cons.prems findCalib_set_eq by blast
    then show ?thesis using Cons f Some by (cases "map_of (set_items s) sz") (simp_all add: calib_lookup_def)
  qed
qed simp

text \<open>C26: The search for a calibration. For containers built on \<^verbatim>\<open>wpi::StringMap\<close> or on vectors the
  compile-time dispatch finds exactly the entry a lookup by name and then by size gives, and the search
  over several names gives that of the first name that has one; for containers built on \<^verbatim>\<open>std::map\<close>
  and its relatives nothing is ever found.\<close>

theorem calibration_search:
  assumes "searchable m"
  shows "findCalib name sz m = calib_lookup name sz m
    \<and> findAnyCalib ns sz m =
        (case filter (\<lambda>n. calib_lookup n sz m \<noteq> None) ns of [] \<Rightarrow> None | n # _ \<Rightarrow> calib_lookup n sz m)
    \<and> findCalib name sz (m\<lparr>map_kind := AssocMap\<rparr>) = None"
proof (intro conjI)
  show "findCalib name sz (m\<lparr>map_kind := AssocMap\<rparr>) = None"
    by (simp add: findCalib_def findSet_def is_wpi_smap_def is_seq_smap_def is_assoc_smap_def assoc_find_set_impl_def)
qed (use assms in \<open>simp_all add: findCalib_eq findAnyCalib_eq\<close>)

definition demo_map :: calib_map where
  "demo_map = \<lparr>map_kind = SeqMap, map_items = [(''lifecam'', \<lparr>set_kind = SeqMap, set_items =
     [((640, 480), (default_matrix, default_distort))]\<rparr>)]\<rparr>"

theorem calibration_search_witness:
  "findAnyCalib [''c920'', ''lifecam''] (640, 480) demo_map = Some (default_matrix, default_distort)"
  using calibration_search [of demo_map _ "(640, 480)" "[''c920'', ''lifecam'']"]
  by (simp add: demo_map_def searchable_def is_seq_smap_def is_seq_cmap_def is_wpi_smap_def calib_lookup_def)

lemma to_string_digits: "list_all is_digit (to_string n) \<and> to_string n \<noteq> []"
proof (induction n rule: to_string.induct)
  case (1 n)
  show ?case
  proof (cases "n < 10")
    case True
    then show ?thesis by (simp add: to_string.simps [of n] is_digit_def)
  next
    case False
    then show ?thesis using 1 by (simp add: to_string.simps [of n] is_digit_def)
  qed
qed

lemma digit_chars: "is_digit c \<Longrightarrow> c \<noteq> CHR ''x'' \<and> c \<noteq> CHR ''-''"
  by (auto simp: is_digit_def)

lemma from_chars_to_string: "n < 2 ^ 31 \<Longrightarrow> from_chars (to_string n) old = int n"
proof -
  assume n: "n < 2 ^ 31"
  obtain c cs where c: "to_string n = c # cs" using to_string_digits [of n] by (cases "to_string n") auto
  then have "c \<noteq> CHR ''-''" using to_string_digits [of n] digit_chars by simp
  moreover have "takeWhile is_digit (to_string n) = to_string n"
    using to_string_digits [of n] by (simp add: takeWhile_eq_all_conv list_all_iff)
  ultimately show ?thesis using n c digits_val_to_string [of n] by (simp add: from_chars_def Let_def)
qed

text \<open>The size in a calibration's name is read back: \<^verbatim>\<open>extractSize\<close> of width, \<^verbatim>\<open>x\<close> and height in
  decimal gives that width and height. A name without \<^verbatim>\<open>x\<close> makes it form an invalid pointer range.\<close>

theorem extractSize_roundtrip:
  assumes "w < 2 ^ 31" "h < 2 ^ 31"
  shows "extractSize (to_string w @ ''x'' @ to_string h) = Inr (int w, int h) \<and> extractSize (to_string w) = Inl UB"
proof -
  have nx: "\<forall>c \<in> set (to_string w). c \<noteq> CHR ''x''"
    using to_string_digits [of w] digit_chars by (auto simp: list_all_iff)
  then have t: "takeWhile (\<lambda>c. c \<noteq> CHR ''x'') (to_string w) = to_string w"
    by (simp add: takeWhile_eq_all_conv)
  moreover have "takeWhile (\<lambda>c. c \<noteq> CHR ''x'') (to_string w @ ''x'' @ to_string h) = to_string w"
    using nx by (simp add: takeWhile_append t)
  ultimately show ?thesis using assms unfolding extractSize_def Let_def by (simp only:) (simp add: from_chars_to_string)
qed

theorem extractSize_roundtrip_witness: "extractSize ''640x480'' = Inr (640, 480)"
proof -
  have "to_string 640 = ''640''" "to_string 480 = ''480''" by (simp_all add: to_string.simps char_of_def bit_0 bit_Suc)
  then show ?thesis using extractSize_roundtrip [of 640 480] by simp
qed

end
