(* ===== verification/Config.thy ===== *)
theory Config
  imports Calib
begin

text \<open>
  The configuration loader of \<^verbatim>\<open>core/config.cpp\<close>: setting up NetworkTables and creating the cameras.
  The file system is a function from paths to what reading and parsing the file gives; messages on the
  standard error stream are the call \<open>StdErr\<close>. \<open>rm\<close> tells whether the build defines
  \<^verbatim>\<open>REMOVE_DISCONNECTED_CAMERAS\<close>. A vector of cameras that grows moves them; the destructors of
  the moved-from cameras remove listener 0, which is no listener, and are left out of the log.
\<close>

datatype cfg_file = FileMissing | FileUnparsable | FileJson json

type_synonym files = "string \<Rightarrow> cfg_file"

definition loadJson :: "files \<Rightarrow> string \<Rightarrow> json option \<times> log" where
  "loadJson fs f = (case fs f of
       FileMissing \<Rightarrow> (None, [StdErr])
     | FileUnparsable \<Rightarrow> (None, [StdErr])
     | FileJson j \<Rightarrow> (if is_object j then (Some j, []) else (None, [StdErr])))"

subsection \<open>NetworkTables\<close>

text \<open>The block on "ntmode" that \<^verbatim>\<open>initNT\<close> and \<^verbatim>\<open>readConfig\<close> share: the result is false exactly when the
  function returns false here. In client mode the client is started before the team number is read.\<close>

definition nt_mode :: "json \<Rightarrow> bool \<times> log" where
  "nt_mode j =
     (if json_count j ''ntmode'' \<noteq> 0 then
        (case rbind (json_at j ''ntmode'') get_string of
           Inr str \<Rightarrow>
             (if equals_lower str ''client'' then
                (case rbind (json_at j ''team'') get_unsigned of
                   Inr team \<Rightarrow> (True, [NtStartClient ''VisionServer'', NtSetServerTeam team, NtStartDSClient])
                 | Inl _ \<Rightarrow> (False, [NtStartClient ''VisionServer'', StdErr]))
              else if equals_lower str ''server'' then (True, [NtStartServer])
              else (True, [NtStartClient ''VisionServer'', NtSetServer str]))
         | Inl _ \<Rightarrow> (True, [StdErr]))
      else (True, []))"

definition initNT :: "files \<Rightarrow> string \<Rightarrow> bool \<times> log" where
  "initNT fs f = (case loadJson fs f of
       (None, cs) \<Rightarrow> (False, cs)
     | (Some j, cs) \<Rightarrow> (let (ok, ds) = nt_mode j in (ok, cs @ ds)))"

definition initSimNT :: "string \<Rightarrow> bool \<times> log" where
  "initSimNT sim_ip = (True, [NtStartClient ''VisionServer'', NtSetServer sim_ip])"

subsection \<open>Cameras\<close>

type_synonym cam_state = "VisionCamera list \<times> mat_store \<times> log"

definition emplace_json :: "cs_lib \<Rightarrow> json \<Rightarrow> cam_state \<Rightarrow> cam_state" where
  "emplace_json L camera = (\<lambda>(cams, \<sigma>, l). let (c, cs) = VisionCamera_json L camera in (cams @ [c], \<sigma>, l @ cs))"

definition emplace_json2 :: "cs_lib \<Rightarrow> json \<Rightarrow> json \<Rightarrow> cam_state \<Rightarrow> cam_state res" where
  "emplace_json2 L camera cal = (\<lambda>(cams, \<sigma>, l). rbind (VisionCamera_json2 L camera cal \<sigma>)
     (\<lambda>(c, \<sigma>, cs). Inr (cams @ [c], \<sigma>, l @ cs)))"

definition remove_disconnected :: "bool \<Rightarrow> cs_lib \<Rightarrow> cam_state \<Rightarrow> cam_state" where
  "remove_disconnected rm L = (\<lambda>(cams, \<sigma>, l).
     if rm \<and> \<not> is_connected L (m_handle (last cams))
     then (butlast cams, \<sigma>, l @ VisionCamera_destroy (last cams)) else (cams, \<sigma>, l))"

text \<open>The block the configuration \<open>j\<close> names for a camera.\<close>

definition named_calib :: "json \<Rightarrow> json \<Rightarrow> json res" where
  "named_calib j camera = rbind (json_at j ''calibrations'') (\<lambda>cs.
     rbind (json_at camera ''calibration'') (\<lambda>n. rbind (get_string n) (json_at cs)))"

definition create_one :: "bool \<Rightarrow> cs_lib \<Rightarrow> json \<Rightarrow> json \<Rightarrow> cam_state \<Rightarrow> cam_state res" where
  "create_one rm L j camera x =
     rbind (if json_count camera ''calibration'' > 0 \<and> json_count j ''calibrations'' > 0 then
              (case named_calib j camera of
                 Inr cal \<Rightarrow> emplace_json2 L camera cal x
               | Inl _ \<Rightarrow> (let (cams, \<sigma>, l) = x in Inr (emplace_json L camera (cams, \<sigma>, l @ [StdErr]))))
            else Inr (emplace_json L camera x))
       (\<lambda>x. Inr (remove_disconnected rm L x))"

definition create_all :: "(json \<Rightarrow> cam_state \<Rightarrow> cam_state res) \<Rightarrow> json \<Rightarrow> cam_state \<Rightarrow> cam_state res" where
  "create_all one j x =
     (if json_count j ''cameras'' < 1 then (let (cams, \<sigma>, l) = x in Inr (cams, \<sigma>, l @ [StdErr]))
      else rbind (json_at j ''cameras'') (\<lambda>cs. rfold one (json_items cs) x))"

definition createCameras :: "bool \<Rightarrow> cs_lib \<Rightarrow> files \<Rightarrow> string \<Rightarrow> cam_state \<Rightarrow> (bool \<times> cam_state) res" where
  "createCameras rm L fs f = (\<lambda>(cams, \<sigma>, l). case loadJson fs f of
       (None, cs) \<Rightarrow> Inr (False, (cams, \<sigma>, l @ cs))
     | (Some j, cs) \<Rightarrow> rbind (create_all (create_one rm L j) j (cams, \<sigma>, l @ cs)) (\<lambda>x. Inr (True, x)))"

text \<open>The version with a table of calibrations: a camera with a "type" property looks itself up in the
  table by its resolution; without one it may name a block of the configuration.\<close>

definition apply_table :: "calib_map \<Rightarrow> json \<Rightarrow> VisionCamera \<Rightarrow> VisionCamera res" where
  "apply_table table camera cam =
     rbind (json_at camera ''properties'') (\<lambda>p. rbind (json_at p ''type'') (\<lambda>t. rbind (get_string t) (\<lambda>type.
       Inr (case findCalib type (getResolution cam) table of
              None \<Rightarrow> cam
            | Some cal \<Rightarrow> snd (setDistortionCoefs (snd cal) (snd (setCameraMatrix (fst cal) cam)))))))"

definition create_one_table :: "bool \<Rightarrow> cs_lib \<Rightarrow> calib_map \<Rightarrow> json \<Rightarrow> json \<Rightarrow> cam_state \<Rightarrow> cam_state res" where
  "create_one_table rm L table j camera x =
     (let (cams, \<sigma>, l) = emplace_json L camera x; cam = last cams in
      rbind
        (if json_count camera ''properties'' \<noteq> 0 \<and>
            (case json_at camera ''properties'' of Inr p \<Rightarrow> json_count p ''type'' \<noteq> 0 | Inl _ \<Rightarrow> False) then
           (case apply_table table camera cam of
              Inr cam' \<Rightarrow> Inr (butlast cams @ [cam'], \<sigma>, l)
            | Inl _ \<Rightarrow> Inr (cams, \<sigma>, l @ [StdErr]))
         else if json_count j ''calibrations'' > 0 \<and> json_count camera ''calibration'' > 0 then
           (case named_calib j camera of
              Inr cal \<Rightarrow> rbind (setCalibrationJson cal cam \<sigma>) (\<lambda>(_, cam', \<sigma>'). Inr (butlast cams @ [cam'], \<sigma>', l))
            | Inl _ \<Rightarrow> Inr (cams, \<sigma>, l @ [StdErr]))
         else Inr (cams, \<sigma>, l))
        (\<lambda>x. Inr (remove_disconnected rm L x)))"

definition createCameras_table ::
    "bool \<Rightarrow> cs_lib \<Rightarrow> calib_map \<Rightarrow> files \<Rightarrow> string \<Rightarrow> cam_state \<Rightarrow> (bool \<times> cam_state) res" where
  "createCameras_table rm L table fs f = (\<lambda>(cams, \<sigma>, l). case loadJson fs f of
       (None, cs) \<Rightarrow> Inr (False, (cams, \<sigma>, l @ cs))
     | (Some j, cs) \<Rightarrow> rbind (create_all (create_one_table rm L table j) j (cams, \<sigma>, l @ cs)) (\<lambda>x. Inr (True, x)))"

definition readConfig :: "bool \<Rightarrow> cs_lib \<Rightarrow> files \<Rightarrow> string \<Rightarrow> cam_state \<Rightarrow> (bool \<times> cam_state) res" where
  "readConfig rm L fs f = (\<lambda>(cams, \<sigma>, l). case loadJson fs f of
       (None, cs) \<Rightarrow> Inr (False, (cams, \<sigma>, l @ cs))
     | (Some j, cs) \<Rightarrow> (let (ok, ds) = nt_mode j in
          if ok then rbind (create_all (create_one rm L j) j (cams, \<sigma>, l @ cs @ ds)) (\<lambda>x. Inr (True, x))
          else Inr (False, (cams, \<sigma>, l @ cs @ ds))))"

subsection \<open>Properties\<close>

definition demo_files :: files where
  "demo_files f = (if f = ''/boot/frc.json'' then FileJson (JObject [
     (''ntmode'', JString ''Client''),
     (''cameras'', JArray [JObject [(''name'', JString ''a''), (''path'', JString ''/dev/video0'')], JNull])])
   else FileMissing)"

text \<open>The mode of NetworkTables. A file that cannot be read makes \<^verbatim>\<open>initNT\<close> fail without touching
  the network; the mode "server", in any case of letters, starts a server and nothing else; the mode
  "client" starts a client, and succeeds exactly if the team number can be read; any other string is
  taken for the host of a simulation. At most one of server and client is ever started.\<close>

theorem initNT_modes:
  "(\<not> (\<exists>j. fs f = FileJson j \<and> is_object j) \<longrightarrow> initNT fs f = (False, [StdErr]))
   \<and> (fs f = FileJson j \<and> json_at j ''ntmode'' = Inr (JString m) \<longrightarrow>
       initNT fs f =
         (if equals_lower m ''client'' then
            (case rbind (json_at j ''team'') get_unsigned of
               Inr t \<Rightarrow> (True, [NtStartClient ''VisionServer'', NtSetServerTeam t, NtStartDSClient])
             | Inl _ \<Rightarrow> (False, [NtStartClient ''VisionServer'', StdErr]))
          else if equals_lower m ''server'' then (True, [NtStartServer])
          else (True, [NtStartClient ''VisionServer'', NtSetServer m])))
   \<and> length (filter (\<lambda>c. c = NtStartServer \<or> (\<exists>n. c = NtStartClient n)) (snd (initNT fs f))) \<le> 1"
proof (intro conjI impI)
  assume "\<not> (\<exists>j. fs f = FileJson j \<and> is_object j)"
  then show "initNT fs f = (False, [StdErr])" by (auto simp: initNT_def loadJson_def split: cfg_file.splits)
next
  assume a: "fs f = FileJson j \<and> json_at j ''ntmode'' = Inr (JString m)"
  then obtain ms where "j = JObject ms" "map_of ms ''ntmode'' = Some (JString m)"
    by (cases j) (auto split: option.splits)
  then show "initNT fs f =
         (if equals_lower m ''client'' then
            (case rbind (json_at j ''team'') get_unsigned of
               Inr t \<Rightarrow> (True, [NtStartClient ''VisionServer'', NtSetServerTeam t, NtStartDSClient])
             | Inl _ \<Rightarrow> (False, [NtStartClient ''VisionServer'', StdErr]))
          else if equals_lower m ''server'' then (True, [NtStartServer])
          else (True, [NtStartClient ''VisionServer'', NtSetServer m]))"
    using a by (simp add: initNT_def loadJson_def nt_mode_def split: sum.splits)
next
  have "length (filter (\<lambda>c. c = NtStartServer \<or> (\<exists>n. c = NtStartClient n)) (snd (nt_mode j))) \<le> 1" for j
    by (auto simp: nt_mode_def split: sum.splits)
  then show "length (filter (\<lambda>c. c = NtStartServer \<or> (\<exists>n. c = NtStartClient n)) (snd (initNT fs f))) \<le> 1"
    by (auto simp: initNT_def loadJson_def split_beta split: cfg_file.splits)
qed

theorem initNT_modes_witness: "initNT demo_files ''/boot/frc.json'' = (False, [NtStartClient ''VisionServer'', StdErr])"
proof -
  have "equals_lower ''Client'' ''client''" by code_simp
  then show ?thesis using initNT_modes [of demo_files "''/boot/frc.json''"
      "JObject [(''ntmode'', JString ''Client''),
       (''cameras'', JArray [JObject [(''name'', JString ''a''), (''path'', JString ''/dev/video0'')], JNull])]" "''Client''"]
    by (simp add: demo_files_def)
qed


subsubsection \<open>One camera per entry\<close>

text \<open>The new cameras \<open>ns\<close> answer to the configuration entries \<open>es\<close>.\<close>

definition made_from :: "cs_lib \<Rightarrow> json list \<Rightarrow> VisionCamera list \<Rightarrow> bool" where
  "made_from L es ns \<longleftrightarrow> map config ns = es \<and> map m_handle ns = map (fst \<circ> open_usb L) es"

definition kept_entries :: "bool \<Rightarrow> cs_lib \<Rightarrow> json list \<Rightarrow> json list" where
  "kept_entries rm L es = filter (\<lambda>e. rm \<longrightarrow> is_connected L (fst (open_usb L e))) es"

definition cams_inv :: "cs_lib \<Rightarrow> VisionCamera list \<Rightarrow> json list \<Rightarrow> cam_state \<Rightarrow> bool" where
  "cams_inv L old es = (\<lambda>(cams, \<sigma>, l). store_ok \<sigma> \<and> (\<exists>ns. cams = old @ ns \<and> made_from L es ns))"

lemma json_camera: "config (fst (VisionCamera_json L e)) = e" "m_handle (fst (VisionCamera_json L e)) = fst (open_usb L e)"
  by (simp_all add: VisionCamera_json_def VisionCamera0_def Let_def split_beta)

lemma made_from_snoc [simp]:
  "config c = e \<Longrightarrow> m_handle c = fst (open_usb L e) \<Longrightarrow> made_from L (es @ [e]) (ns @ [c]) = made_from L es ns"
  by (auto simp: made_from_def)

lemma emplace_json_inv:
  assumes "cams_inv L old es (cams, \<sigma>, l)" shows "cams_inv L old (es @ [e]) (emplace_json L e (cams, \<sigma>, l'))"
proof -
  obtain ns where "store_ok \<sigma>" "cams = old @ ns" "made_from L es ns" using assms by (auto simp: cams_inv_def)
  then show ?thesis
    by (auto simp: cams_inv_def emplace_json_def split_beta json_camera intro!: exI [of _ "ns @ [fst (VisionCamera_json L e)]"])
qed

lemma emplace_json2_inv:
  assumes "cams_inv L old es x"
  shows "\<exists>y. emplace_json2 L e cal x = Inr y \<and> cams_inv L old (es @ [e]) y"
proof -
  obtain ns \<sigma> l where x: "x = (old @ ns, \<sigma>, l)" "store_ok \<sigma>" "made_from L es ns"
    using assms by (auto simp: cams_inv_def)
  obtain c \<sigma>' cs where c: "VisionCamera_json2 L e cal \<sigma> = Inr (c, \<sigma>', cs)" "store_ok \<sigma>'"
      "config c = e" "m_handle c = fst (open_usb L e)"
    using json2_fresh [OF x(2), of L e cal] by auto
  then show ?thesis using x
    by (auto simp: emplace_json2_def cams_inv_def intro!: exI [of _ "ns @ [c]"])
qed

lemma remove_inv:
  assumes "cams_inv L old (es @ [e]) x"
  shows "cams_inv L old (es @ kept_entries rm L [e]) (remove_disconnected rm L x)"
proof -
  obtain ns \<sigma> l where x: "x = (old @ ns, \<sigma>, l)" "store_ok \<sigma>" "made_from L (es @ [e]) ns"
    using assms by (auto simp: cams_inv_def)
  then have "ns \<noteq> []" by (auto simp: made_from_def)
  then obtain ms c where ns: "ns = ms @ [c]" by (cases ns rule: rev_cases) auto
  have c: "config c = e" "m_handle c = fst (open_usb L e)" "made_from L es ms"
    using x(3) by (auto simp: made_from_def ns)
  show ?thesis using x c by (auto simp: remove_disconnected_def cams_inv_def kept_entries_def ns butlast_append
      intro!: exI [of _ ms])
qed

lemma create_one_inv:
  assumes "cams_inv L old es x"
  shows "\<exists>y. create_one rm L j e x = Inr y \<and> cams_inv L old (es @ kept_entries rm L [e]) y"
proof -
  obtain cams \<sigma> l where x: "x = (cams, \<sigma>, l)" by (cases x)
  define step where "step = (if json_count e ''calibration'' > 0 \<and> json_count j ''calibrations'' > 0 then
      (case named_calib j e of Inr cal \<Rightarrow> emplace_json2 L e cal x
       | Inl _ \<Rightarrow> (let (cams, \<sigma>, l) = x in Inr (emplace_json L e (cams, \<sigma>, l @ [StdErr]))))
    else Inr (emplace_json L e x))"
  have "\<exists>y. step = Inr y \<and> cams_inv L old (es @ [e]) y"
    using emplace_json2_inv [OF assms] emplace_json_inv [OF assms [unfolded x]]
    by (auto simp: step_def x simp del: split_paired_Ex split: sum.splits)
  then show ?thesis using remove_inv unfolding create_one_def step_def [symmetric]
    by (auto simp del: split_paired_Ex)
qed

lemma create_loop_inv:
  assumes "cams_inv L old es x"
  shows "\<exists>y. rfold (create_one rm L j) fs x = Inr y \<and> cams_inv L old (es @ kept_entries rm L fs) y"
  using assms
proof (induction fs arbitrary: es x)
  case Nil
  then show ?case by (simp add: kept_entries_def)
next
  case (Cons e fs)
  obtain y where y: "create_one rm L j e x = Inr y" "cams_inv L old (es @ kept_entries rm L [e]) y"
    using create_one_inv [OF Cons.prems] by blast
  have "kept_entries rm L (e # fs) = kept_entries rm L [e] @ kept_entries rm L fs" by (simp add: kept_entries_def)
  then show ?case using Cons.IH [OF y(2)] y(1) by simp
qed

lemma create_made:
  assumes "store_ok \<sigma>" "fs f = FileJson (JObject ms)" "map_of ms ''cameras'' = Some (JArray es)"
  shows "\<exists>ns \<sigma>' l'. createCameras rm L fs f (cams, \<sigma>, l) = Inr (True, (cams @ ns, \<sigma>', l')) \<and> made_from L (kept_entries rm L es) ns"
proof -
  have "cams_inv L cams [] (cams, \<sigma>, l)" using assms by (simp add: cams_inv_def made_from_def)
  from create_loop_inv [OF this, of rm "JObject ms" es] show ?thesis
    using assms by (auto simp: createCameras_def loadJson_def create_all_def cams_inv_def)
qed

text \<open>\<^verbatim>\<open>createCameras\<close> on a readable file with a list of cameras succeeds and appends, behind the
  cameras already there, one camera for each entry in order, opened from the entry's name and path,
  whatever the entries hold; a build that removes disconnected cameras leaves out exactly those that
  are not connected. On any other file it fails and adds nothing.\<close>

theorem createCameras_one_per_entry:
  assumes "store_ok \<sigma>"
  shows "(fs f = FileJson (JObject ms) \<and> map_of ms ''cameras'' = Some (JArray es) \<longrightarrow>
      (\<exists>ns \<sigma>' l'. createCameras rm L fs f (cams, \<sigma>, l) = Inr (True, (cams @ ns, \<sigma>', l')) \<and>
        map config ns = kept_entries rm L es \<and> map m_handle ns = map (fst \<circ> open_usb L) (kept_entries rm L es)))
    \<and> (\<not> (\<exists>ms. fs f = FileJson (JObject ms)) \<longrightarrow>
        createCameras rm L fs f (cams, \<sigma>, l) = Inr (False, (cams, \<sigma>, l @ [StdErr])))"
proof (intro conjI impI)
  assume a: "fs f = FileJson (JObject ms) \<and> map_of ms ''cameras'' = Some (JArray es)"
  then show "\<exists>ns \<sigma>' l'. createCameras rm L fs f (cams, \<sigma>, l) = Inr (True, (cams @ ns, \<sigma>', l')) \<and>
        map config ns = kept_entries rm L es \<and> map m_handle ns = map (fst \<circ> open_usb L) (kept_entries rm L es)"
    using create_made [where fs = fs and f = f and ms = ms, OF assms] by (auto simp: made_from_def)
next
  assume "\<not> (\<exists>ms. fs f = FileJson (JObject ms))"
  then show "createCameras rm L fs f (cams, \<sigma>, l) = Inr (False, (cams, \<sigma>, l @ [StdErr]))"
    by (auto simp: createCameras_def loadJson_def split: cfg_file.splits elim: is_object.elims)
qed

theorem createCameras_one_per_entry_witness:
  "\<exists>ns \<sigma>' l'. createCameras False demo_lib demo_files ''/boot/frc.json'' ([], mat_store0, []) = Inr (True, (ns, \<sigma>', l'))
     \<and> map m_handle ns = [7, 0]"
proof -
  let ?es = "[JObject [(''name'', JString ''a''), (''path'', JString ''/dev/video0'')], JNull]"
  have f: "demo_files ''/boot/frc.json'' = FileJson (JObject [(''ntmode'', JString ''Client''), (''cameras'', JArray ?es)])"
    by (simp add: demo_files_def)
  have k: "map (fst \<circ> open_usb demo_lib) (kept_entries False demo_lib ?es) = [7, 0]"
    by (simp add: kept_entries_def open_usb_def demo_lib_def)
  obtain ns \<sigma>' l' where
    "createCameras False demo_lib demo_files ''/boot/frc.json'' ([], mat_store0, []) = Inr (True, ([] @ ns, \<sigma>', l'))"
    "map m_handle ns = map (fst \<circ> open_usb demo_lib) (kept_entries False demo_lib ?es)"
    using createCameras_one_per_entry [OF store_ok0, of demo_files "''/boot/frc.json''"
      "[(''ntmode'', JString ''Client''), (''cameras'', JArray ?es)]" ?es False demo_lib "[]" "[]"] f by auto
  then show ?thesis unfolding k by auto
qed

end
