(* ===== verification/Target_NT.thy ===== *)
theory Target_NT
  imports Server
begin

text \<open>
  The published targets of \<^verbatim>\<open>core/target.h\<close>: \<^verbatim>\<open>Target\<close> and \<^verbatim>\<open>UniqueTarget\<close>. Every operation is the
  list of the values it puts to the target's table.
\<close>

datatype status = INVALID | EXPIRED | VALID

primrec status_code :: "status \<Rightarrow> int" where
  "status_code INVALID = - 1" | "status_code EXPIRED = 0" | "status_code VALID = 1"

definition targets_table :: path where
  "targets_table = vs_table @ [''Targets'']"

record Target =
  tname :: string
  ttable :: path

definition put_status_t :: "Target \<Rightarrow> status \<Rightarrow> call" where
  "put_status_t t st = put_num (ttable t) ''Status'' (status_code st)"

text \<open>Both constructors; the destructor.\<close>

definition Target_new :: "string \<Rightarrow> Target \<times> log" where
  "Target_new n = (let t = \<lparr>tname = n, ttable = targets_table @ [n]\<rparr> in (t, [put_status_t t EXPIRED]))"

definition Target_destroy :: "Target \<Rightarrow> log" where
  "Target_destroy t = [put_status_t t INVALID]"

definition setPos :: "dbl \<Rightarrow> dbl \<Rightarrow> dbl \<Rightarrow> Target \<Rightarrow> log" where
  "setPos x y z t = [NtPut (ttable t) ''x'' (NtDouble x), NtPut (ttable t) ''y'' (NtDouble y),
     NtPut (ttable t) ''z'' (NtDouble z)]"

definition setAngle :: "dbl \<Rightarrow> dbl \<Rightarrow> Target \<Rightarrow> log" where
  "setAngle ud lr t = [NtPut (ttable t) ''up-down'' (NtDouble ud), NtPut (ttable t) ''left-right'' (NtDouble lr)]"

definition setDist :: "dbl \<Rightarrow> Target \<Rightarrow> log" where
  "setDist d t = [NtPut (ttable t) ''distance'' (NtDouble d)]"

definition setExpired :: "Target \<Rightarrow> log" where
  "setExpired t = [put_status_t t EXPIRED]"

definition setValid :: "Target \<Rightarrow> log" where
  "setValid t = [put_status_t t VALID]"

text \<open>A \<^verbatim>\<open>UniqueTarget\<close> appends the number of the instance to its name.\<close>

definition UniqueTarget_new :: "string \<Rightarrow> nat \<Rightarrow> Target \<times> log" where
  "UniqueTarget_new n inst = Target_new (n @ ''/Detection '' @ to_string inst)"

subsection \<open>Properties\<close>

datatype target_op = OpPos dbl dbl dbl | OpAngle dbl dbl | OpDist dbl | OpExpired | OpValid

primrec target_exec :: "target_op \<Rightarrow> Target \<Rightarrow> log" where
  "target_exec (OpPos x y z) t = setPos x y z t"
| "target_exec (OpAngle a b) t = setAngle a b t"
| "target_exec (OpDist d) t = setDist d t"
| "target_exec OpExpired t = setExpired t"
| "target_exec OpValid t = setValid t"

text \<open>The life of a target: construction, any operations, and optionally destruction.\<close>

definition target_log :: "string \<Rightarrow> target_op list \<Rightarrow> log" where
  "target_log n ops = (let (t, cs) = Target_new n in cs @ concat (map (\<lambda>p. target_exec p t) ops))"

fun status_after :: "status \<Rightarrow> target_op list \<Rightarrow> status" where
  "status_after st [] = st"
| "status_after st (OpExpired # ops) = status_after EXPIRED ops"
| "status_after st (OpValid # ops) = status_after VALID ops"
| "status_after st (_ # ops) = status_after st ops"

lemma status_log:
  assumes "last_put cs (ttable t) ''Status'' = Some (NtDouble (of_int_dbl (status_code st)))"
  shows "last_put (cs @ concat (map (\<lambda>p. target_exec p t) ops)) (ttable t) ''Status''
    = Some (NtDouble (of_int_dbl (status_code (status_after st ops))))"
  using assms
proof (induction ops arbitrary: cs st)
  case (Cons p ops)
  have "last_put (cs @ target_exec p t) (ttable t) ''Status'' =
      Some (NtDouble (of_int_dbl (status_code (status_after st [p]))))"
    using Cons.prems by (cases p)
      (simp_all add: last_put_append setPos_def setAngle_def setDist_def setExpired_def setValid_def put_status_t_def put_num_def)
  moreover have "status_after st (p # ops) = status_after (status_after st [p]) ops" by (cases p) simp_all
  ultimately show ?case using Cons.IH [of "cs @ target_exec p t"] by simp
qed simp

text \<open>The published status of a target is always that of its last change of status: "expired"
  after construction, then as the last \<^verbatim>\<open>setValid\<close> or \<^verbatim>\<open>setExpired\<close> says, whatever else is
  published in between, and "invalid" after destruction; and targets of different names or instances
  publish to different tables.\<close>

theorem target_status_published:
  "last_put (target_log n ops) (targets_table @ [n]) ''Status''
     = Some (NtDouble (of_int_dbl (status_code (status_after EXPIRED ops))))
   \<and> last_put (target_log n ops @ Target_destroy (fst (Target_new n))) (targets_table @ [n]) ''Status''
     = Some (NtDouble (of_int_dbl (- 1)))
   \<and> (ttable (fst (UniqueTarget_new n i)) = ttable (fst (UniqueTarget_new n j)) \<longleftrightarrow> i = j)"
proof -
  let ?t = "fst (Target_new n)"
  have "last_put (snd (Target_new n)) (ttable ?t) ''Status'' = Some (NtDouble (of_int_dbl (status_code EXPIRED)))"
    by (simp add: Target_new_def Let_def put_status_t_def put_num_def)
  from status_log [OF this, of ops] show ?thesis
    by (simp add: target_log_def split_beta Target_new_def Let_def Target_destroy_def put_status_t_def put_num_def
        UniqueTarget_new_def last_put_append)
qed

end
