(* ===== verification/Tf_Model.thy ===== *)
theory Tf_Model
  imports Json Platform
begin

text \<open>
  The TensorFlow Lite pipelines of \<^verbatim>\<open>core/tfmodel.h\<close> and \<^verbatim>\<open>core/tfmodel.cpp\<close>: loading object
  labels, choosing a model (\<^verbatim>\<open>TfModel\<close>), and the two pipelines built on it, \<^verbatim>\<open>AxonRunner\<close> and
  \<^verbatim>\<open>MoveNet\<close>. TensorFlow itself is the argument \<open>tf_lib\<close>: what can be loaded, and the shapes of the
  tensors of an interpreter. The contents of the output tensors after \<^verbatim>\<open>Invoke\<close> are an argument of
  \<^verbatim>\<open>process\<close>, lists of finite numbers; what is drawn on the frame is its result.

  A pointer member that the constructor may leave unset is \<open>Indeterminate\<close>; using it is undefined.
  Lines of a label file are taken to be shorter than \<open>2 ^ 31\<close>, the range of the \<^verbatim>\<open>int32_t\<close> positions.
\<close>

subsection \<open>Object labels\<close>

text \<open>The strings \<^verbatim>\<open>std::getline\<close> yields until it fails: a final line end opens no further line.\<close>

fun lines_of :: "string \<Rightarrow> string list" where
  "lines_of [] = []"
| "lines_of (c # cs) = (if c = CHR 0x0A then [] # lines_of cs
     else (case lines_of cs of [] \<Rightarrow> [[c]]
           | l # ls \<Rightarrow> (c # l) # ls))"

text \<open>The search for the first pair of quotes in a line; -1 marks a position not found.\<close>

fun scan_quotes :: "string \<Rightarrow> nat \<Rightarrow> int \<Rightarrow> int \<times> int" where
  "scan_quotes [] i start = (start, - 1)"
| "scan_quotes (c # cs) i start =
     (if c = CHR 0x22 then
        (if start < 0 then scan_quotes cs (Suc i) (int i + 1) else (start, int i))
      else scan_quotes cs (Suc i) start)"

definition quoted :: "string \<Rightarrow> string list" where
  "quoted line = (let (start, en) = scan_quotes line 0 (- 1) in
     if start \<ge> 0 \<and> en \<ge> 0 then [take (nat (en - start)) (drop (nat start) line)] else [])"

text \<open>\<open>None\<close> is a file that cannot be opened: the first \<^verbatim>\<open>getline\<close> fails and leaves the line empty.\<close>

definition loadObjectLabels :: "string option \<Rightarrow> string list" where
  "loadObjectLabels content =
     (case lines_of (case content of None \<Rightarrow> [] | Some s \<Rightarrow> s) of
        [] \<Rightarrow> [[]]
      | line # rest \<Rightarrow> (if line = ''item {'' then concat (map quoted rest) else line # rest))"

subsection \<open>Choosing a model\<close>

datatype Optimization = DEFAULT | EDGETPU

record tf_lib =
  build_from_file :: "string option \<Rightarrow> nat option"
  tpusAvailable :: nat
  build_interpreter :: "nat \<Rightarrow> bool \<Rightarrow> nat \<Rightarrow> nat option"
  n_inputs :: "nat \<Rightarrow> nat"
  n_outputs :: "nat \<Rightarrow> nat"
  in_dims :: "nat \<Rightarrow> int list"
  in_uint8 :: "nat \<Rightarrow> bool"
  in_alloc :: "nat \<Rightarrow> bool"
  out_alloc :: "nat \<Rightarrow> nat \<Rightarrow> bool"

text \<open>\<open>input_tensor\<close> is the matrix laid over the memory of the input: its size and whether there is
  memory at all.\<close>

record TfModel =
  tf_map :: "nat option"
  tf_model :: "nat option"
  edgetpu_context :: bool
  input_tensor :: "((int \<times> int) \<times> bool) option"
  input_size :: "int \<times> int"

definition TfModel0 :: TfModel where
  "TfModel0 = \<lparr>tf_map = None, tf_model = None, edgetpu_context = False, input_tensor = None, input_size = (0, 0)\<rparr>"

definition isValid :: "('a) TfModel_scheme \<Rightarrow> bool" where
  "isValid m \<longleftrightarrow> tf_map m \<noteq> None \<and> tf_model m \<noteq> None"

definition isValidBuffer :: "('a) TfModel_scheme \<Rightarrow> bool" where
  "isValidBuffer m \<longleftrightarrow> (case input_tensor m of None \<Rightarrow> False | Some ((w, h), mem) \<Rightarrow> mem \<and> w * h \<noteq> 0)"

text \<open>The loop over the models; \<open>custom\<close> tells whether the resolver has the operation of the Edge TPU,
  which stays registered. With the Edge TPU the interpreter is used without a test.\<close>

fun try_models :: "tf_lib \<Rightarrow> nat \<Rightarrow> (string option \<times> Optimization) list \<Rightarrow> bool \<Rightarrow> TfModel \<Rightarrow> TfModel res" where
  "try_models T th [] custom m = Inr m"
| "try_models T th ((file, opt) # items) custom m =
     (case build_from_file T file of
        None \<Rightarrow> try_models T th items custom (m\<lparr>tf_map := None\<rparr>)
      | Some b \<Rightarrow>
          (let m = m\<lparr>tf_map := Some b\<rparr> in
           if opt = EDGETPU \<and> tpusAvailable T \<noteq> 0 then
             (case build_interpreter T b True th of
                None \<Rightarrow> Inl UB
              | Some i \<Rightarrow> Inr (m\<lparr>tf_model := Some i, edgetpu_context := True\<rparr>))
           else
             (let m = m\<lparr>tf_model := build_interpreter T b custom th\<rparr> in
              if isValid m then Inr m else try_models T th items custom m)))"

definition setup_input :: "tf_lib \<Rightarrow> TfModel \<Rightarrow> TfModel res" where
  "setup_input T m = (case tf_model m of
       Some i \<Rightarrow>
         (if isValid m then
            (if n_inputs T i = 1 then
               rbind (vec_idx (in_dims T i) 1) (\<lambda>d1. rbind (vec_idx (in_dims T i) 2) (\<lambda>d2.
               rbind (vec_idx (in_dims T i) 3) (\<lambda>d3.
               let m = m\<lparr>input_size := (d1, d2)\<rparr> in
               Inr (if d3 = 3 \<and> in_uint8 T i then m\<lparr>input_tensor := Some ((d1, d2), in_alloc T i)\<rparr> else m))))
             else Inr (m\<lparr>input_size := (- 1, - 1)\<rparr>))
          else Inr m)
     | None \<Rightarrow> Inr m)"

definition TfModel_new :: "tf_lib \<Rightarrow> (string option \<times> Optimization) list \<Rightarrow> nat \<Rightarrow> TfModel res" where
  "TfModel_new T models th = rbind (try_models T th models False TfModel0) (setup_input T)"

subsection \<open>Axon: object detection\<close>

datatype fptr = Indeterminate | NullPtr | Tensor nat

record AxonRunner = TfModel +
  obj_labels :: "string list"
  coords :: fptr
  labels :: fptr
  confidence :: fptr
  detections :: fptr

definition output_ptr :: "tf_lib \<Rightarrow> nat \<Rightarrow> nat \<Rightarrow> fptr" where
  "output_ptr T i k = (if out_alloc T i k then Tensor k else NullPtr)"

definition AxonRunner_new ::
    "tf_lib \<Rightarrow> (string \<Rightarrow> string option) \<Rightarrow> (string option \<times> Optimization) list \<Rightarrow> string \<Rightarrow> nat \<Rightarrow> AxonRunner res" where
  "AxonRunner_new T fs options map_file th = rbind (TfModel_new T options th) (\<lambda>m.
     let ptr = (\<lambda>k. case tf_model m of
                  Some i \<Rightarrow> if isValidBuffer m \<and> n_outputs T i = 4 then output_ptr T i k else Indeterminate
                | None \<Rightarrow> Indeterminate)
     in Inr (TfModel.extend m \<lparr>obj_labels = loadObjectLabels (fs map_file),
          coords = ptr 0, labels = ptr 1, confidence = ptr 2, detections = ptr 3\<rparr>))"

type_synonym tensors = "nat \<Rightarrow> rat list"

definition tensor_at :: "tensors \<Rightarrow> fptr \<Rightarrow> nat \<Rightarrow> rat res" where
  "tensor_at outs p i = (case p of Tensor k \<Rightarrow> vec_idx (outs k) i | _ \<Rightarrow> Inl UB)"

definition getDetections :: "tensors \<Rightarrow> AxonRunner \<Rightarrow> nat res" where
  "getDetections outs r = (case detections r of
       Indeterminate \<Rightarrow> Inl UB
     | NullPtr \<Rightarrow> Inr (2 ^ 64 - 1)
     | Tensor k \<Rightarrow> rbind (vec_idx (outs k) 0) (\<lambda>d. Inr (nat (fcvtzu64 (Fin d)))))"

definition getX1 where "getX1 outs r i = tensor_at outs (coords r) (i * 4 + 1)"
definition getY1 where "getY1 outs r i = tensor_at outs (coords r) (i * 4)"
definition getX2 where "getX2 outs r i = tensor_at outs (coords r) (i * 4 + 3)"
definition getY2 where "getY2 outs r i = tensor_at outs (coords r) (i * 4 + 2)"

definition getLabel :: "tensors \<Rightarrow> AxonRunner \<Rightarrow> nat \<Rightarrow> string res" where
  "getLabel outs r i = rbind (tensor_at outs (labels r) i) (\<lambda>l. vec_at (obj_labels r) (nat (fcvtzu64 (Fin l))))"

definition getConfidence :: "tensors \<Rightarrow> AxonRunner \<Rightarrow> nat \<Rightarrow> int res" where
  "getConfidence outs r i = rbind (tensor_at outs (confidence r) i) (\<lambda>c. Inr (fcvtzu32 (Fin (c * 100))))"

datatype drawing = Rectangle rat rat rat rat | PutText string int int | Circle rat rat | Line "rat \<times> rat" "rat \<times> rat"

text \<open>The rectangle between two corners, \<^verbatim>\<open>cv::Rect_(pt1, pt2)\<close>: the smaller coordinates and the
  differences. A position of text is truncated to whole pixels.\<close>

definition corners :: "rat \<Rightarrow> rat \<Rightarrow> rat \<Rightarrow> rat \<Rightarrow> rat \<times> rat \<times> rat \<times> rat" where
  "corners x1 y1 x2 y2 = (min x1 x2, min y1 y2, max x1 x2 - min x1 x2, max y1 y2 - min y1 y2)"

definition axon_draw :: "tensors \<Rightarrow> AxonRunner \<Rightarrow> int \<Rightarrow> int \<Rightarrow> nat \<Rightarrow> drawing list \<Rightarrow> drawing list res" where
  "axon_draw outs r w h i ds =
     rbind (getX1 outs r i) (\<lambda>x1. rbind (getY1 outs r i) (\<lambda>y1.
     rbind (getX2 outs r i) (\<lambda>x2. rbind (getY2 outs r i) (\<lambda>y2.
     let (x, y, bw, bh) = corners (x1 * of_int w) (y1 * of_int h) (x2 * of_int w) (y2 * of_int h) in
     rbind (getLabel outs r i) (\<lambda>l. rbind (getConfidence outs r i) (\<lambda>c.
     Inr (ds @ [Rectangle x y bw bh,
                PutText (l @ '': '' @ to_string (nat c) @ ''%'') (fcvtzs32 (Fin x)) (fcvtzs32 (Fin (y - 10)))])))))))"

definition Axon_process :: "tensors \<Rightarrow> int \<Rightarrow> int \<Rightarrow> AxonRunner \<Rightarrow> drawing list res" where
  "Axon_process outs w h r =
     (if isValidBuffer r then rbind (getDetections outs r) (\<lambda>n. rfold (axon_draw outs r w h) [0..<n] [])
      else Inr [])"

subsection \<open>MoveNet: pose estimation\<close>

datatype Output = NOSE | L_EYE | R_EYE | L_EAR | R_EAR | L_SHOULDER | R_SHOULDER | L_ELBOW | R_ELBOW
  | L_WRIST | R_WRIST | L_HIP | R_HIP | L_KNEE | R_KNEE | L_ANKLE | R_ANKLE | TOTAL

primrec Output_code :: "Output \<Rightarrow> nat" where
  "Output_code NOSE = 0" | "Output_code L_EYE = 1" | "Output_code R_EYE = 2" | "Output_code L_EAR = 3"
| "Output_code R_EAR = 4" | "Output_code L_SHOULDER = 5" | "Output_code R_SHOULDER = 6"
| "Output_code L_ELBOW = 7" | "Output_code R_ELBOW = 8" | "Output_code L_WRIST = 9"
| "Output_code R_WRIST = 10" | "Output_code L_HIP = 11" | "Output_code R_HIP = 12"
| "Output_code L_KNEE = 13" | "Output_code R_KNEE = 14" | "Output_code L_ANKLE = 15"
| "Output_code R_ANKLE = 16" | "Output_code TOTAL = 17"

definition names :: "string list" where
  "names = [''nose'', ''left eye'', ''right eye'', ''left ear'', ''right ear'', ''left shoulder'', ''right shoulder'',
     ''left elbow'', ''right elbow'', ''left wrist'', ''right wrist'', ''left hip'', ''right hip'',
     ''left knee'', ''right knee'', ''left ankle'', ''right ankle'']"

definition connections :: "(Output \<times> Output) list" where
  "connections = [(L_SHOULDER, R_SHOULDER), (L_SHOULDER, L_ELBOW), (L_ELBOW, L_WRIST), (R_SHOULDER, R_ELBOW),
     (R_ELBOW, R_WRIST), (L_HIP, R_HIP), (L_SHOULDER, L_HIP), (R_SHOULDER, R_HIP), (L_HIP, L_KNEE),
     (R_HIP, R_KNEE), (L_ANKLE, L_KNEE), (R_ANKLE, R_KNEE)]"

definition confid_thresh :: rat where
  "confid_thresh = 3 / 10"

record MoveNet = TfModel +
  outputs :: fptr

text \<open>The constructor asks the interpreter for its outputs without testing that there is one.\<close>

definition MoveNet_new :: "tf_lib \<Rightarrow> (string option \<times> Optimization) list \<Rightarrow> nat \<Rightarrow> MoveNet res" where
  "MoveNet_new T ops th = rbind (TfModel_new T ops th) (\<lambda>m. case tf_model m of
       None \<Rightarrow> Inl UB
     | Some i \<Rightarrow> Inr (TfModel.extend m \<lparr>outputs = (if n_outputs T i = 1 then output_ptr T i 0 else Indeterminate)\<rparr>))"

definition isValidOutput :: "MoveNet \<Rightarrow> bool res" where
  "isValidOutput r = (case outputs r of Indeterminate \<Rightarrow> Inl UB | NullPtr \<Rightarrow> Inr False | Tensor _ \<Rightarrow> Inr True)"

definition mn_getX where "mn_getX outs r i = tensor_at outs (outputs r) (i * 3 + 1)"
definition mn_getY where "mn_getY outs r i = tensor_at outs (outputs r) (i * 3)"
definition mn_getConfidence where "mn_getConfidence outs r i = tensor_at outs (outputs r) (i * 3 + 2)"

text \<open>The first loop fills the points and draws the confident ones; the second draws the connections.\<close>

definition mn_point :: "tensors \<Rightarrow> MoveNet \<Rightarrow> int \<Rightarrow> int \<Rightarrow> nat \<Rightarrow>
    (rat \<times> rat) list \<times> drawing list \<Rightarrow> ((rat \<times> rat) list \<times> drawing list) res" where
  "mn_point outs r w h i = (\<lambda>(ps, ds).
     rbind (mn_getX outs r i) (\<lambda>x. rbind (mn_getY outs r i) (\<lambda>y. rbind (mn_getConfidence outs r i) (\<lambda>c.
       let p = (x * of_int w, y * of_int h) in
       Inr (ps @ [p], if c > confid_thresh then ds @ [Circle (fst p) (snd p)] else ds)))))"

definition mn_connect :: "tensors \<Rightarrow> MoveNet \<Rightarrow> (rat \<times> rat) list \<Rightarrow> Output \<times> Output \<Rightarrow> drawing list \<Rightarrow> drawing list res" where
  "mn_connect outs r ps = (\<lambda>(a, b) ds.
     rbind (mn_getConfidence outs r (Output_code a)) (\<lambda>ca.
       if ca > confid_thresh then
         rbind (mn_getConfidence outs r (Output_code b)) (\<lambda>cb.
           if cb > confid_thresh then
             rbind (vec_idx ps (Output_code a)) (\<lambda>p. rbind (vec_idx ps (Output_code b)) (\<lambda>q. Inr (ds @ [Line p q])))
           else Inr ds)
       else Inr ds))"

definition MoveNet_process :: "tensors \<Rightarrow> int \<Rightarrow> int \<Rightarrow> MoveNet \<Rightarrow> drawing list res" where
  "MoveNet_process outs w h r =
     (if isValidBuffer r then rbind (isValidOutput r) (\<lambda>v. if v then
        rbind (rfold (mn_point outs r w h) [0..<Output_code TOTAL] ([], [])) (\<lambda>(ps, ds).
          rfold (mn_connect outs r ps) connections ds)
        else Inr [])
      else Inr [])"

subsection \<open>Label files\<close>

lemma lines_of_line: "CHR 0x0A \<notin> set l \<Longrightarrow> lines_of (l @ CHR 0x0A # s) = l # lines_of s"
  by (induction l) auto

lemma scan_skip:
  "CHR 0x22 \<notin> set l \<Longrightarrow> scan_quotes (l @ s) i st = scan_quotes s (i + length l) st"
  by (induction l arbitrary: i) auto

lemma quoted_none: "CHR 0x22 \<notin> set l \<Longrightarrow> quoted l = []"
  using scan_skip [of l "[]" 0 "- 1"] by (simp add: quoted_def)

lemma quoted_name:
  assumes "CHR 0x22 \<notin> set a" "CHR 0x22 \<notin> set l"
  shows "quoted (a @ CHR 0x22 # l @ CHR 0x22 # b) = [l]"
  using assms by (simp add: quoted_def scan_skip nat_add_distrib)

text \<open>A label map as the training tools write it: one item per label.\<close>

definition label_item :: "nat \<times> string \<Rightarrow> string" where
  "label_item = (\<lambda>(i, l). ''item {'' @ [CHR 0x0A] @ ''  id: '' @ to_string i @ [CHR 0x0A]
     @ ''  name: '' @ CHR 0x22 # l @ CHR 0x22 # [CHR 0x0A] @ ''}'' @ [CHR 0x0A])"

definition plain :: "string \<Rightarrow> bool" where
  "plain l \<longleftrightarrow> CHR 0x0A \<notin> set l \<and> CHR 0x22 \<notin> set l"

lemma to_string_chars: "c \<in> set (to_string n) \<Longrightarrow> 48 \<le> (of_char c :: nat) \<and> (of_char c :: nat) < 58"
proof (induction n rule: to_string.induct)
  case (1 n)
  then show ?case by (cases "n < 10") (auto simp: to_string.simps [of n])
qed

lemma plain_to_string: "plain (to_string n)"
  using to_string_chars [of "CHR 0x0A" n] to_string_chars [of "CHR 0x22" n] by (auto simp: plain_def)

lemma lines_of_item:
  assumes "plain l"
  shows "lines_of (label_item (i, l) @ s) =
    ''item {'' # (''  id: '' @ to_string i) # (''  name: '' @ CHR 0x22 # l @ [CHR 0x22]) # ''}'' # lines_of s"
proof -
  let ?n = "''  name: '' @ CHR 0x22 # l @ [CHR 0x22]"
  have "CHR 0x0A \<notin> set ''item {''" "CHR 0x0A \<notin> set (''  id: '' @ to_string i)" "CHR 0x0A \<notin> set ?n" "CHR 0x0A \<notin> set ''}''"
    using assms plain_to_string [of i] by (auto simp: plain_def)
  from this [THEN lines_of_line] show ?thesis by (simp add: label_item_def)
qed

lemma quoted_item_lines:
  assumes "plain l"
  shows "concat (map quoted [''  id: '' @ to_string i, ''  name: '' @ CHR 0x22 # l @ [CHR 0x22], ''}'']) = [l]"
proof -
  have "quoted (''  id: '' @ to_string i) = []" using plain_to_string [of i] by (intro quoted_none) (auto simp: plain_def)
  moreover have "quoted (''  name: '' @ CHR 0x22 # l @ CHR 0x22 # []) = [l]"
    using assms by (intro quoted_name) (auto simp: plain_def)
  moreover have "quoted ''}'' = []" by (rule quoted_none) simp
  ultimately show ?thesis by simp
qed

lemma quoted_items:
  "list_all (plain \<circ> snd) items \<Longrightarrow> concat (map quoted (lines_of (concat (map label_item items)))) = map snd items"
proof (induction items)
  case (Cons x items)
  obtain i l where x: "x = (i, l)" "plain l" using Cons.prems by (cases x) auto
  have "quoted ''item {'' = []" by (rule quoted_none) simp
  then show ?case using Cons x quoted_item_lines [OF x(2), of i] by (simp add: lines_of_item)
qed simp

lemma lines_of_plain:
  "list_all (\<lambda>l. CHR 0x0A \<notin> set l) ls \<Longrightarrow> lines_of (concat (map (\<lambda>l. l @ [CHR 0x0A]) ls)) = ls"
  by (induction ls) (auto simp: lines_of_line)

text \<open>C28: Loading labels inverts writing them, in both formats of \<^verbatim>\<open>loadObjectLabels\<close>: from a label map
  of items it reads exactly the names, in order, and from a file with one label per line exactly the
  lines, provided the first of them does not look like an item.\<close>

theorem load_labels_roundtrip:
  "(list_all (plain \<circ> snd) (x # items) \<longrightarrow>
      loadObjectLabels (Some (concat (map label_item (x # items)))) = map snd (x # items))
   \<and> (list_all (\<lambda>l. CHR 0x0A \<notin> set l) (l # ls) \<and> l \<noteq> ''item {'' \<longrightarrow>
      loadObjectLabels (Some (concat (map (\<lambda>l. l @ [CHR 0x0A]) (l # ls)))) = l # ls)"
proof (intro conjI impI)
  assume a: "list_all (plain \<circ> snd) (x # items)"
  obtain i n where x: "x = (i, n)" by (cases x)
  have q: "concat (map quoted (lines_of (concat (map label_item (x # items))))) = map snd (x # items)"
    using quoted_items [OF a] .
  have "quoted ''item {'' = []" by (rule quoted_none) simp
  then show "loadObjectLabels (Some (concat (map label_item (x # items)))) = map snd (x # items)"
    using a q by (simp add: loadObjectLabels_def lines_of_item x)
next
  assume "list_all (\<lambda>l. CHR 0x0A \<notin> set l) (l # ls) \<and> l \<noteq> ''item {''"
  then show "loadObjectLabels (Some (concat (map (\<lambda>l. l @ [CHR 0x0A]) (l # ls)))) = l # ls"
    using lines_of_plain [of "l # ls"] by (simp add: loadObjectLabels_def del: list.map concat.simps)
qed

theorem load_labels_roundtrip_witness:
  "loadObjectLabels (Some (label_item (1, ''ball'') @ label_item (2, ''hub''))) = [''ball'', ''hub'']
   \<and> loadObjectLabels (Some (''ball'' @ [CHR 0x0A])) = [''ball'']"
  using load_labels_roundtrip [of "(1, ''ball'')" "[(2, ''hub'')]" "''ball''" "[]"] by (simp add: plain_def)

end
