(* ===== verification/Tf_Props.thy ===== *)
theory Tf_Props
  imports Tf_Model
begin

text \<open>
  Properties of the TensorFlow pipelines: which model is used, and what \<^verbatim>\<open>AxonRunner::process\<close> and
  \<^verbatim>\<open>MoveNet::process\<close> draw, against direct descriptions of the drawings.
\<close>

subsection \<open>Choosing a model\<close>

lemma tensor_at_Tensor [simp]: "i < length (outs k) \<Longrightarrow> tensor_at outs (Tensor k) i = Inr (outs k ! i)"
  by (simp add: tensor_at_def vec_idx_def)

lemma extend_simps [simp]:
  "tf_map (TfModel.extend m x) = tf_map m" "tf_model (TfModel.extend m x) = tf_model m"
  "input_tensor (TfModel.extend m x) = input_tensor m"
  by (simp_all add: TfModel.extend_def)

lemma extend_valid [simp]:
  "isValid (TfModel.extend m x) = isValid m" "isValidBuffer (TfModel.extend m x) = isValidBuffer m"
  by (simp_all add: isValid_def isValidBuffer_def)

text \<open>The model of \<^verbatim>\<open>TfModel(def, edge)\<close>: once the default file can be loaded, the file for the
  Edge TPU is not used, whether or not a TPU is present. For an input of shape \<open>[n, rows, cols, c]\<close>
  the size that frames are scaled to has the rows as its width and the columns as its height; the
  input can be used exactly if it has three channels of bytes, memory and an area.\<close>

theorem default_model_preferred:
  assumes "build_from_file T d = Some b" "build_interpreter T b False th = Some i"
    and "n_inputs T i = 1" "in_dims T i = [n, rows, cols, c]"
  shows "\<exists>m. TfModel_new T [(d, DEFAULT), (e, EDGETPU)] th = Inr m \<and> tf_model m = Some i
    \<and> \<not> edgetpu_context m \<and> input_size m = (rows, cols)
    \<and> (isValidBuffer m \<longleftrightarrow> c = 3 \<and> in_uint8 T i \<and> in_alloc T i \<and> rows * cols \<noteq> 0)"
  using assms by (auto simp: TfModel_new_def setup_input_def isValid_def isValidBuffer_def TfModel0_def vec_idx_def Let_def)

definition demo_tf :: tf_lib where
  "demo_tf = \<lparr>build_from_file = (\<lambda>f. if f = Some ''model.tflite'' then Some 1 else None), tpusAvailable = 1,
     build_interpreter = (\<lambda>b c t. Some (b + 10)), n_inputs = (\<lambda>i. 1), n_outputs = (\<lambda>i. 4),
     in_dims = (\<lambda>i. [1, 240, 320, 3]), in_uint8 = (\<lambda>i. True), in_alloc = (\<lambda>i. True), out_alloc = (\<lambda>i k. True)\<rparr>"

theorem default_model_preferred_witness:
  "\<exists>m. TfModel_new demo_tf [(Some ''model.tflite'', DEFAULT), (None, EDGETPU)] 2 = Inr m \<and> input_size m = (240, 320)
     \<and> isValidBuffer m"
  using default_model_preferred [of demo_tf "Some ''model.tflite''" 1 2 11 1 240 320 3 None] by (auto simp: demo_tf_def)

lemma try_models_none:
  assumes "\<And>f. build_from_file T f = None" "tf_map m = None"
  shows "try_models T th ms custom m = Inr m"
proof (induction ms)
  case (Cons x ms)
  have "m\<lparr>tf_map := None\<rparr> = m" using assms(2) by (cases m) simp
  then show ?case using Cons by (cases x) (simp add: assms(1))
qed simp

text \<open>With no loadable model file, the constructor of \<^verbatim>\<open>MoveNet\<close> dereferences a null
  interpreter, while an \<^verbatim>\<open>AxonRunner\<close> is constructed, is not valid, and leaves every frame alone.\<close>

theorem unloadable_models:
  assumes "\<forall>f. build_from_file T f = None"
  shows "MoveNet_new T ops th = Inl UB
    \<and> (\<exists>r. AxonRunner_new T fs ops f th = Inr r \<and> \<not> isValid r \<and> Axon_process outs w h r = Inr [])"
proof -
  have "TfModel_new T ops th = Inr TfModel0"
    using try_models_none [of T TfModel0 th ops False] assms
    by (simp add: TfModel_new_def setup_input_def TfModel0_def)
  moreover have "\<not> isValid TfModel0" "\<not> isValidBuffer TfModel0" "tf_model TfModel0 = None"
    by (simp_all add: isValid_def isValidBuffer_def TfModel0_def)
  ultimately show ?thesis
    by (simp add: MoveNet_new_def AxonRunner_new_def Axon_process_def Let_def)
qed

theorem unloadable_models_witness:
  "MoveNet_new (demo_tf\<lparr>build_from_file := \<lambda>f. None\<rparr>) [(Some ''x.tflite'', DEFAULT)] 2 = Inl UB"
  using unloadable_models [of "demo_tf\<lparr>build_from_file := \<lambda>f. None\<rparr>" "[(Some ''x.tflite'', DEFAULT)]" 2] by simp

subsection \<open>Object detection\<close>

text \<open>What is drawn for one detection, from the numbers of the four tensors.\<close>

definition box_of :: "rat list \<Rightarrow> int \<Rightarrow> int \<Rightarrow> nat \<Rightarrow> rat \<times> rat \<times> rat \<times> rat" where
  "box_of cs w h i = corners (cs ! (4 * i + 1) * of_int w) (cs ! (4 * i) * of_int h)
     (cs ! (4 * i + 3) * of_int w) (cs ! (4 * i + 2) * of_int h)"

definition label_idx :: "rat list \<Rightarrow> nat \<Rightarrow> nat" where
  "label_idx ls i = nat (fcvtzu64 (Fin (ls ! i)))"

definition detection_marks :: "string list \<Rightarrow> rat list \<Rightarrow> rat list \<Rightarrow> rat list \<Rightarrow> int \<Rightarrow> int \<Rightarrow> nat \<Rightarrow> drawing list" where
  "detection_marks objs cs ls fs w h i = (let (x, y, bw, bh) = box_of cs w h i in
     [Rectangle x y bw bh,
      PutText (objs ! label_idx ls i @ '': '' @ to_string (nat (fcvtzu32 (Fin (fs ! i * 100)))) @ ''%'')
        (fcvtzs32 (Fin x)) (fcvtzs32 (Fin (y - 10)))])"

definition axon_ready :: "tensors \<Rightarrow> AxonRunner \<Rightarrow> nat \<Rightarrow> bool" where
  "axon_ready outs r n \<longleftrightarrow> isValidBuffer r \<and> coords r = Tensor 0 \<and> labels r = Tensor 1 \<and> confidence r = Tensor 2
     \<and> detections r = Tensor 3 \<and> outs 3 \<noteq> [] \<and> nat (fcvtzu64 (Fin (outs 3 ! 0))) = n
     \<and> 4 * n \<le> length (outs 0) \<and> n \<le> length (outs 1) \<and> n \<le> length (outs 2)"

lemma axon_draw_ok:
  assumes "axon_ready outs r n" "i < n"
  shows "axon_draw outs r w h i ds =
    (if label_idx (outs 1) i < length (obj_labels r)
     then Inr (ds @ detection_marks (obj_labels r) (outs 0) (outs 1) (outs 2) w h i) else Inl OutOfRange)"
  using assms by (simp add: axon_ready_def axon_draw_def getX1_def getY1_def getX2_def getY2_def getLabel_def
      getConfidence_def detection_marks_def box_of_def label_idx_def vec_at_def split_beta mult.commute [of _ "4 :: nat"])

lemma axon_fold:
  assumes "axon_ready outs r n" "m \<le> n" "\<forall>i < m. label_idx (outs 1) i < length (obj_labels r)"
  shows "rfold (axon_draw outs r w h) [0..<m] [] =
    Inr (concat (map (detection_marks (obj_labels r) (outs 0) (outs 1) (outs 2) w h) [0..<m]))"
  using assms(2, 3) by (induction m) (simp_all add: rfold_append axon_draw_ok [OF assms(1)])

lemma corners_inside:
  assumes "0 \<le> x1" "x1 \<le> w" "0 \<le> x2" "x2 \<le> w" "0 \<le> y1" "y1 \<le> h" "0 \<le> y2" "y2 \<le> h"
    and "corners x1 y1 x2 y2 = (x, y, bw, bh)"
  shows "0 \<le> x \<and> 0 \<le> y \<and> 0 \<le> bw \<and> 0 \<le> bh \<and> x + bw \<le> w \<and> y + bh \<le> h"
  using assms by (auto simp: corners_def min_def max_def split: if_splits)

lemma scaled_unit: "0 \<le> (c :: rat) \<Longrightarrow> c \<le> 1 \<Longrightarrow> 0 \<le> w \<Longrightarrow> 0 \<le> c * of_int w \<and> c * of_int w \<le> of_int w"
  by (simp add: mult_left_le_one_le)

lemma box_inside:
  assumes "\<forall>c \<in> set cs. 0 \<le> c \<and> c \<le> 1" "4 * i + 4 \<le> length cs" "0 \<le> w" "0 \<le> h" "box_of cs w h i = (x, y, bw, bh)"
  shows "0 \<le> x \<and> 0 \<le> y \<and> 0 \<le> bw \<and> 0 \<le> bh \<and> x + bw \<le> of_int w \<and> y + bh \<le> of_int h"
proof -
  have u: "0 \<le> cs ! k \<and> cs ! k \<le> 1" if "k < 4 * i + 4" for k using assms(1, 2) that by simp
  have s: "0 \<le> cs ! k * of_int z \<and> cs ! k * of_int z \<le> of_int z" if "k < 4 * i + 4" "0 \<le> z" for k z
    using scaled_unit u [OF that(1)] that(2) by blast
  show ?thesis by (rule corners_inside [OF _ _ _ _ _ _ _ _ assms(5) [unfolded box_of_def]]) (simp_all add: s assms(3, 4))
qed


definition demo_axon :: AxonRunner where
  "demo_axon = \<lparr>tf_map = Some 1, tf_model = Some 11, edgetpu_context = False, input_tensor = Some ((240, 320), True),
     input_size = (240, 320), obj_labels = [''ball''], coords = Tensor 0, labels = Tensor 1, confidence = Tensor 2,
     detections = Tensor 3\<rparr>"

definition demo_outs :: "rat \<Rightarrow> tensors" where
  "demo_outs l k = (if k = 0 then [1 / 4, 1 / 8, 3 / 4, 1 / 2] else if k = 1 then [l] else if k = 2 then [9 / 10] else [1])"

lemma demo_axon_ready: "axon_ready (demo_outs l) demo_axon 1"
  by (simp add: axon_ready_def demo_axon_def demo_outs_def isValidBuffer_def sat_def rat_trunc_def)


subsection \<open>Pose estimation\<close>

definition confident :: "rat list \<Rightarrow> nat \<Rightarrow> bool" where
  "confident os i \<longleftrightarrow> os ! (3 * i + 2) > confid_thresh"

definition keypoint :: "rat list \<Rightarrow> int \<Rightarrow> int \<Rightarrow> nat \<Rightarrow> rat \<times> rat" where
  "keypoint os w h i = (os ! (3 * i + 1) * of_int w, os ! (3 * i) * of_int h)"

lemma mn_points:
  assumes "outputs r = Tensor k" "3 * m \<le> length (outs k)"
  shows "rfold (mn_point outs r w h) [0..<m] ([], []) =
    Inr (map (keypoint (outs k) w h) [0..<m],
         map (\<lambda>i. Circle (fst (keypoint (outs k) w h i)) (snd (keypoint (outs k) w h i))) (filter (confident (outs k)) [0..<m]))"
  using assms(2)
  by (induction m) (simp_all add: rfold_append mn_point_def mn_getX_def mn_getY_def mn_getConfidence_def assms(1)
      keypoint_def confident_def Let_def mult.commute [of _ "3 :: nat"])

lemma mn_lines:
  assumes "outputs r = Tensor k" "51 \<le> length (outs k)" "\<forall>(a, b) \<in> set cs. Output_code a < 17 \<and> Output_code b < 17"
  shows "rfold (mn_connect outs r (map (keypoint (outs k) w h) [0..<17])) cs ds =
    Inr (ds @ map (\<lambda>(a, b). Line (keypoint (outs k) w h (Output_code a)) (keypoint (outs k) w h (Output_code b)))
       (filter (\<lambda>(a, b). confident (outs k) (Output_code a) \<and> confident (outs k) (Output_code b)) cs))"
  using assms(3)
proof (induction cs arbitrary: ds)
  case (Cons c cs)
  obtain a b where c: "c = (a, b)" by (cases c)
  have "Output_code a < 17" "Output_code b < 17" using Cons.prems c by auto
  then have "mn_connect outs r (map (keypoint (outs k) w h) [0..<17]) c ds =
      Inr (ds @ (if confident (outs k) (Output_code a) \<and> confident (outs k) (Output_code b) then
        [Line (keypoint (outs k) w h (Output_code a)) (keypoint (outs k) w h (Output_code b))] else []))"
    using assms(1, 2) by (simp add: c mn_connect_def mn_getConfidence_def confident_def vec_idx_ok mult.commute [of _ "3 :: nat"] del: upt_rec_numeral)
  then show ?case using Cons by (simp add: c)
qed simp

text \<open>\<^verbatim>\<open>MoveNet::process\<close> on a model with the 17 keypoints of three numbers each draws a circle for
  exactly the keypoints above the confidence threshold and a line for exactly the connections both
  ends of which are, at the scaled positions, without reading a tensor or the array of points out of
  bounds; the 17 keypoints have 17 different names.\<close>

theorem movenet_draws_pose:
  assumes "isValidBuffer r" "outputs r = Tensor k" "51 \<le> length (outs k)"
  shows "MoveNet_process outs w h r =
    Inr (map (\<lambda>i. Circle (fst (keypoint (outs k) w h i)) (snd (keypoint (outs k) w h i))) (filter (confident (outs k)) [0..<17])
       @ map (\<lambda>(a, b). Line (keypoint (outs k) w h (Output_code a)) (keypoint (outs k) w h (Output_code b)))
         (filter (\<lambda>(a, b). confident (outs k) (Output_code a) \<and> confident (outs k) (Output_code b)) connections))
    \<and> length names = Output_code TOTAL \<and> distinct names"
proof -
  have "\<forall>(a, b) \<in> set connections. Output_code a < 17 \<and> Output_code b < 17" by (simp add: connections_def)
  note l = mn_lines [where outs = outs, OF assms(2, 3) this]
  have "rfold (mn_point outs r w h) [0..<17] ([], []) =
    Inr (map (keypoint (outs k) w h) [0..<17],
         map (\<lambda>i. Circle (fst (keypoint (outs k) w h i)) (snd (keypoint (outs k) w h i))) (filter (confident (outs k)) [0..<17]))"
    using assms by (intro mn_points) simp_all
  then show ?thesis using assms(1, 2)
    by (simp add: MoveNet_process_def isValidOutput_def l names_def del: upt_rec_numeral)
qed

theorem movenet_draws_pose_witness:
  "MoveNet_process (\<lambda>k. [1 / 2, 1 / 4, 1] @ replicate 48 0) 64 48
     \<lparr>tf_map = Some 1, tf_model = Some 1, edgetpu_context = False, input_tensor = Some ((192, 192), True),
      input_size = (192, 192), outputs = Tensor 0\<rparr> = Inr [Circle 16 24]"
proof -
  let ?os = "[1 / 2, 1 / 4, 1] @ replicate 48 (0 :: rat)"
  have c: "confident ?os i \<longleftrightarrow> i = 0" if "i < 17" for i
    using that by (cases i) (simp_all add: confident_def confid_thresh_def nth_append)
  have "filter (confident ?os) [0..<17] = filter (\<lambda>i. i = 0) [0..<17]" using c by (intro filter_cong) auto
  also have "\<dots> = [0]" by (simp add: upt_rec)
  finally have f: "filter (confident ?os) [0..<17] = [0]" .
  have "filter (\<lambda>(a, b). confident ?os (Output_code a) \<and> confident ?os (Output_code b)) connections = []"
    by (simp add: connections_def c del: append.simps)
  with f show ?thesis
    using movenet_draws_pose [of "\<lparr>tf_map = Some 1, tf_model = Some 1, edgetpu_context = False,
        input_tensor = Some ((192, 192), True), input_size = (192, 192), outputs = Tensor 0\<rparr>" 0 "\<lambda>k. ?os" 64 48]
    by (simp add: isValidBuffer_def keypoint_def del: upt_rec_numeral)
qed

end
