(* ===== verification/Legacy_Processing.thy ===== *)
theory Legacy_Processing
  imports VS_Prelude
begin

text \<open>
  The contour search of the first version of the framework (\<^verbatim>\<open>vs1-legacy/processing.h\<close> and
  \<^verbatim>\<open>processing.cpp\<close>), class \<^verbatim>\<open>vs1::Contours\<close>. What \<^verbatim>\<open>cv::findContours\<close> finds in the frame is an
  argument, a list of contours of any type, and so is \<^verbatim>\<open>cv::contourArea\<close>. The index of the target is
  kept in 16 bits.
\<close>

text \<open>An \<^verbatim>\<open>int16_t\<close> returned as a \<^verbatim>\<open>size_t\<close>.\<close>

definition as_size_t :: "int \<Rightarrow> nat" where
  "as_size_t z = nat (z mod 2 ^ 64)"

record 'c Contours =
  contours :: "'c list"
  area_largest :: rat
  area_buff :: rat
  target_idx :: int

definition Contours0 :: "'c Contours" where
  "Contours0 = \<lparr>contours = [], area_largest = 0, area_buff = 0, target_idx = - 1\<rparr>"

definition findContours :: "'c list \<Rightarrow> 'c Contours \<Rightarrow> nat \<times> 'c Contours" where
  "findContours found st = (length found, st\<lparr>contours := found\<rparr>)"

text \<open>The loops of \<^verbatim>\<open>findLargest\<close> and \<^verbatim>\<open>findLargestThreshold\<close>, which differ in the guard \<open>g\<close>.\<close>

definition area_step :: "('c \<Rightarrow> rat) \<Rightarrow> (rat \<Rightarrow> bool) \<Rightarrow> nat \<Rightarrow> 'c Contours \<Rightarrow> 'c Contours" where
  "area_step area g i st =
     (let a = area (contours st ! i); st = st\<lparr>area_buff := a\<rparr> in
      if g a \<and> a > area_largest st then st\<lparr>area_largest := a, target_idx := int16 (int i)\<rparr> else st)"

definition findLargest :: "('c \<Rightarrow> rat) \<Rightarrow> 'c list \<Rightarrow> 'c Contours \<Rightarrow> nat \<times> 'c Contours" where
  "findLargest area found st =
     (let st = snd (findContours found (st\<lparr>area_largest := 0, target_idx := - 1\<rparr>));
          st = fold (area_step area (\<lambda>_. True)) [0..<length (contours st)] st
      in (as_size_t (target_idx st), st))"

definition findLargestThreshold :: "('c \<Rightarrow> rat) \<Rightarrow> rat \<Rightarrow> 'c list \<Rightarrow> 'c Contours \<Rightarrow> nat \<times> 'c Contours" where
  "findLargestThreshold area thr found st =
     (let st = snd (findContours found (st\<lparr>area_largest := 0, target_idx := - 1\<rparr>));
          st = fold (area_step area (\<lambda>a. a > thr)) [0..<length (contours st)] st
      in (as_size_t (target_idx st), st))"

definition getTargetIdx :: "'c Contours \<Rightarrow> nat" where
  "getTargetIdx st = as_size_t (target_idx st)"

definition getTarget :: "'c Contours \<Rightarrow> 'c res" where
  "getTarget st = vec_idx (contours st) (as_size_t (target_idx st))"

definition validTarget :: "'c Contours \<Rightarrow> bool" where
  "validTarget st \<longleftrightarrow> target_idx st \<ge> 0"

subsection \<open>The search finds the first largest contour\<close>

text \<open>The state after \<open>n\<close> contours: either none of them passes, or the target is the first of the largest
  that pass.\<close>

definition best_of :: "('c \<Rightarrow> rat) \<Rightarrow> (rat \<Rightarrow> bool) \<Rightarrow> 'c list \<Rightarrow> nat \<Rightarrow> nat \<Rightarrow> bool" where
  "best_of area g cs n i \<longleftrightarrow> i < n \<and> g (area (cs ! i)) \<and> 0 < area (cs ! i)
     \<and> (\<forall>j < n. g (area (cs ! j)) \<longrightarrow> area (cs ! j) \<le> area (cs ! i))
     \<and> (\<forall>j < i. g (area (cs ! j)) \<longrightarrow> area (cs ! j) < area (cs ! i))"

definition scan_inv :: "('c \<Rightarrow> rat) \<Rightarrow> (rat \<Rightarrow> bool) \<Rightarrow> 'c list \<Rightarrow> nat \<Rightarrow> 'c Contours \<Rightarrow> bool" where
  "scan_inv area g cs n st \<longleftrightarrow> contours st = cs \<and>
     (if \<exists>j < n. g (area (cs ! j)) \<and> 0 < area (cs ! j)
      then \<exists>i. best_of area g cs n i \<and> target_idx st = int16 (int i) \<and> area_largest st = area (cs ! i)
      else target_idx st = - 1 \<and> area_largest st = 0)"

lemma best_of_keep:
  assumes "best_of area g cs n i" "\<not> (g (area (cs ! n)) \<and> area (cs ! n) > area (cs ! i))"
  shows "best_of area g cs (Suc n) i"
  using assms by (auto simp: best_of_def less_Suc_eq)

lemma best_of_new:
  assumes "g (area (cs ! n))" "0 < area (cs ! n)" "\<And>j. j < n \<Longrightarrow> g (area (cs ! j)) \<Longrightarrow> area (cs ! j) < area (cs ! n)"
  shows "best_of area g cs (Suc n) n"
  using assms by (auto simp: best_of_def less_Suc_eq intro: less_imp_le)

lemma area_step_inv:
  assumes "scan_inv area g cs n st"
  shows "scan_inv area g cs (Suc n) (area_step area g n st)"
proof (cases "\<exists>j < n. g (area (cs ! j)) \<and> 0 < area (cs ! j)")
  case True
  then obtain i where i: "best_of area g cs n i" "target_idx st = int16 (int i)" "area_largest st = area (cs ! i)"
    and c: "contours st = cs" using assms by (auto simp: scan_inv_def)
  have "\<exists>j < Suc n. g (area (cs ! j)) \<and> 0 < area (cs ! j)" using True less_SucI by blast
  moreover have "best_of area g cs (Suc n) n" if "g (area (cs ! n))" "area (cs ! n) > area (cs ! i)"
    using that i(1) by (intro best_of_new) (auto simp: best_of_def intro: le_less_trans less_trans)
  moreover have "best_of area g cs (Suc n) i" if "\<not> (g (area (cs ! n)) \<and> area (cs ! n) > area (cs ! i))"
    using best_of_keep [OF i(1) that] .
  ultimately show ?thesis using i c by (auto simp: scan_inv_def area_step_def Let_def)
next
  case False
  then have c: "contours st = cs" "target_idx st = - 1" "area_largest st = 0" using assms by (auto simp: scan_inv_def)
  show ?thesis
  proof (cases "g (area (cs ! n)) \<and> 0 < area (cs ! n)")
    case True
    have "best_of area g cs (Suc n) n"
      using True False by (intro best_of_new) (auto simp: not_less intro: le_less_trans)
    then show ?thesis using True c by (auto simp: scan_inv_def area_step_def Let_def)
  next
    case no: False
    have "\<not> (\<exists>j < Suc n. g (area (cs ! j)) \<and> 0 < area (cs ! j))" using no False by (auto simp: less_Suc_eq)
    then show ?thesis using no c by (auto simp: scan_inv_def area_step_def Let_def)
  qed
qed

lemma scan_correct:
  assumes "contours st = cs" "target_idx st = - 1" "area_largest st = 0"
  shows "scan_inv area g cs n (fold (area_step area g) [0..<n] st)"
proof (induction n)
  case 0
  then show ?case using assms by (simp add: scan_inv_def)
next
  case (Suc n)
  then show ?case using area_step_inv by simp
qed

text \<open>\<^verbatim>\<open>findLargestThreshold\<close> on at most \<open>2 ^ 15\<close> contours returns the index of the first of the
  largest contours whose area exceeds the threshold, and then the target is valid and can be accessed;
  if no contour of positive area exceeds it, the result is the largest \<^verbatim>\<open>size_t\<close> and the target is not
  valid. Whatever was stored before does not matter.\<close>

theorem largest_contour_found:
  assumes "length cs \<le> 2 ^ 15" "findLargestThreshold area thr cs st = (r, st')"
  shows "if \<exists>c \<in> set cs. thr < area c \<and> 0 < area c
    then best_of area (\<lambda>a. a > thr) cs (length cs) r \<and> validTarget st' \<and> getTarget st' = Inr (cs ! r)
    else r = 2 ^ 64 - 1 \<and> \<not> validTarget st'"
proof -
  let ?g = "\<lambda>a. a > thr"
  have st': "st' = fold (area_step area ?g) [0..<length cs] (st\<lparr>area_largest := 0, target_idx := - 1, contours := cs\<rparr>)"
    "r = as_size_t (target_idx st')" using assms(2) by (auto simp: findLargestThreshold_def findContours_def Let_def)
  have inv: "scan_inv area ?g cs (length cs) st'" unfolding st'(1) by (rule scan_correct) simp_all
  have ex: "(\<exists>c \<in> set cs. thr < area c \<and> 0 < area c) \<longleftrightarrow> (\<exists>j < length cs. thr < area (cs ! j) \<and> 0 < area (cs ! j))"
    by (metis in_set_conv_nth)
  show ?thesis
  proof (cases "\<exists>j < length cs. thr < area (cs ! j) \<and> 0 < area (cs ! j)")
    case True
    then obtain i where i: "best_of area ?g cs (length cs) i" "target_idx st' = int16 (int i)" "contours st' = cs"
      using inv by (auto simp: scan_inv_def)
    then have "i < length cs" by (simp add: best_of_def)
    then have "target_idx st' = int i" using assms(1) i(2) by (simp add: int16_id)
    moreover from this have "r = i" using \<open>i < length cs\<close> assms(1) by (simp add: st'(2) as_size_t_def)
    moreover have "as_size_t (int i) = i" using \<open>i < length cs\<close> assms(1) by (simp add: as_size_t_def)
    ultimately show ?thesis using True i \<open>i < length cs\<close>
      by (simp add: ex validTarget_def getTarget_def vec_idx_def)
  next
    case False
    then have "target_idx st' = - 1" using inv by (auto simp: scan_inv_def)
    then show ?thesis using False by (auto simp: ex st'(2) as_size_t_def validTarget_def)
  qed
qed

theorem largest_contour_found_witness:
  "fst (findLargestThreshold (\<lambda>c. c) 2 [1, 5, 3, 5] Contours0) = 1"
proof -
  let ?cs = "[1, 5, 3, 5] :: rat list"
  obtain r st where f: "findLargestThreshold (\<lambda>c. c) 2 ?cs Contours0 = (r, st)" by fastforce
  have "(5 :: rat) \<in> set ?cs" "(2 :: rat) < 5" "(0 :: rat) < 5" by simp_all
  then have "\<exists>c \<in> set ?cs. 2 < c \<and> 0 < c" by blast
  then have b: "best_of (\<lambda>c. c) (\<lambda>a. a > 2) ?cs (length ?cs) r" using largest_contour_found [OF _ f] by simp
  have "r < 4" using b by (simp add: best_of_def)
  then consider "r = 0" | "r = 1" | "r = 2" | "r = 3" by linarith
  moreover have "?cs ! 1 \<le> ?cs ! r" "1 < r \<longrightarrow> ?cs ! 1 < ?cs ! r" using b by (auto simp: best_of_def)
  ultimately have "r = 1" by cases simp_all
  then show ?thesis by (simp add: f)
qed

end
