(* ===== verification/Legacy_Camera.thy ===== *)
theory Legacy_Camera
  imports Camera
begin

text \<open>
  \<^verbatim>\<open>VisionCamera\<close> of the first version of the framework (\<^verbatim>\<open>vs1-legacy/visioncamera.h\<close> and
  \<^verbatim>\<open>visioncamera.cpp\<close>). It keeps the adjustable settings itself, brightness and exposure in 8 bits and
  the white balance in 16, and listens to each of its entries. \<open>GV\<close> is \<^verbatim>\<open>frc::CameraServer::GetVideo\<close>:
  the sink it returns for a source. Matrices and readers of the json values are those of theory
  \<open>Camera\<close>.
\<close>

record vs1_VisionCamera =
  v_handle :: handle
  v_config :: json
  v_calibration :: json
  v_source :: handle
  v_camera_matrix :: cvmat
  v_distortion :: cvmat
  v_properties :: VideoMode
  v_camera :: path
  v_brightness :: int
  v_exposure :: int
  v_whitebalance :: int

definition vs1_VisionCamera0 :: "cs_lib \<Rightarrow> handle \<Rightarrow> vs1_VisionCamera" where
  "vs1_VisionCamera0 L h =
     \<lparr>v_handle = h, v_config = JNull, v_calibration = JNull, v_source = 0,
      v_camera_matrix = default_matrix, v_distortion = default_distort, v_properties = VideoMode0,
      v_camera = [''Cameras'', get_name L h], v_brightness = 50, v_exposure = - 1, v_whitebalance = - 1\<rparr>"

text \<open>The video mode reader of \<^verbatim>\<open>vs1-legacy/vision.cpp\<close>, whose text the core version keeps unchanged.\<close>

definition vs1_getJsonVideoMode :: "json \<Rightarrow> VideoMode" where
  "vs1_getJsonVideoMode cfg = getJsonVideoMode cfg"

subsection \<open>Construction\<close>

definition vs1_getVideo :: "(handle \<Rightarrow> handle) \<Rightarrow> vs1_VisionCamera \<Rightarrow> handle \<times> log" where
  "vs1_getVideo GV cam =
     (GV (v_handle cam), if json_count (v_config cam) ''stream'' > 0 then [CsSetConfigJson (GV (v_handle cam))] else [])"

definition vs1_VisionCamera_handle :: "cs_lib \<Rightarrow> (handle \<Rightarrow> handle) \<Rightarrow> handle \<Rightarrow> vs1_VisionCamera \<times> log" where
  "vs1_VisionCamera_handle L GV h =
     (let cam = vs1_VisionCamera0 L h; (v, cs) = vs1_getVideo GV cam
      in (cam\<lparr>v_source := v, v_properties := get_mode L h\<rparr>, cs))"

text \<open>The constructors from a \<^verbatim>\<open>VideoSource\<close>, a \<^verbatim>\<open>UsbCamera\<close> and an \<^verbatim>\<open>HttpCamera\<close> are alike.\<close>

definition vs1_VisionCamera_source :: "cs_lib \<Rightarrow> (handle \<Rightarrow> handle) \<Rightarrow> handle \<Rightarrow> json \<Rightarrow> vs1_VisionCamera \<times> log" where
  "vs1_VisionCamera_source L GV h cfg =
     (let cam = (vs1_VisionCamera0 L h)\<lparr>v_config := cfg\<rparr>; (v, cs) = vs1_getVideo GV cam;
          cam = cam\<lparr>v_source := v, v_properties := get_mode L h\<rparr>
      in (if VideoMode_bool (v_properties cam) then cam\<lparr>v_properties := vs1_getJsonVideoMode cfg\<rparr> else cam, cs))"

subsection \<open>Calibration\<close>

definition vs1_read_calib ::
    "(json \<Rightarrow> dbl res) \<Rightarrow> string \<Rightarrow> (nat \<times> nat) list \<Rightarrow> vs1_VisionCamera \<Rightarrow> cvmat \<Rightarrow> mat_store \<Rightarrow> (bool \<times> mat_store) res" where
  "vs1_read_calib get key cells cam a \<sigma> =
     (if is_object (v_calibration cam) then
        (case json_at (v_calibration cam) key of
           Inl _ \<Rightarrow> Inr (True, \<sigma>)
         | Inr matx \<Rightarrow> rbind (read_cells get matx cells a \<sigma>) (\<lambda>\<sigma>'. Inr (True, \<sigma>')))
      else Inr (False, \<sigma>))"

definition vs1_getJsonCameraMatrix_d :: "vs1_VisionCamera \<Rightarrow> cvmat \<Rightarrow> mat_store \<Rightarrow> (bool \<times> mat_store) res" where
  "vs1_getJsonCameraMatrix_d = vs1_read_calib get_double ''camera_matrix'' matrix_cells"

definition vs1_getJsonCameraMatrix_f :: "vs1_VisionCamera \<Rightarrow> cvmat \<Rightarrow> mat_store \<Rightarrow> (bool \<times> mat_store) res" where
  "vs1_getJsonCameraMatrix_f = vs1_read_calib get_float ''camera_matrix'' matrix_cells"

definition vs1_getJsonDistortionCoefs_d :: "vs1_VisionCamera \<Rightarrow> cvmat \<Rightarrow> mat_store \<Rightarrow> (bool \<times> mat_store) res" where
  "vs1_getJsonDistortionCoefs_d = vs1_read_calib get_double ''distortion'' distort_cells"

definition vs1_getJsonDistortionCoefs_f :: "vs1_VisionCamera \<Rightarrow> cvmat \<Rightarrow> mat_store \<Rightarrow> (bool \<times> mat_store) res" where
  "vs1_getJsonDistortionCoefs_f = vs1_read_calib get_float ''distortion'' distort_cells"

definition vs1_VisionCamera_json2 ::
    "cs_lib \<Rightarrow> (handle \<Rightarrow> handle) \<Rightarrow> json \<Rightarrow> json \<Rightarrow> mat_store \<Rightarrow> (vs1_VisionCamera \<times> mat_store \<times> log) res" where
  "vs1_VisionCamera_json2 L GV cfg cal \<sigma> =
     (let cam = (vs1_VisionCamera0 L 0)\<lparr>v_config := cfg, v_calibration := cal\<rparr>;
          (h, cs) = open_usb L cfg;
          cam = cam\<lparr>v_handle := h\<rparr>
      in rbind (vs1_getJsonCameraMatrix_f cam (v_camera_matrix cam) \<sigma>) (\<lambda>(_, \<sigma>).
         rbind (vs1_getJsonDistortionCoefs_f cam (v_distortion cam) \<sigma>) (\<lambda>(_, \<sigma>).
         let (v, ds) = vs1_getVideo GV cam;
             cam = cam\<lparr>v_source := v, v_properties := get_mode L h\<rparr>;
             cam = (if VideoMode_bool (v_properties cam)
                    then cam\<lparr>v_properties := vs1_getJsonVideoMode (v_config cam)\<rparr> else cam)
         in Inr (cam, \<sigma>, cs @ ds))))"

definition vs1_VisionCamera_json :: "cs_lib \<Rightarrow> (handle \<Rightarrow> handle) \<Rightarrow> json \<Rightarrow> vs1_VisionCamera \<times> log" where
  "vs1_VisionCamera_json L GV cfg =
     (let cam = (vs1_VisionCamera0 L 0)\<lparr>v_config := cfg\<rparr>;
          (h, cs) = open_usb L cfg;
          cam = cam\<lparr>v_handle := h\<rparr>;
          (v, ds) = vs1_getVideo GV cam;
          cam = cam\<lparr>v_source := v, v_properties := get_mode L h\<rparr>;
          cam = (if \<not> VideoMode_bool (v_properties cam)
                 then cam\<lparr>v_properties := vs1_getJsonVideoMode (v_config cam)\<rparr> else cam)
      in (cam, cs @ ds))"

subsection \<open>Accessors\<close>

definition vs1_isValidJson :: "vs1_VisionCamera \<Rightarrow> bool" where
  "vs1_isValidJson cam = is_object (v_config cam)"

definition vs1_isValidStreamJson :: "vs1_VisionCamera \<Rightarrow> bool" where
  "vs1_isValidStreamJson cam \<longleftrightarrow> json_count (v_config cam) ''stream'' > 0"

definition vs1_getStreamJson :: "vs1_VisionCamera \<Rightarrow> json res" where
  "vs1_getStreamJson cam =
     (if json_count (v_config cam) ''stream'' > 0 then json_at (v_config cam) ''stream'' else Inr JNull)"

definition vs1_getResolution :: "vs1_VisionCamera \<Rightarrow> int \<times> int" where
  "vs1_getResolution cam = (width (v_properties cam), height (v_properties cam))"

definition vs1_getFrame :: "cs_lib \<Rightarrow> vs1_VisionCamera \<Rightarrow> (nat \<times> 'f) \<Rightarrow> nat \<times> 'f frame" where
  "vs1_getFrame L cam grab =
     (if is_connected L (v_handle cam) then (fst grab, Grabbed (snd grab))
      else (0, Blank (fst (vs1_getResolution cam)) (snd (vs1_getResolution cam))))"

definition vs1_getFrameNoTmO :: "cs_lib \<Rightarrow> vs1_VisionCamera \<Rightarrow> (nat \<times> 'f) \<Rightarrow> nat \<times> 'f frame" where
  "vs1_getFrameNoTmO L cam grab =
     (if is_connected L (v_handle cam) then (fst grab, Grabbed (snd grab))
      else (0, Blank (fst (vs1_getResolution cam)) (snd (vs1_getResolution cam))))"

text \<open>The name and the size of the stream \<^verbatim>\<open>generateServer\<close> asks for.\<close>

definition vs1_generateServer :: "cs_lib \<Rightarrow> vs1_VisionCamera \<Rightarrow> string \<times> int \<times> int" where
  "vs1_generateServer L cam =
     (''Camera stream: '' @ get_name L (v_handle cam), width (v_properties cam), height (v_properties cam))"

definition vs1_getPixels :: "vs1_VisionCamera \<Rightarrow> int res" where
  "vs1_getPixels cam =
     (let p = width (v_properties cam) * height (v_properties cam) in
      if - (2 ^ 31) \<le> p \<and> p < 2 ^ 31 then Inr p else Inl UB)"

subsection \<open>Settings\<close>

definition vs1_setBrightness :: "int \<Rightarrow> vs1_VisionCamera \<Rightarrow> vs1_VisionCamera \<times> log" where
  "vs1_setBrightness val cam =
     (let cam = cam\<lparr>v_brightness := (if val > 100 then 100 else if val < 0 then 0 else val)\<rparr>
      in (cam, [CsSetBrightness (v_handle cam) (v_brightness cam)]))"

definition vs1_setWhiteBalance :: "int \<Rightarrow> vs1_VisionCamera \<Rightarrow> vs1_VisionCamera \<times> log" where
  "vs1_setWhiteBalance val cam =
     (cam\<lparr>v_whitebalance := val\<rparr>,
      [if val < 0 then CsSetWhiteBalanceAuto (v_handle cam) else CsSetWhiteBalanceManual (v_handle cam) val])"

definition vs1_setExposure :: "int \<Rightarrow> vs1_VisionCamera \<Rightarrow> vs1_VisionCamera \<times> log" where
  "vs1_setExposure val cam =
     (cam\<lparr>v_exposure := (if val > 100 then 100 else val)\<rparr>,
      [if val < 0 then CsSetExposureAuto (v_handle cam)
       else CsSetExposureManual (v_handle cam) (if val > 100 then 100 else val)])"

definition vs1_setNetworkBase :: "cs_lib \<Rightarrow> path \<Rightarrow> vs1_VisionCamera \<Rightarrow> vs1_VisionCamera" where
  "vs1_setNetworkBase L table cam = cam\<lparr>v_camera := table @ [''Cameras'', get_name L (v_handle cam)]\<rparr>"

definition vs1_setBrightnessAdjustable :: "vs1_VisionCamera \<Rightarrow> log" where
  "vs1_setBrightnessAdjustable cam =
     [NtPut (v_camera cam) ''Brightness'' (NtDouble (of_int_dbl (v_brightness cam))),
      NtAddEntryListener (v_camera cam) ''Brightness'']"

definition vs1_setWhiteBalanceAdjustable :: "vs1_VisionCamera \<Rightarrow> log" where
  "vs1_setWhiteBalanceAdjustable cam =
     [NtPut (v_camera cam) ''WhiteBalance'' (NtDouble (of_int_dbl (v_whitebalance cam))),
      NtAddEntryListener (v_camera cam) ''WhiteBalance'']"

definition vs1_setExposureAdjustable :: "vs1_VisionCamera \<Rightarrow> log" where
  "vs1_setExposureAdjustable cam =
     [NtPut (v_camera cam) ''Exposure'' (NtDouble (of_int_dbl (v_exposure cam))),
      NtAddEntryListener (v_camera cam) ''Exposure'']"

definition vs1_setNetworkAdjustable :: "vs1_VisionCamera \<Rightarrow> log" where
  "vs1_setNetworkAdjustable cam =
     vs1_setBrightnessAdjustable cam @ vs1_setWhiteBalanceAdjustable cam @ vs1_setExposureAdjustable cam"

definition vs1_deleteEntries :: "vs1_VisionCamera \<Rightarrow> log" where
  "vs1_deleteEntries cam =
     [NtDelete (v_camera cam) ''Brightness'', NtDelete (v_camera cam) ''WhiteBalance'', NtDelete (v_camera cam) ''Exposure'']"

definition vs1_VisionCamera_destroy :: "vs1_VisionCamera \<Rightarrow> log" where
  "vs1_VisionCamera_destroy cam = vs1_deleteEntries cam"

text \<open>The three listeners: the value of the entry is converted to the type of the setter's parameter, on
  AArch64 through an \<^verbatim>\<open>int\<close> of which the low bits are kept.\<close>

definition vs1_brightness_listener :: "nt_val \<Rightarrow> vs1_VisionCamera \<Rightarrow> vs1_VisionCamera \<times> log" where
  "vs1_brightness_listener v cam =
     (case v of NtDouble d \<Rightarrow> vs1_setBrightness (int8 (fcvtzs32 d)) cam | _ \<Rightarrow> (cam, []))"

definition vs1_whitebalance_listener :: "nt_val \<Rightarrow> vs1_VisionCamera \<Rightarrow> vs1_VisionCamera \<times> log" where
  "vs1_whitebalance_listener v cam =
     (case v of NtDouble d \<Rightarrow> vs1_setWhiteBalance (int16 (fcvtzs32 d)) cam | _ \<Rightarrow> (cam, []))"

definition vs1_exposure_listener :: "nt_val \<Rightarrow> vs1_VisionCamera \<Rightarrow> vs1_VisionCamera \<times> log" where
  "vs1_exposure_listener v cam =
     (case v of NtDouble d \<Rightarrow> vs1_setExposure (int8 (fcvtzs32 d)) cam | _ \<Rightarrow> (cam, []))"

subsection \<open>Properties\<close>

definition settings_ok :: "vs1_VisionCamera \<Rightarrow> bool" where
  "settings_ok cam \<longleftrightarrow> 0 \<le> v_brightness cam \<and> v_brightness cam \<le> 100
     \<and> - 128 \<le> v_exposure cam \<and> v_exposure cam \<le> 100
     \<and> - (2 ^ 15) \<le> v_whitebalance cam \<and> v_whitebalance cam < 2 ^ 15"

datatype setting = Brightness | WhiteBalance | Exposure

primrec notify :: "setting \<Rightarrow> nt_val \<Rightarrow> vs1_VisionCamera \<Rightarrow> vs1_VisionCamera \<times> log" where
  "notify Brightness = vs1_brightness_listener"
| "notify WhiteBalance = vs1_whitebalance_listener"
| "notify Exposure = vs1_exposure_listener"

lemma notify_ok: "settings_ok cam \<Longrightarrow> settings_ok (fst (notify s v cam))"
  using int8_bounds int16_bounds
  by (cases s; cases v) (auto simp: settings_ok_def vs1_brightness_listener_def vs1_whitebalance_listener_def
      vs1_exposure_listener_def vs1_setBrightness_def vs1_setWhiteBalance_def vs1_setExposure_def Let_def
      intro: order.trans [OF _ int8_bounds(1)])

lemma notify_all_ok: "settings_ok cam \<Longrightarrow> settings_ok (fold (\<lambda>(s, v) c. fst (notify s v c)) evs cam)"
  by (induction evs arbitrary: cam) (auto simp: notify_ok split_beta)

text \<open>Whatever values arrive over the network, in any order, the settings of a camera stay in their
  ranges. A number from 0 to 100 is applied as it is; but a number from 128 to 255 wraps around in 8
  bits: it turns the brightness to 0 and the exposure to automatic instead of to their maximum.\<close>

theorem legacy_remote_settings:
  "(settings_ok cam \<longrightarrow> settings_ok (fold (\<lambda>(s, v) c. fst (notify s v c)) evs cam))
   \<and> settings_ok (vs1_VisionCamera0 L h)
   \<and> (0 \<le> n \<and> n \<le> 100 \<longrightarrow>
       vs1_brightness_listener (NtDouble (of_int_dbl n)) cam = (cam\<lparr>v_brightness := n\<rparr>, [CsSetBrightness (v_handle cam) n])
     \<and> vs1_exposure_listener (NtDouble (of_int_dbl n)) cam = (cam\<lparr>v_exposure := n\<rparr>, [CsSetExposureManual (v_handle cam) n]))
   \<and> (128 \<le> n \<and> n \<le> 255 \<longrightarrow>
       vs1_brightness_listener (NtDouble (of_int_dbl n)) cam = (cam\<lparr>v_brightness := 0\<rparr>, [CsSetBrightness (v_handle cam) 0])
     \<and> snd (vs1_exposure_listener (NtDouble (of_int_dbl n)) cam) = [CsSetExposureAuto (v_handle cam)])"
proof (intro conjI impI)
  show "settings_ok (fold (\<lambda>(s, v) c. fst (notify s v c)) evs cam)" if "settings_ok cam"
    using notify_all_ok [OF that] .
  show "settings_ok (vs1_VisionCamera0 L h)" by (simp add: settings_ok_def vs1_VisionCamera0_def)
next
  assume n: "0 \<le> n \<and> n \<le> 100"
  then have "int8 (fcvtzs32 (of_int_dbl n)) = n" by (simp add: fcvtzs32_of_int int8_id)
  then show "vs1_brightness_listener (NtDouble (of_int_dbl n)) cam = (cam\<lparr>v_brightness := n\<rparr>, [CsSetBrightness (v_handle cam) n])"
    "vs1_exposure_listener (NtDouble (of_int_dbl n)) cam = (cam\<lparr>v_exposure := n\<rparr>, [CsSetExposureManual (v_handle cam) n])"
    using n by (simp_all add: vs1_brightness_listener_def vs1_exposure_listener_def vs1_setBrightness_def vs1_setExposure_def)
next
  assume n: "128 \<le> n \<and> n \<le> 255"
  have "(n + 128) mod 256 = (n - 128 + 256) mod 256" by (simp add: add.commute)
  also have "\<dots> = (n - 128) mod 256" by (rule mod_add_self2)
  also have "\<dots> = n - 128" using n by (intro mod_pos_pos_trivial) simp_all
  finally have "int8 (fcvtzs32 (of_int_dbl n)) = n - 256" using n by (simp add: fcvtzs32_of_int int8_def)
  then show "vs1_brightness_listener (NtDouble (of_int_dbl n)) cam = (cam\<lparr>v_brightness := 0\<rparr>, [CsSetBrightness (v_handle cam) 0])"
    "snd (vs1_exposure_listener (NtDouble (of_int_dbl n)) cam) = [CsSetExposureAuto (v_handle cam)]"
    using n by (simp_all add: vs1_brightness_listener_def vs1_exposure_listener_def vs1_setBrightness_def vs1_setExposure_def)
qed

theorem legacy_remote_settings_witness:
  "snd (vs1_exposure_listener (NtDouble (of_int_dbl 200)) (vs1_VisionCamera0 demo_lib 7)) = [CsSetExposureAuto 7]
   \<and> settings_ok (fst (notify Exposure (NtDouble (of_int_dbl 200)) (vs1_VisionCamera0 demo_lib 7)))"
  using legacy_remote_settings [of "vs1_VisionCamera0 demo_lib 7" "[(Exposure, NtDouble (of_int_dbl 200))]" demo_lib 7 200]
  by (simp add: vs1_VisionCamera0_def)

text \<open>The readers of calibrations of the two versions of the framework agree: on cameras with the
  same calibration and over the same matrix they give the same result and leave the same store.\<close>

lemma legacy_readers_agree:
  assumes "v_calibration c1 = calibration c2"
  shows "vs1_getJsonCameraMatrix_f c1 a \<sigma> = getJsonCameraMatrix_f c2 a \<sigma>
    \<and> vs1_getJsonCameraMatrix_d c1 a \<sigma> = getJsonCameraMatrix_d c2 a \<sigma>
    \<and> vs1_getJsonDistortionCoefs_f c1 a \<sigma> = getJsonDistortionCoefs_f c2 a \<sigma>
    \<and> vs1_getJsonDistortionCoefs_d c1 a \<sigma> = getJsonDistortionCoefs_d c2 a \<sigma>"
  using assms by (simp add: vs1_getJsonCameraMatrix_f_def vs1_getJsonCameraMatrix_d_def vs1_getJsonDistortionCoefs_f_def
      vs1_getJsonDistortionCoefs_d_def vs1_read_calib_def getJsonCameraMatrix_f_def getJsonCameraMatrix_d_def
      getJsonDistortionCoefs_f_def getJsonDistortionCoefs_d_def read_calib_def)

end
