(* ===== verification/Legacy_Server.thy ===== *)
theory Legacy_Server
  imports Legacy_Camera Config Server_Run
begin

text \<open>
  The first version of the vision server (\<^verbatim>\<open>vs1-legacy/visionserver.h\<close>, \<^verbatim>\<open>visionserver.cpp\<close> and
  \<^verbatim>\<open>visionserver.inc\<close>) and the functions of \<^verbatim>\<open>vs1-legacy/vision.cpp\<close>. One camera is selected and one
  stream is served; the workers are loops over frames, modelled over the list of the readings of their
  iterations as in theory \<open>Server_Run\<close>. \<open>selected\<close> is the position of the selected camera in the vector,
  \<open>None\<close> before it is set. The processor statistics are not modelled.
\<close>

subsection \<open>The active target\<close>

record TargetInfo =
  ttable :: path
  tlast_set :: int

definition setTarget :: "string \<Rightarrow> int \<Rightarrow> TargetInfo \<Rightarrow> TargetInfo \<times> log" where
  "setTarget target now ti = (ti\<lparr>tlast_set := now\<rparr>, [NtPut (ttable ti) ''Active Target'' (NtString target)])"

definition target_update :: "rat \<Rightarrow> int \<Rightarrow> TargetInfo \<Rightarrow> bool \<times> log" where
  "target_update ltime now ti =
     (if seconds (now - tlast_set ti) > ltime
      then (True, [NtPut (ttable ti) ''Active Target'' (NtString ''none'')]) else (False, []))"

subsection \<open>Configuration\<close>

definition vs1_nt_mode :: "json \<Rightarrow> bool \<times> log" where
  "vs1_nt_mode j =
     (if json_count j ''ntmode'' \<noteq> 0 then
        (case rbind (json_at j ''ntmode'') get_string of
           Inr str \<Rightarrow>
             (if equals_lower str ''client'' then
                (case rbind (json_at j ''team'') get_unsigned of
                   Inr team \<Rightarrow> (True, [NtStartClientTeam team, NtStartDSClient])
                 | Inl _ \<Rightarrow> (False, [StdErr]))
              else if equals_lower str ''server'' then (True, [NtStartServer])
              else (True, [NtStartClientHost str]))
         | Inl _ \<Rightarrow> (True, [StdErr]))
      else (True, []))"

text \<open>A vector of cameras with its capacity. The class has a destructor and no move constructor, so a
  vector that grows copies its cameras and destroys the old ones, which deletes their entries.\<close>

type_synonym vs1_cams = "vs1_VisionCamera list \<times> nat \<times> mat_store \<times> log"

definition vs1_push :: "vs1_VisionCamera \<Rightarrow> mat_store \<Rightarrow> log \<Rightarrow> vs1_cams \<Rightarrow> vs1_cams" where
  "vs1_push c \<sigma>' cs = (\<lambda>(cams, cap, \<sigma>, l).
     if length cams < cap then (cams @ [c], cap, \<sigma>', l @ cs)
     else (cams @ [c], length cams + max 1 (length cams), \<sigma>', l @ cs @ concat (map vs1_VisionCamera_destroy cams)))"

definition vs1_emplace :: "cs_lib \<Rightarrow> (handle \<Rightarrow> handle) \<Rightarrow> json \<Rightarrow> json \<Rightarrow> vs1_cams \<Rightarrow> vs1_cams res" where
  "vs1_emplace L GV j camera x = (let \<sigma> = fst (snd (snd x)) in
     if json_count camera ''calibration'' > 0 \<and> json_count j ''calibrations'' > 0 then
       (case named_calib j camera of
          Inr cal \<Rightarrow> rbind (vs1_VisionCamera_json2 L GV camera cal \<sigma>) (\<lambda>(c, \<sigma>', cs). Inr (vs1_push c \<sigma>' cs x))
        | Inl _ \<Rightarrow> (let (c, cs) = vs1_VisionCamera_json L GV camera in Inr (vs1_push c \<sigma> (StdErr # cs) x)))
     else (let (c, cs) = vs1_VisionCamera_json L GV camera in Inr (vs1_push c \<sigma> cs x)))"

text \<open>The loop body of \<^verbatim>\<open>readConfig\<close>, which may remove the new camera again.\<close>

definition vs1_read_one :: "bool \<Rightarrow> cs_lib \<Rightarrow> (handle \<Rightarrow> handle) \<Rightarrow> json \<Rightarrow> json \<Rightarrow> vs1_cams \<Rightarrow> vs1_cams res" where
  "vs1_read_one rm L GV j camera x = rbind (vs1_emplace L GV j camera x) (\<lambda>(cams, cap, \<sigma>, l).
     if rm \<and> \<not> is_connected L (v_handle (last cams))
     then Inr (butlast cams, cap, \<sigma>, l @ vs1_VisionCamera_destroy (last cams)) else Inr (cams, cap, \<sigma>, l))"

definition vs1_readConfig ::
    "bool \<Rightarrow> cs_lib \<Rightarrow> (handle \<Rightarrow> handle) \<Rightarrow> files \<Rightarrow> string \<Rightarrow> vs1_cams \<Rightarrow> (bool \<times> vs1_cams) res" where
  "vs1_readConfig rm L GV fs f = (\<lambda>(cams, cap, \<sigma>, l). case loadJson fs f of
       (None, cs) \<Rightarrow> Inr (False, (cams, cap, \<sigma>, l @ cs))
     | (Some j, cs) \<Rightarrow> (let (ok, ds) = vs1_nt_mode j in
          if \<not> ok then Inr (False, (cams, cap, \<sigma>, l @ cs @ ds))
          else if json_count j ''cameras'' < 1 then Inr (True, (cams, cap, \<sigma>, l @ cs @ ds @ [StdErr]))
          else rbind (json_at j ''cameras'') (\<lambda>es.
            rbind (rfold (vs1_read_one rm L GV j) (json_items es) (cams, cap, \<sigma>, l @ cs @ ds)) (\<lambda>x. Inr (True, x)))))"

text \<open>The loop body of \<^verbatim>\<open>updateFromConfig\<close>, which publishes the settings of a camera it keeps.\<close>

definition vs1_root :: path where
  "vs1_root = [''Vision Server'']"

definition vs1_update_one :: "bool \<Rightarrow> cs_lib \<Rightarrow> (handle \<Rightarrow> handle) \<Rightarrow> json \<Rightarrow> json \<Rightarrow> vs1_cams \<Rightarrow> vs1_cams res" where
  "vs1_update_one rm L GV j camera x = rbind (vs1_emplace L GV j camera x) (\<lambda>(cams, cap, \<sigma>, l).
     if rm \<and> \<not> is_connected L (v_handle (last cams))
     then Inr (butlast cams, cap, \<sigma>, l @ vs1_VisionCamera_destroy (last cams))
     else (let c = vs1_setNetworkBase L vs1_root (last cams)
           in Inr (butlast cams @ [c], cap, \<sigma>, l @ vs1_setNetworkAdjustable c)))"

text \<open>\<open>conn\<close> tells whether NetworkTables is connected already. The json values of a list of cameras do not
  throw in the loop, so the restoring of the old cameras is not reached.\<close>

definition updateFromConfig ::
    "bool \<Rightarrow> cs_lib \<Rightarrow> (handle \<Rightarrow> handle) \<Rightarrow> bool \<Rightarrow> files \<Rightarrow> string \<Rightarrow> vs1_cams \<Rightarrow> (bool \<times> vs1_cams) res" where
  "updateFromConfig rm L GV conn fs f = (\<lambda>(cams, cap, \<sigma>, l). case loadJson fs f of
       (None, cs) \<Rightarrow> Inr (False, (cams, cap, \<sigma>, l @ cs))
     | (Some j, cs) \<Rightarrow> (let (ok, ds) = (if conn then (True, []) else vs1_nt_mode j) in
          if \<not> ok then Inr (False, (cams, cap, \<sigma>, l @ cs @ ds))
          else if json_count j ''cameras'' < 1 then Inr (True, (cams, cap, \<sigma>, l @ cs @ ds @ [StdErr]))
          else rbind (json_at j ''cameras'') (\<lambda>es.
            rbind (rfold (vs1_update_one rm L GV j) (json_items es) ([], 0, \<sigma>, l @ cs @ ds)) (\<lambda>(new, cap, \<sigma>, l).
              Inr (True, (new, cap, \<sigma>, l @ [put_num vs1_root ''Cameras Available'' (int (length new))]
                 @ concat (map vs1_VisionCamera_destroy cams)))))))"

subsection \<open>The server\<close>

record vs1_server =
  s_cameras :: "vs1_VisionCamera list"
  s_selected :: "nat option"
  s_output :: handle
  s_stream :: handle
  runloop :: bool
  launched :: bool
  active_target :: TargetInfo
  total_frames :: nat
  sec1_frames :: nat
  total_time :: rat
  frame_time :: rat
  loop_time :: rat
  sec1_time :: rat
  fps_1s :: dbl
  s_fps :: dbl
  s_start :: int
  s_last :: int
  s_log :: log

definition vs1_emit :: "log \<Rightarrow> vs1_server \<Rightarrow> vs1_server" where
  "vs1_emit cs s = s\<lparr>s_log := s_log s @ cs\<rparr>"

definition vs1_server0 :: "vs1_VisionCamera list \<Rightarrow> log \<Rightarrow> vs1_server" where
  "vs1_server0 cams l = \<lparr>s_cameras = cams, s_selected = None, s_output = 0, s_stream = 0, runloop = True, launched = False,
     active_target = \<lparr>ttable = vs1_root, tlast_set = 0\<rparr>, total_frames = 0, sec1_frames = 0, total_time = 0,
     frame_time = 0, loop_time = 0, sec1_time = 0, fps_1s = Fin 0, s_fps = Fin 0, s_start = 0, s_last = 0, s_log = l\<rparr>"

text \<open>What both constructors do once the cameras are there: \<open>count\<close> tells whether they publish the number
  of cameras; \<open>out\<close> is the handle of the new output.\<close>

definition vs1_setup :: "cs_lib \<Rightarrow> handle \<Rightarrow> bool \<Rightarrow> vs1_server \<Rightarrow> vs1_server res" where
  "vs1_setup L out count s =
     rbind (vec_idx (s_cameras s) 0) (\<lambda>c.
     Inr (let s = s\<lparr>s_selected := Some 0, s_output := out, s_stream := add_server L ''Vision Output'' None\<rparr> in
       vs1_emit ([put_num vs1_root ''Camera Index'' 0,
                  NtPut vs1_root ''Camera Name'' (NtString (get_name L (v_handle c)))]
               @ (if count then [put_num vs1_root ''Cameras Available'' (int (length (s_cameras s)))] else [])
               @ [CsSetSource (s_stream s) out, NtAddEntryListener vs1_root ''Camera Index'']) s))"

definition vs1_VisionServer_file ::
    "bool \<Rightarrow> cs_lib \<Rightarrow> (handle \<Rightarrow> handle) \<Rightarrow> bool \<Rightarrow> handle \<Rightarrow> files \<Rightarrow> string \<Rightarrow> mat_store \<Rightarrow> (vs1_server \<times> mat_store) res" where
  "vs1_VisionServer_file rm L GV conn out fs f \<sigma> =
     rbind (updateFromConfig rm L GV conn fs f ([], 0, \<sigma>, [])) (\<lambda>(_, (cams, _, \<sigma>, l)).
     rbind (vs1_setup L out False (vs1_server0 cams l)) (\<lambda>s. Inr (s, \<sigma>)))"

definition vs1_VisionServer_cameras :: "cs_lib \<Rightarrow> handle \<Rightarrow> vs1_VisionCamera list \<Rightarrow> vs1_server res" where
  "vs1_VisionServer_cameras L out cams =
     (let cams = map (vs1_setNetworkBase L vs1_root) cams in
      vs1_setup L out True (vs1_server0 cams (concat (map vs1_setNetworkAdjustable cams))))"

definition vs1_VisionServer_destroy :: "vs1_server \<Rightarrow> log" where
  "vs1_VisionServer_destroy s =
     [NtDelete vs1_root ''Camera Index'', NtDelete vs1_root ''Camera Name'', NtDelete vs1_root ''Cameras Available'']"

text \<open>The listener on "Camera Index"; the value is converted to a \<^verbatim>\<open>size_t\<close>.\<close>

definition camera_index_listener :: "cs_lib \<Rightarrow> nt_val \<Rightarrow> vs1_server \<Rightarrow> vs1_server res" where
  "camera_index_listener L v s = (case v of
       NtDouble d \<Rightarrow>
         (let idx = nat (fcvtzu64 d) in
          if idx < length (s_cameras s) then
            rbind (vec_at (s_cameras s) idx) (\<lambda>c.
              Inr (vs1_emit [NtPut vs1_root ''Camera Name'' (NtString (get_name L (v_handle c)))] (s\<lparr>s_selected := Some idx\<rparr>)))
          else Inr s)
     | _ \<Rightarrow> Inr s)"

text \<open>\<open>ok\<close> is what \<^verbatim>\<open>SetDouble\<close> returns.\<close>

definition vs1_setCamera :: "bool \<Rightarrow> nat \<Rightarrow> vs1_server \<Rightarrow> bool \<times> vs1_server" where
  "vs1_setCamera ok idx s =
     (if idx < length (s_cameras s)
      then (ok, vs1_emit [NtPut vs1_root ''Camera Index'' (NtDouble (of_int_dbl (int idx)))] s) else (False, s))"

definition setCompression :: "int \<Rightarrow> vs1_server \<Rightarrow> vs1_server" where
  "setCompression quality s = vs1_emit
     [CsSetCompression (s_stream s) (if quality > 100 then 100 else if quality < - 1 then - 1 else quality)] s"

definition getCurrentCamera :: "vs1_server \<Rightarrow> vs1_VisionCamera res" where
  "getCurrentCamera s = (case s_selected s of None \<Rightarrow> Inl UB | Some i \<Rightarrow> vec_idx (s_cameras s) i)"

subsection \<open>The workers\<close>

text \<open>The readings of one iteration: entries, clocks, and the load and temperature of the processor.\<close>

record wreading =
  w_index :: dbl
  w_enable :: bool
  w_show :: bool
  w_beg :: int
  w_end :: int
  w_now :: int
  w_cpu :: dbl
  w_temp :: dbl

definition putStats :: log where
  "putStats = [Draw ''FPS(1F)'', Draw ''FPS(1S)'', Draw ''Ltime'', Draw ''Ftime'']"

definition updateStats :: "dbl \<Rightarrow> dbl \<Rightarrow> vs1_server \<Rightarrow> log" where
  "updateStats cpu temp s = (let p = vs1_root @ [''stats''] in
     [NtPut p ''CPU Utilization(%-1F)'' (NtDouble cpu), NtPut p ''CPU Temp(*C)'' (NtDouble temp),
      NtPut p ''Frametime(ms)'' (NtDouble (Fin (frame_time s * 1000))),
      NtPut p ''Looptime(ms)'' (NtDouble (Fin (loop_time s * 1000))),
      NtPut p ''FPS(1F)'' (NtDouble (s_fps s)), NtPut p ''FPS(1s)'' (NtDouble (fps_1s s)),
      put_num p ''Frames'' (int (total_frames s))])"

text \<open>The statistics of one iteration, after the frame was processed from \<open>b\<close> to \<open>e\<close>.\<close>

definition account :: "int \<Rightarrow> int \<Rightarrow> vs1_server \<Rightarrow> vs1_server" where
  "account b e s =
     (let s = s\<lparr>total_frames := total_frames s + 1, total_time := seconds (e - s_start s),
                frame_time := seconds (e - b), loop_time := seconds (e - s_last s), s_last := e\<rparr>;
          s = s\<lparr>s_fps := dbl_div (Fin 1) (Fin (loop_time s))\<rparr>
      in if rat_trunc (total_time s) > rat_trunc (sec1_time s)
         then s\<lparr>fps_1s := dbl_div (Fin (of_nat (total_frames s - sec1_frames s))) (Fin (total_time s - sec1_time s)),
                sec1_time := total_time s, sec1_frames := total_frames s\<rparr>
         else s)"

text \<open>The end of an iteration: the target is updated, the statistics are shown, and the frame is put out.\<close>

definition finish_frame :: "wreading \<Rightarrow> vs1_server \<Rightarrow> vs1_server" where
  "finish_frame rd s =
     vs1_emit (snd (target_update (loop_time s) (w_now rd) (active_target s)) @ (if w_show rd then putStats else [])
        @ updateStats (w_cpu rd) (w_temp rd) s @ [CsPutFrame (s_output s)]) s"

text \<open>One iteration. \<open>sel\<close> chooses the pipeline from the reading; without one the two times of the frame
  are the same reading of the clock.\<close>

definition worker_iter :: "(wreading \<Rightarrow> handle option res) \<Rightarrow> bool \<Rightarrow> wreading \<Rightarrow> vs1_server \<Rightarrow> vs1_server res" where
  "worker_iter sel flush rd s = rbind (getCurrentCamera s) (\<lambda>_. rbind (sel rd) (\<lambda>p.
     let s = (case p of None \<Rightarrow> account (w_beg rd) (w_beg rd) s
              | Some h \<Rightarrow> account (w_beg rd) (w_end rd) (vs1_emit [PipeProcess h] s));
         s = finish_frame rd s
     in Inr (if flush then vs1_emit [NtFlush] s else s)))"

text \<open>The loop: the readings are those of the iterations until another thread clears \<^verbatim>\<open>runloop\<close>; a flag that is
  cleared before the worker starts ends it at once.\<close>

definition worker_loop :: "(wreading \<Rightarrow> handle option res) \<Rightarrow> bool \<Rightarrow> wreading list \<Rightarrow> vs1_server \<Rightarrow> vs1_server res" where
  "worker_loop sel flush rds s = (if runloop s then rfold (worker_iter sel flush) rds s else Inr s)"

definition worker_begin :: "int \<Rightarrow> log \<Rightarrow> vs1_server \<Rightarrow> vs1_server" where
  "worker_begin quality cs s =
     vs1_emit ([CsSetCompression (s_stream s) quality, CsSetDefaultCompression (s_stream s) quality] @ cs) s"

definition worker_end :: "log \<Rightarrow> vs1_server \<Rightarrow> vs1_server" where
  "worker_end cs s = vs1_emit cs (s\<lparr>runloop := True\<rparr>)"

text \<open>\<^verbatim>\<open>visionWorker\<close> without pipelines: it does not set the time of the start.\<close>

definition visionWorker :: "int \<Rightarrow> wreading list \<Rightarrow> vs1_server \<Rightarrow> vs1_server res" where
  "visionWorker quality rds s =
     rbind (worker_loop (\<lambda>_. Inr None) False rds
              (worker_begin quality [NtPut vs1_root ''Show Statistics'' (NtBoolean False)] s)) (\<lambda>s.
     Inr (worker_end [NtDelete vs1_root ''Show Statistics''] s))"

definition visionWorker_S1 :: "handle \<Rightarrow> int \<Rightarrow> int \<Rightarrow> wreading list \<Rightarrow> vs1_server \<Rightarrow> vs1_server res" where
  "visionWorker_S1 p start quality rds s =
     rbind (worker_loop (\<lambda>rd. Inr (if w_enable rd then Some p else None)) True rds
              ((worker_begin quality [NtPut vs1_root ''Show Statistics'' (NtBoolean False),
                  NtPut vs1_root ''Enable Processing'' (NtBoolean True)] s)\<lparr>s_start := start\<rparr>)) (\<lambda>s.
     Inr (worker_end [NtDelete vs1_root ''Show Statistics'', NtDelete vs1_root ''Enable Processing''] s))"

text \<open>The switch of the workers with two and three pipelines on the index, converted to 8 bits.\<close>

definition switch_S :: "handle list \<Rightarrow> wreading \<Rightarrow> handle option res" where
  "switch_S ps rd =
     (let k = (if w_enable rd then 1 else 0) * (int8 (fcvtzs32 (w_index rd)) + 1) in
      Inr (if 1 \<le> k \<and> k \<le> int (length ps) then Some (ps ! nat (k - 1)) else None))"

text \<open>The subscript of the worker with any number of pipelines: the addition is one of \<^verbatim>\<open>int\<close>.\<close>

definition switch_all :: "handle list \<Rightarrow> wreading \<Rightarrow> handle option res" where
  "switch_all ps rd =
     (let n = fcvtzs32 (w_index rd) in
      if n = 2 ^ 31 - 1 then Inl UB
      else (let idx = (if w_enable rd then 1 else 0) * (n + 1) in
            if idx > 0 \<and> idx \<le> int (length ps) then rbind (vec_idx ps (nat (idx - 1))) (\<lambda>p. Inr (Some p)) else Inr None))"

definition pipelines_begin :: "nat \<Rightarrow> log" where
  "pipelines_begin n = [put_num vs1_root ''Pipeline Index'' 0, put_num vs1_root ''Pipelines Available'' (int n),
     NtPut vs1_root ''Show Statistics'' (NtBoolean False), NtPut vs1_root ''Enable Processing'' (NtBoolean True)]"

definition pipelines_end :: log where
  "pipelines_end = [NtDelete vs1_root ''Pipeline Index'', NtDelete vs1_root ''Piplines Available'',
     NtDelete vs1_root ''Show Statistics'', NtDelete vs1_root ''Enable Processing'']"

definition visionWorker_S2 :: "handle \<Rightarrow> handle \<Rightarrow> int \<Rightarrow> int \<Rightarrow> wreading list \<Rightarrow> vs1_server \<Rightarrow> vs1_server res" where
  "visionWorker_S2 p1 p2 start quality rds s =
     rbind (worker_loop (switch_S [p1, p2]) True rds
              ((worker_begin quality (pipelines_begin 2) s)\<lparr>s_start := start\<rparr>)) (\<lambda>s. Inr (worker_end pipelines_end s))"

definition visionWorker_S3 :: "handle \<Rightarrow> handle \<Rightarrow> handle \<Rightarrow> int \<Rightarrow> int \<Rightarrow> wreading list \<Rightarrow> vs1_server \<Rightarrow> vs1_server res" where
  "visionWorker_S3 p1 p2 p3 start quality rds s =
     rbind (worker_loop (switch_S [p1, p2, p3]) True rds
              ((worker_begin quality (pipelines_begin 3) s)\<lparr>s_start := start\<rparr>)) (\<lambda>s. Inr (worker_end pipelines_end s))"

definition visionWorker_all :: "handle list \<Rightarrow> int \<Rightarrow> int \<Rightarrow> wreading list \<Rightarrow> vs1_server \<Rightarrow> vs1_server res" where
  "visionWorker_all ps start quality rds s =
     rbind (worker_loop (switch_all ps) True rds
              ((worker_begin quality (pipelines_begin (length ps)) s)\<lparr>s_start := start\<rparr>)) (\<lambda>s. Inr (worker_end pipelines_end s))"

subsection \<open>Threads\<close>

text \<open>\<^verbatim>\<open>runVisionThread\<close> and its templates start a worker if none is joinable. \<^verbatim>\<open>stopVision\<close> clears the flag;
  joining a thread waits for the end of its worker, which sets the flag again, unless it had returned before
  (\<open>ended\<close>). Theory \<open>Legacy_Threads\<close> has the steps.\<close>

definition runVisionThread :: "vs1_server \<Rightarrow> bool \<times> vs1_server" where
  "runVisionThread s = (if \<not> launched s then (True, s\<lparr>launched := True\<rparr>) else (False, s))"

definition stopVision :: "bool \<Rightarrow> vs1_server \<Rightarrow> bool \<times> vs1_server" where
  "stopVision ended s = (if launched s then (True, s\<lparr>launched := False, runloop := \<not> ended\<rparr>) else (False, s\<lparr>runloop := False\<rparr>))"

subsection \<open>Functions of \<^verbatim>\<open>vision.cpp\<close>\<close>

text \<open>\<open>has\<close> tells which entries the table has; \<open>src\<close> is the static sink, which keeps its value between calls.\<close>

definition switchedCameraVision :: "(string \<Rightarrow> bool) \<Rightarrow> path \<Rightarrow> vs1_VisionCamera list \<Rightarrow> handle \<Rightarrow> handle \<times> log" where
  "switchedCameraVision has table cams src =
     ((case cams of [] \<Rightarrow> src | c # _ \<Rightarrow> v_source c),
      (if has ''Camera Index'' then [] else [put_num table ''Camera Index'' 0])
      @ (if has ''Cameras Available'' then [] else [put_num table ''Cameras Available'' (int (length cams))])
      @ [NtAddEntryListener table ''Camera Index''])"

definition switched_listener :: "vs1_VisionCamera list \<Rightarrow> handle \<Rightarrow> nt_val \<Rightarrow> log res" where
  "switched_listener cams src v = (case v of
       NtDouble d \<Rightarrow>
         (let idx = nat (fcvtzu64 d) in
          if idx < length cams then
            rbind (vec_idx cams idx) (\<lambda>c. rbind (vs1_getStreamJson c) (\<lambda>_.
              Inr [CsSetSource src (v_handle c), CsSetConfigJson src]))
          else Inr [])
     | _ \<Rightarrow> Inr [])"

definition addNetTableVar_bool :: "(string \<Rightarrow> bool) \<Rightarrow> bool \<Rightarrow> string \<Rightarrow> path \<Rightarrow> log" where
  "addNetTableVar_bool has var name table =
     (if has name then [] else [NtPut table name (NtBoolean var)]) @ [NtAddEntryListener table name]"

definition bool_var_listener :: "nt_val \<Rightarrow> bool \<Rightarrow> bool" where
  "bool_var_listener v var = (case v of NtBoolean b \<Rightarrow> b | _ \<Rightarrow> var)"

end
