(* ===== verification/Legacy_Props.thy ===== *)
theory Legacy_Props
  imports Legacy_Server
begin

text \<open>
  Properties of the first version of the vision server: the choice of pipelines and cameras from remote
  indices, the loop of the workers, and the entries of cameras in a growing vector.
\<close>

subsection \<open>Remote indices\<close>

lemma int8_period: "int8 (n + 256 * k) = int8 n"
proof -
  have "n + 256 * k + 2 ^ 7 = n + 2 ^ 7 + 2 ^ 8 * k" by simp
  then show ?thesis by (simp only: int8_def mod_mult_self2)
qed

text \<open>The pipeline of a remote index. The workers with two and three pipelines always find a pipeline
  or none, never fail, and take index \<open>i\<close> for the pipeline \<open>i\<close>; they cannot tell indices apart that
  differ by multiples of 256. The worker with any number of pipelines agrees with them on indices of 8
  bits and fails only on an index of at least \<open>2 ^ 31 - 1\<close>, where adding 1 overflows.\<close>

theorem legacy_pipeline_choice:
  "(\<exists>p. switch_S ps rd = Inr p \<and> (\<forall>h. p = Some h \<longrightarrow> h \<in> set ps \<and> w_enable rd))
   \<and> (i < length ps \<and> i < 128 \<and> - (2 ^ 31) \<le> int i + 256 * k \<and> int i + 256 * k < 2 ^ 31 \<longrightarrow>
       switch_S ps (rd\<lparr>w_enable := True, w_index := of_int_dbl (int i + 256 * k)\<rparr>) = Inr (Some (ps ! i)))
   \<and> (length ps < 128 \<and> - 128 \<le> fcvtzs32 (w_index rd) \<and> fcvtzs32 (w_index rd) < 128 \<longrightarrow>
       switch_all ps rd = switch_S ps rd)
   \<and> (switch_all ps rd = Inl e \<longleftrightarrow> e = UB \<and> fcvtzs32 (w_index rd) = 2 ^ 31 - 1)"
proof (intro conjI impI)
  show "\<exists>p. switch_S ps rd = Inr p \<and> (\<forall>h. p = Some h \<longrightarrow> h \<in> set ps \<and> w_enable rd)"
    by (auto simp: switch_S_def Let_def intro!: nth_mem)
next
  assume i: "i < length ps \<and> i < 128 \<and> - (2 ^ 31) \<le> int i + 256 * k \<and> int i + 256 * k < 2 ^ 31"
  then have "int8 (fcvtzs32 (of_int_dbl (int i + 256 * k))) = int i"
    by (simp add: fcvtzs32_of_int int8_period int8_id)
  then show "switch_S ps (rd\<lparr>w_enable := True, w_index := of_int_dbl (int i + 256 * k)\<rparr>) = Inr (Some (ps ! i))"
    using i by (simp add: switch_S_def)
next
  assume "length ps < 128 \<and> - 128 \<le> fcvtzs32 (w_index rd) \<and> fcvtzs32 (w_index rd) < 128"
  then show "switch_all ps rd = switch_S ps rd"
    by (auto simp: switch_all_def switch_S_def int8_id vec_idx_def Let_def)
next
  show "switch_all ps rd = Inl e \<longleftrightarrow> e = UB \<and> fcvtzs32 (w_index rd) = 2 ^ 31 - 1"
    by (auto simp: switch_all_def Let_def vec_idx_def)
qed

definition demo_rd :: wreading where
  "demo_rd = \<lparr>w_index = Fin 0, w_enable = True, w_show = False, w_beg = 0, w_end = 0, w_now = 0, w_cpu = Fin 0, w_temp = Fin 40\<rparr>"

theorem legacy_pipeline_choice_witness:
  "switch_S [7, 8] (demo_rd\<lparr>w_enable := True, w_index := of_int_dbl 257\<rparr>) = Inr (Some 8)"
  using legacy_pipeline_choice [of "[7, 8]" demo_rd 1 1] by simp

text \<open>The selected camera is one of the vector.\<close>

definition selection_ok :: "vs1_server \<Rightarrow> bool" where
  "selection_ok s \<longleftrightarrow> (\<exists>i. s_selected s = Some i \<and> i < length (s_cameras s))"

lemma selection_ok_emit [simp]: "selection_ok (vs1_emit cs s) = selection_ok s"
  by (simp add: selection_ok_def vs1_emit_def)

lemma listener_ok: "selection_ok s \<Longrightarrow> \<exists>s'. camera_index_listener L v s = Inr s' \<and> selection_ok s' \<and> s_cameras s' = s_cameras s"
  by (cases v) (auto simp: camera_index_listener_def selection_ok_def vs1_emit_def vec_at_def Let_def)

lemma listeners_ok:
  "selection_ok s \<Longrightarrow> \<exists>s'. rfold (camera_index_listener L) vs s = Inr s' \<and> selection_ok s'"
  by (rule rfold_invariant) (auto dest: listener_ok)

lemma fcvtzu64_of_nat: "n < 2 ^ 64 \<Longrightarrow> nat (fcvtzu64 (of_int_dbl (int n))) = n"
  using rat_trunc_of_int [of "int n"] by (simp add: of_int_dbl_def sat_id)

text \<open>C29: The camera selected by a server is always one of its cameras, whatever values arrive for the
  index: a server constructed from at least one camera starts with the first, and after \<^verbatim>\<open>setCamera\<close>
  the notification selects the camera asked for and publishes its name. Constructing a server from no
  camera at all reads an element of an empty vector.\<close>

theorem legacy_camera_selection:
  "(cams \<noteq> [] \<longrightarrow> (\<exists>s s'. vs1_VisionServer_cameras L out cams = Inr s \<and>
       rfold (camera_index_listener L) vs s = Inr s' \<and> selection_ok s' \<and> (\<exists>c. getCurrentCamera s' = Inr c)))
   \<and> vs1_VisionServer_cameras L out [] = Inl UB
   \<and> (vs1_setCamera True idx s = (True, t) \<and> idx < 2 ^ 64 \<longrightarrow>
       last_put (s_log t) vs1_root ''Camera Index'' = Some (NtDouble (of_int_dbl (int idx))) \<and>
       (\<exists>u. camera_index_listener L (NtDouble (of_int_dbl (int idx))) t = Inr u \<and> s_selected u = Some idx \<and>
         last_put (s_log u) vs1_root ''Camera Name'' = Some (NtString (get_name L (v_handle (s_cameras s ! idx))))))"
proof (intro conjI impI)
  assume "cams \<noteq> []"
  then obtain s where s: "vs1_VisionServer_cameras L out cams = Inr s" "selection_ok s"
    by (cases cams) (auto simp: vs1_VisionServer_cameras_def vs1_setup_def vs1_server0_def vec_idx_def Let_def
        selection_ok_def vs1_emit_def)
  moreover obtain s' where s': "rfold (camera_index_listener L) vs s = Inr s'" "selection_ok s'"
    using listeners_ok [OF s(2)] by blast
  moreover have "\<exists>c. getCurrentCamera s' = Inr c" using s'(2) by (auto simp: selection_ok_def getCurrentCamera_def)
  ultimately show "\<exists>s s'. vs1_VisionServer_cameras L out cams = Inr s \<and>
       rfold (camera_index_listener L) vs s = Inr s' \<and> selection_ok s' \<and> (\<exists>c. getCurrentCamera s' = Inr c)" by blast
next
  show "vs1_VisionServer_cameras L out [] = Inl UB"
    by (simp add: vs1_VisionServer_cameras_def vs1_setup_def vs1_server0_def vec_idx_def)
next
  assume a: "vs1_setCamera True idx s = (True, t) \<and> idx < 2 ^ 64"
  then have t: "idx < length (s_cameras s)" "t = vs1_emit [NtPut vs1_root ''Camera Index'' (NtDouble (of_int_dbl (int idx)))] s"
    by (auto simp: vs1_setCamera_def split: if_splits)
  show "last_put (s_log t) vs1_root ''Camera Index'' = Some (NtDouble (of_int_dbl (int idx)))" by (simp add: t(2) vs1_emit_def)
  show "\<exists>u. camera_index_listener L (NtDouble (of_int_dbl (int idx))) t = Inr u \<and> s_selected u = Some idx \<and>
         last_put (s_log u) vs1_root ''Camera Name'' = Some (NtString (get_name L (v_handle (s_cameras s ! idx))))"
    using t a fcvtzu64_of_nat [of idx] by (simp add: camera_index_listener_def vec_at_def vs1_emit_def last_put_append del: fcvtzu64.simps)
qed

theorem legacy_camera_selection_witness:
  "\<exists>s s'. vs1_VisionServer_cameras demo_lib 3 [vs1_VisionCamera0 demo_lib 7] = Inr s \<and>
     rfold (camera_index_listener demo_lib) [NtDouble (Fin (- 4)), NtDouble NaN, NtString ''x''] s = Inr s' \<and> selection_ok s'"
  using legacy_camera_selection [of "[vs1_VisionCamera0 demo_lib 7]" demo_lib 3 "[NtDouble (Fin (- 4)), NtDouble NaN, NtString ''x'']"]
  by blast

subsection \<open>The workers\<close>

text \<open>What a piece of a worker adds to the log: \<open>n\<close> frames put out, no entry deleted.\<close>

definition adds_frames :: "handle \<Rightarrow> nat \<Rightarrow> log \<Rightarrow> bool" where
  "adds_frames out n cs \<longleftrightarrow> length (filter (\<lambda>c. c = CsPutFrame out) cs) = n \<and> (\<forall>p k. NtDelete p k \<notin> set cs)"

lemma adds_frames_append: "adds_frames out m cs \<Longrightarrow> adds_frames out n ds \<Longrightarrow> adds_frames out (m + n) (cs @ ds)"
  by (auto simp: adds_frames_def)

definition worked :: "vs1_server \<Rightarrow> nat \<Rightarrow> vs1_server \<Rightarrow> bool" where
  "worked s n s' \<longleftrightarrow> selection_ok s' \<and> s_output s' = s_output s \<and> total_frames s' = total_frames s + n
     \<and> (\<exists>cs. s_log s' = s_log s @ cs \<and> adds_frames (s_output s) n cs)"

lemma account_frame [simp]:
  "s_log (account b e s) = s_log s" "s_output (account b e s) = s_output s" "total_frames (account b e s) = total_frames s + 1"
  "s_cameras (account b e s) = s_cameras s" "s_selected (account b e s) = s_selected s"
  by (simp_all add: account_def Let_def)

lemma finish_adds:
  "\<exists>cs. finish_frame rd s = vs1_emit cs s \<and> adds_frames (s_output s) 1 cs"
  by (auto simp: finish_frame_def adds_frames_def target_update_def putStats_def updateStats_def put_num_def Let_def)

lemma worker_iter_ok:
  assumes "selection_ok s" "sel rd = Inr p"
  shows "\<exists>s'. worker_iter sel fl rd s = Inr s' \<and> worked s 1 s'"
proof -
  obtain c where c: "getCurrentCamera s = Inr c" using assms(1) by (auto simp: selection_ok_def getCurrentCamera_def)
  define t where "t = (case p of None \<Rightarrow> account (w_beg rd) (w_beg rd) s
              | Some h \<Rightarrow> account (w_beg rd) (w_end rd) (vs1_emit [PipeProcess h] s))"
  obtain cs where cs: "finish_frame rd t = vs1_emit cs t" "adds_frames (s_output t) 1 cs" using finish_adds by blast
  have t: "selection_ok t" "s_output t = s_output s" "total_frames t = total_frames s + 1"
    "\<exists>ds. s_log t = s_log s @ ds \<and> adds_frames (s_output s) 0 ds"
    using assms(1) by (auto simp: t_def selection_ok_def vs1_emit_def adds_frames_def split: option.splits)
  have "adds_frames (s_output s) 1 (cs @ [NtFlush])" using cs(2) t(2) by (simp add: adds_frames_def)
  then have "worked s 1 (if fl then vs1_emit [NtFlush] (vs1_emit cs t) else vs1_emit cs t)"
    using t cs(2) adds_frames_append [of "s_output s" 0 _ 1] by (fastforce simp: worked_def vs1_emit_def selection_ok_def)
  then show ?thesis using assms(2) c cs(1) by (auto simp: worker_iter_def t_def [symmetric] Let_def split: if_splits)
qed

lemma worked_trans: "worked s m t \<Longrightarrow> worked t n u \<Longrightarrow> worked s (m + n) u"
  using adds_frames_append by (fastforce simp: worked_def)

lemma worker_fold_ok:
  assumes "selection_ok s" "\<forall>rd \<in> set rds. \<exists>p. sel rd = Inr p"
  shows "\<exists>s'. rfold (worker_iter sel fl) rds s = Inr s' \<and> worked s (length rds) s'"
  using assms
proof (induction rds arbitrary: s)
  case Nil
  then show ?case by (auto simp: worked_def adds_frames_def)
next
  case (Cons rd rds)
  then obtain t where t: "worker_iter sel fl rd s = Inr t" "worked s 1 t" using worker_iter_ok by (metis list.set_intros(1))
  then have "selection_ok t" by (simp add: worked_def)
  then obtain u where "rfold (worker_iter sel fl) rds t = Inr u" "worked t (length rds) u" using Cons by auto
  then show ?case using t worked_trans [OF t(2)] by auto
qed

text \<open>The number of iterations a worker makes.\<close>

definition frames_run :: "vs1_server \<Rightarrow> wreading list \<Rightarrow> nat" where
  "frames_run s rds = (if runloop s then length rds else 0)"

lemma worker_loop_ok:
  assumes "selection_ok s" "\<forall>rd \<in> set rds. \<exists>p. sel rd = Inr p"
  shows "\<exists>s'. worker_loop sel fl rds s = Inr s' \<and> worked s (frames_run s rds) s'"
  using worker_fold_ok [OF assms] assms(1) by (auto simp: worker_loop_def frames_run_def worked_def adds_frames_def)

text \<open>A worker over any number of frames with a camera selected returns: it puts out exactly one frame
  per iteration and counts it, and leaves the server ready for the next worker. But after a
  \<^verbatim>\<open>stopVision\<close> that found no thread to stop, it ends without a frame. It removes the entry
  "Pipeline Index" again but, for a misspelt name, never the entry "Pipelines Available" it published.\<close>

theorem legacy_worker_frames:
  assumes "selection_ok s" "\<forall>rd \<in> set rds. fcvtzs32 (w_index rd) \<noteq> 2 ^ 31 - 1"
  shows "\<exists>s' cs. visionWorker_all ps start q rds s = Inr s' \<and> s_log s' = s_log s @ cs
    \<and> length (filter (\<lambda>c. c = CsPutFrame (s_output s)) cs) = frames_run s rds
    \<and> total_frames s' = total_frames s + frames_run s rds \<and> runloop s' \<and> selection_ok s'
    \<and> put_num vs1_root ''Pipelines Available'' (int (length ps)) \<in> set cs
    \<and> NtDelete vs1_root ''Pipeline Index'' \<in> set cs \<and> NtDelete vs1_root ''Pipelines Available'' \<notin> set cs
    \<and> (\<not> launched u \<longrightarrow> frames_run (snd (stopVision ended u)) rds = 0)"
proof -
  define b where "b = (worker_begin q (pipelines_begin (length ps)) s)\<lparr>s_start := start\<rparr>"
  obtain hs where b: "selection_ok b" "s_log b = s_log s @ hs" "s_output b = s_output s" "total_frames b = total_frames s" "frames_run b rds = frames_run s rds"
    "adds_frames (s_output s) 0 hs" "put_num vs1_root ''Pipelines Available'' (int (length ps)) \<in> set hs"
    using assms(1) by (auto simp: b_def worker_begin_def pipelines_begin_def vs1_emit_def selection_ok_def adds_frames_def put_num_def frames_run_def)
  have "\<forall>rd \<in> set rds. \<exists>p. switch_all ps rd = Inr p"
    using assms(2) by (auto simp: switch_all_def Let_def vec_idx_def)
  from worker_loop_ok [OF b(1) this] obtain t where
    t: "worker_loop (switch_all ps) True rds b = Inr t" "worked b (frames_run s rds) t" unfolding b(5) by blast
  obtain cs where cs: "s_log t = s_log s @ hs @ cs" "adds_frames (s_output s) (frames_run s rds) (hs @ cs)"
    using t(2) b adds_frames_append [OF b(6)] by (auto simp: worked_def)
  have "visionWorker_all ps start q rds s = Inr (worker_end pipelines_end t)"
    using t(1) by (simp add: visionWorker_all_def b_def)
  moreover have "s_log (worker_end pipelines_end t) = s_log s @ (hs @ cs @ pipelines_end)"
    using cs(1) by (simp add: worker_end_def vs1_emit_def)
  moreover have "length (filter (\<lambda>c. c = CsPutFrame (s_output s)) (hs @ cs @ pipelines_end)) = frames_run s rds"
    "NtDelete vs1_root ''Pipelines Available'' \<notin> set (hs @ cs @ pipelines_end)"
    "NtDelete vs1_root ''Pipeline Index'' \<in> set (hs @ cs @ pipelines_end)"
    using cs(2) by (auto simp: adds_frames_def pipelines_end_def)
  ultimately show ?thesis using t(2) b(4, 7)
    by (intro exI [of _ "worker_end pipelines_end t"] exI [of _ "hs @ cs @ pipelines_end"])
      (auto simp: worker_end_def worked_def vs1_emit_def selection_ok_def stopVision_def frames_run_def)
qed

theorem legacy_worker_frames_witness:
  "\<exists>s'. visionWorker_all [7, 8] 0 50 [demo_rd, demo_rd] ((vs1_server0 [vs1_VisionCamera0 demo_lib 7] [])\<lparr>s_selected := Some 0\<rparr>) = Inr s'
     \<and> total_frames s' = 2"
proof -
  let ?s = "(vs1_server0 [vs1_VisionCamera0 demo_lib 7] [])\<lparr>s_selected := Some 0\<rparr>"
  have "selection_ok ?s" by (simp add: selection_ok_def vs1_server0_def)
  moreover have "\<forall>rd \<in> set [demo_rd, demo_rd]. fcvtzs32 (w_index rd) \<noteq> 2 ^ 31 - 1" by (simp add: demo_rd_def sat_def rat_trunc_def)
  ultimately obtain s' where "visionWorker_all [7, 8] 0 50 [demo_rd, demo_rd] ?s = Inr s'"
    "total_frames s' = total_frames ?s + frames_run ?s [demo_rd, demo_rd]"
    using legacy_worker_frames [of ?s "[demo_rd, demo_rd]" "[7, 8]" 0 50] by blast
  then show ?thesis by (simp add: vs1_server0_def frames_run_def)
qed

subsection \<open>Cameras in a growing vector\<close>

text \<open>Whether an entry exists after a log: the last put or delete decides.\<close>

fun entry_exists :: "path \<Rightarrow> string \<Rightarrow> bool \<Rightarrow> log \<Rightarrow> bool" where
  "entry_exists p k b [] = b"
| "entry_exists p k b (NtPut p' k' v # cs) = entry_exists p k (b \<or> p' = p \<and> k' = k) cs"
| "entry_exists p k b (NtDelete p' k' # cs) = entry_exists p k (b \<and> \<not> (p' = p \<and> k' = k)) cs"
| "entry_exists p k b (c # cs) = entry_exists p k b cs"

lemma entry_exists_append: "entry_exists p k b (cs @ ds) = entry_exists p k (entry_exists p k b cs) ds"
  by (induction p k b cs rule: entry_exists.induct) simp_all

text \<open>A camera without a calibration is appended with what its constructor logs, which touches no entry.\<close>

lemma open_usb_entries: "entry_exists p k b (snd (open_usb L cfg)) = b"
  by (simp add: open_usb_def split: sum.splits)

lemma vs1_json_facts:
  "v_handle (fst (vs1_VisionCamera_json L GV cfg)) = fst (open_usb L cfg)"
  "entry_exists p k b (snd (vs1_VisionCamera_json L GV cfg)) = b"
  by (simp_all add: vs1_VisionCamera_json_def vs1_getVideo_def Let_def split_beta entry_exists_append open_usb_entries)

lemma update_one_plain:
  assumes "json_count e ''calibration'' = 0"
  shows "vs1_update_one False L GV j e x =
    (let (c, cs) = vs1_VisionCamera_json L GV e; (cams, cap, \<sigma>, l) = vs1_push c (fst (snd (snd x))) cs x;
         c' = vs1_setNetworkBase L vs1_root c
     in Inr (butlast cams @ [c'], cap, \<sigma>, l @ vs1_setNetworkAdjustable c'))"
  using assms by (cases x) (simp add: vs1_update_one_def vs1_emplace_def split_beta Let_def vs1_push_def)

text \<open>The tables of the cameras of two entries.\<close>

definition entry_table :: "cs_lib \<Rightarrow> json \<Rightarrow> path" where
  "entry_table L e = vs1_root @ [''Cameras'', get_name L (fst (open_usb L e))]"

lemma adjustable_exists:
  "entry_exists p ''Brightness'' b (vs1_setNetworkAdjustable c) = (b \<or> p = v_camera c)"
  by (auto simp: vs1_setNetworkAdjustable_def vs1_setBrightnessAdjustable_def vs1_setWhiteBalanceAdjustable_def
      vs1_setExposureAdjustable_def)

lemma destroy_exists:
  "entry_exists p ''Brightness'' b (vs1_VisionCamera_destroy c) = (b \<and> p \<noteq> v_camera c)"
  by (auto simp: vs1_VisionCamera_destroy_def vs1_deleteEntries_def)

text \<open>Reading a configuration with two cameras of different names leaves only the second one
  adjustable: the vector of cameras grows when the second is added, the copy of the first that is
  destroyed deletes the entries "Brightness", "WhiteBalance" and "Exposure" of its table, and they are
  not published again.\<close>

theorem legacy_growth_deletes_entries:
  assumes "fs f = FileJson (JObject ms)" "map_of ms ''cameras'' = Some (JArray [e1, e2])"
    and "json_count e1 ''calibration'' = 0" "json_count e2 ''calibration'' = 0"
    and "entry_table L e1 \<noteq> entry_table L e2"
  shows "\<exists>cams cap \<sigma>' l. updateFromConfig False L GV True fs f ([], 0, \<sigma>, []) = Inr (True, (cams, cap, \<sigma>', l))
    \<and> map v_camera cams = [entry_table L e1, entry_table L e2]
    \<and> \<not> entry_exists (entry_table L e1) ''Brightness'' False l
    \<and> entry_exists (entry_table L e2) ''Brightness'' False l"
proof -
  let ?c = "\<lambda>e. vs1_setNetworkBase L vs1_root (fst (vs1_VisionCamera_json L GV e))"
  let ?k = "\<lambda>e. snd (vs1_VisionCamera_json L GV e)"
  define l where "l = ?k e1 @ vs1_setNetworkAdjustable (?c e1) @ ?k e2 @ vs1_VisionCamera_destroy (?c e1)
    @ vs1_setNetworkAdjustable (?c e2) @ [put_num vs1_root ''Cameras Available'' 2]"
  have v: "v_camera (?c e) = entry_table L e" for e by (simp add: vs1_setNetworkBase_def entry_table_def vs1_json_facts)
  have "updateFromConfig False L GV True fs f ([], 0, \<sigma>, []) = Inr (True, ([?c e1, ?c e2], 2, \<sigma>, l))"
    using assms(1-4) by (simp add: updateFromConfig_def loadJson_def update_one_plain vs1_push_def split_beta Let_def l_def)
  moreover have "entry_exists p ''Brightness'' False l = (p = entry_table L e2)" for p
    using assms(5) by (auto simp: l_def entry_exists_append adjustable_exists destroy_exists vs1_json_facts v put_num_def)
  ultimately show ?thesis using assms(5) v by simp
qed

definition demo_files2 :: files where
  "demo_files2 f = FileJson (JObject [(''cameras'', JArray
     [JObject [(''name'', JString ''a''), (''path'', JString ''/dev/video0'')], JNull])])"

theorem legacy_growth_deletes_entries_witness:
  "\<exists>cams cap \<sigma>' l. updateFromConfig False (demo_lib\<lparr>get_name := \<lambda>h. if h = 7 then ''a'' else ''b''\<rparr>) (\<lambda>h. h) True demo_files2
       ''/boot/frc.json'' ([], 0, mat_store0, []) = Inr (True, (cams, cap, \<sigma>', l))
     \<and> \<not> entry_exists [''Vision Server'', ''Cameras'', ''a''] ''Brightness'' False l"
proof -
  let ?L = "demo_lib\<lparr>get_name := \<lambda>h. if h = 7 then ''a'' else ''b''\<rparr>"
  let ?e1 = "JObject [(''name'', JString ''a''), (''path'', JString ''/dev/video0'')]"
  have t: "entry_table ?L ?e1 = [''Vision Server'', ''Cameras'', ''a'']" "entry_table ?L JNull = [''Vision Server'', ''Cameras'', ''b'']"
    by (simp_all add: entry_table_def open_usb_def demo_lib_def vs1_root_def)
  show ?thesis
    using legacy_growth_deletes_entries [of demo_files2 "''/boot/frc.json''" "[(''cameras'', JArray [?e1, JNull])]" ?e1 JNull ?L
        "\<lambda>h. h" mat_store0] by (auto simp: t demo_files2_def)
qed

end
