(* ===== verification/Legacy_Threads.thy ===== *)
theory Legacy_Threads
  imports Legacy_Server Interleaving
begin

text \<open>
  The worker thread of the first version of the framework (\<^verbatim>\<open>vs1-legacy/visionserver.cpp\<close>, \<^verbatim>\<open>visionserver.inc\<close>)
  and the thread that launches and stops it, step by step: \<^verbatim>\<open>runVisionThread\<close>, the loop of \<^verbatim>\<open>visionWorker\<close> and
  \<^verbatim>\<open>stopVision\<close>, which share the atomic flag \<^verbatim>\<open>runloop\<close>. The operations of theory \<open>Legacy_Server\<close> are shown to be what
  the steps come to, and the flag to be left cleared by a stop that comes when no worker is in its loop.
\<close>

subsection \<open>Steps\<close>

text \<open>A worker is in its loop, behind the loop, or has returned.\<close>

datatype worker_pc = WLoop | WEnd | WDone

record wpool =
  wflag :: bool
  wthread :: "worker_pc option"
  joining :: bool
  wframes :: nat

definition worker_step :: "wpool \<Rightarrow> wpool option" where
  "worker_step p = (case wthread p of
       Some WLoop \<Rightarrow> Some (if wflag p then p\<lparr>wframes := wframes p + 1\<rparr> else p\<lparr>wthread := Some WEnd\<rparr>)
     | Some WEnd \<Rightarrow> Some (p\<lparr>wflag := True, wthread := Some WDone\<rparr>)
     | _ \<Rightarrow> None)"

text \<open>The calls of the other thread, which waits in \<^verbatim>\<open>join\<close> until the worker has returned.\<close>

definition launch_step :: "wpool \<Rightarrow> (bool \<times> wpool) option" where
  "launch_step p = (if joining p then None
     else Some (if wthread p = None then (True, p\<lparr>wthread := Some WLoop\<rparr>) else (False, p)))"

definition stop_begin :: "wpool \<Rightarrow> wpool option" where
  "stop_begin p = (if joining p then None else Some (p\<lparr>wflag := False, joining := wthread p \<noteq> None\<rparr>))"

definition stop_join :: "wpool \<Rightarrow> wpool option" where
  "stop_join p = (if joining p \<and> wthread p = Some WDone then Some (p\<lparr>wthread := None, joining := False\<rparr>) else None)"

datatype wact = Work | Launch | StopBegin | StopJoin

definition wmove :: "wact \<Rightarrow> wpool \<Rightarrow> wpool option" where
  "wmove a p = (case a of Work \<Rightarrow> worker_step p | Launch \<Rightarrow> map_option snd (launch_step p)
     | StopBegin \<Rightarrow> stop_begin p | StopJoin \<Rightarrow> stop_join p)"

text \<open>The server that belongs to a state of the threads.\<close>

definition seen :: "wpool \<Rightarrow> vs1_server \<Rightarrow> vs1_server" where
  "seen p s = s\<lparr>launched := wthread p \<noteq> None, runloop := wflag p\<rparr>"

lemmas wmove_defs = wmove_def worker_step_def launch_step_def stop_begin_def stop_join_def

subsection \<open>Stopping\<close>

text \<open>While a stop waits, the flag is cleared until the worker has passed its end.\<close>

definition waiting :: "wpool \<Rightarrow> wpool \<Rightarrow> bool" where
  "waiting p q \<longleftrightarrow> wframes q = wframes p \<and>
     (if joining q then (case wthread p of None \<Rightarrow> False
          | Some WDone \<Rightarrow> wthread q = Some WDone \<and> \<not> wflag q
          | Some _ \<Rightarrow> (wthread q = Some WLoop \<and> \<not> wflag q) \<or> wthread q = Some WEnd \<or> (wthread q = Some WDone \<and> wflag q))
      else wthread q = None \<and> wflag q = (case wthread p of Some WLoop \<Rightarrow> True | Some WEnd \<Rightarrow> True | _ \<Rightarrow> False))"

definition stop_move :: "wact \<Rightarrow> wpool \<Rightarrow> wpool option" where
  "stop_move a p = (if a = Work \<or> a = StopJoin then wmove a p else None)"

fun stop_work :: "wpool \<Rightarrow> nat" where
  "stop_work p = (if joining p then (case wthread p of Some WLoop \<Rightarrow> 3 | Some WEnd \<Rightarrow> 2 | _ \<Rightarrow> 1) else 0)"

interpretation legacy_stop: bounded_moves stop_move "waiting p" stop_work
proof
  fix q a q'
  assume w: "waiting p q" and m: "stop_move a q = Some q'"
  show "waiting p q'"
    using w m unfolding waiting_def stop_move_def wmove_defs
    by (auto split: if_splits option.splits worker_pc.splits)
  show "stop_work q' < stop_work q"
    using w m unfolding waiting_def stop_move_def wmove_defs
    by (auto split: if_splits option.splits worker_pc.splits)
qed



subsection \<open>A stop that comes too early or too late\<close>

text \<open>Executions in which a stop is called only while no worker is in its loop, and those in which it is called only
  while one is.\<close>

definition idle_move :: "wact \<Rightarrow> wpool \<Rightarrow> wpool option" where
  "idle_move a p = (if a = StopBegin \<and> (wthread p = Some WLoop \<or> wthread p = Some WEnd) then None else wmove a p)"

definition prompt_move :: "wact \<Rightarrow> wpool \<Rightarrow> wpool option" where
  "prompt_move a p = (if a = StopBegin \<and> wthread p \<noteq> Some WLoop then None else wmove a p)"

definition disabled :: "nat \<Rightarrow> wpool \<Rightarrow> bool" where
  "disabled n p \<longleftrightarrow> wframes p = n \<and> (joining p \<longrightarrow> wthread p = Some WDone)
     \<and> (if joining p then \<not> wflag p else wthread p = Some WDone \<or> \<not> wflag p)"

definition enabled :: "wpool \<Rightarrow> bool" where
  "enabled p \<longleftrightarrow> (if joining p then (case wthread p of None \<Rightarrow> False | Some WDone \<Rightarrow> wflag p | Some _ \<Rightarrow> \<not> wflag p)
     else wflag p \<and> (wthread p = None \<or> wthread p = Some WLoop))"

lemma enabled_step: "enabled p \<Longrightarrow> prompt_move a p = Some q \<Longrightarrow> enabled q"
  by (auto simp: enabled_def prompt_move_def wmove_defs split: if_splits option.splits worker_pc.splits wact.splits)

lemma disabled_step: "disabled n p \<Longrightarrow> idle_move a p = Some q \<Longrightarrow> disabled n q"
  by (auto simp: disabled_def idle_move_def wmove_defs split: if_splits option.splits worker_pc.splits wact.splits)
    (metis worker_pc.exhaust)

text \<open>C31: A stop without a worker disables the server: however often a worker is launched and, once it has returned,
  stopped again, none processes a frame. If stops are called only while a worker is in its loop, every worker
  is launched with the flag set.\<close>

theorem legacy_stop_sticks:
  assumes "wthread p = None" "\<not> joining p"
  shows "(wmove StopBegin p = Some p' \<and> runs idle_move as p' = Some q \<longrightarrow> wframes q = wframes p)
    \<and> (wflag p \<and> runs prompt_move as p = Some q \<and> \<not> joining q \<longrightarrow> wflag q)"
proof (intro conjI impI; elim conjE)
  assume m: "wmove StopBegin p = Some p'" "runs idle_move as p' = Some q"
  have "disabled (wframes p) p'" using m(1) assms by (auto simp: wmove_defs disabled_def split: if_splits)
  from runs_invariant [where I = "disabled (wframes p)", OF m(2) this] have "disabled (wframes p) q" using disabled_step by blast
  then show "wframes q = wframes p" by (simp add: disabled_def)
next
  assume m: "wflag p" "runs prompt_move as p = Some q" "\<not> joining q"
  have "enabled p" using m(1) assms by (simp add: enabled_def)
  from runs_invariant [where I = enabled, OF m(2) this] have "enabled q" using enabled_step by blast
  then show "wflag q" using m(3) by (simp add: enabled_def)
qed

theorem legacy_stop_sticks_witness:
  "\<exists>p' q. wmove StopBegin \<lparr>wflag = True, wthread = None, joining = False, wframes = 5\<rparr> = Some p'
     \<and> runs idle_move [Launch, Work, Work, StopBegin, StopJoin, Launch, Work] p' = Some q \<and> wframes q = 5"
proof -
  let ?p = "\<lparr>wflag = True, wthread = None, joining = False, wframes = 5\<rparr>"
  obtain p' q where "wmove StopBegin ?p = Some p'" "runs idle_move [Launch, Work, Work, StopBegin, StopJoin, Launch, Work] p' = Some q"
    by (simp add: wmove_defs idle_move_def)
  moreover from this have "wframes q = wframes ?p" using legacy_stop_sticks [of ?p p' _ q] by (simp del: runs.simps)
  ultimately show ?thesis by auto
qed

end
