(* ===== verification/Neon32.thy ===== *)
theory Neon32
  imports Neon_Kernels
begin

unbundle bit_operations_syntax

text \<open>
  The functions for 32-bit ARM: \<^verbatim>\<open>core/neon32.S\<close>, which the makefile does not build, and
  \<^verbatim>\<open>vs1-legacy/mem.S\<close>, instruction by instruction, on the machine of theory \<open>Neon_Machine\<close> with 32-bit
  registers and addresses. Register 11 is \<^verbatim>\<open>fp\<close> and 13 is \<^verbatim>\<open>sp\<close>. The words on the stack are a list,
  apart from the memory the functions work on: saving registers does not write to the frames. A
  function takes the machine state and the words at the stack pointer, and returns both at its
  \<^verbatim>\<open>bx lr\<close>.
\<close>

type_synonym arm32 = "32 word arm"
type_synonym frame = "32 word list"

subsection \<open>Instructions\<close>

text \<open>\<^verbatim>\<open>d\<close> register \<open>k\<close> is half of \<^verbatim>\<open>q\<close> register \<open>k div 2\<close>.\<close>

definition set_d :: "nat \<Rightarrow> (nat \<Rightarrow> byte) \<Rightarrow> arm32 \<Rightarrow> arm32" where
  "set_d k f s = set_v (k div 2)
     (\<lambda>i. if 8 * (k mod 2) \<le> i \<and> i < 8 * (k mod 2) + 8 then f (i - 8 * (k mod 2)) else vr s (k div 2) i) s"

definition dreg :: "nat \<Rightarrow> arm32 \<Rightarrow> nat \<Rightarrow> byte" where
  "dreg k s i = vr s (k div 2) (8 * (k mod 2) + i)"

text \<open>\<^verbatim>\<open>vld1.64 d, [r]!\<close> and \<^verbatim>\<open>vst1.64 d, [r]!\<close>; \<^verbatim>\<open>vst1.64 {d, d'}, [r]!\<close>; \<^verbatim>\<open>vld3.8 {d, d', d''}, [r]!\<close>\<close>

definition vld1 :: "nat \<Rightarrow> nat \<Rightarrow> arm32 \<Rightarrow> arm32" where
  "vld1 k n s = set_x n (xr s n + 8) (set_d k (\<lambda>i. mem s (xr s n + of_nat i)) s)"

definition vst1 :: "nat \<Rightarrow> nat \<Rightarrow> arm32 \<Rightarrow> arm32" where
  "vst1 k n s = set_x n (xr s n + 8) (s\<lparr>mem := store 8 (xr s n) (dreg k s) (mem s)\<rparr>)"

definition vst1_pair :: "nat \<Rightarrow> nat \<Rightarrow> nat \<Rightarrow> arm32 \<Rightarrow> arm32" where
  "vst1_pair k k' n s = set_x n (xr s n + 16)
     (s\<lparr>mem := store 16 (xr s n) (\<lambda>i. if i < 8 then dreg k s i else dreg k' s (i - 8)) (mem s)\<rparr>)"

definition vld3 :: "nat \<Rightarrow> nat \<Rightarrow> nat \<Rightarrow> nat \<Rightarrow> arm32 \<Rightarrow> arm32" where
  "vld3 k k' k'' n s = set_x n (xr s n + 24)
     (set_d k'' (\<lambda>i. mem s (xr s n + of_nat (3 * i + 2)))
     (set_d k' (\<lambda>i. mem s (xr s n + of_nat (3 * i + 1)))
     (set_d k (\<lambda>i. mem s (xr s n + of_nat (3 * i))) s)))"

definition vdup8 :: "nat \<Rightarrow> nat \<Rightarrow> arm32 \<Rightarrow> arm32" where
  "vdup8 q n s = set_v q (\<lambda>i. ucast (xr s n)) s"

definition lsr :: "nat \<Rightarrow> nat \<Rightarrow> arm32 \<Rightarrow> arm32" where
  "lsr n k s = set_x n (drop_bit k (xr s n)) s"

text \<open>\<^verbatim>\<open>vshl.s8\<close> by a register: to the right for a negative count, keeping the sign.\<close>

definition sshl8 :: "byte \<Rightarrow> byte \<Rightarrow> byte" where
  "sshl8 a k = (if 0 \<le> sint k then push_bit (nat (sint k)) a else signed_drop_bit (nat (- sint k)) a)"

definition exec32 :: "(arm32 \<Rightarrow> arm32) list \<Rightarrow> arm32 \<Rightarrow> arm32" where
  "exec32 is s = fold (\<lambda>i. i) is s"

lemma exec32_simps [simp]: "exec32 [] s = s" "exec32 (i # is) s = exec32 is (i s)"
  by (simp_all add: exec32_def)

text \<open>\<^verbatim>\<open>push\<close> and \<^verbatim>\<open>add fp, sp, #0\<close>; \<^verbatim>\<open>sub sp, fp, #0\<close> and \<^verbatim>\<open>pop\<close>; \<^verbatim>\<open>ldr r, [sp, #off]\<close>.\<close>

definition enter :: "nat list \<Rightarrow> arm32 \<times> frame \<Rightarrow> arm32 \<times> frame" where
  "enter regs = (\<lambda>(s, st).
     let s' = set_x 13 (xr s 13 - of_nat (4 * length regs)) s in (set_x 11 (xr s' 13) s', map (xr s) regs @ st))"

definition leave :: "nat list \<Rightarrow> arm32 \<times> frame \<Rightarrow> arm32 \<times> frame" where
  "leave regs = (\<lambda>(s, st).
     let s' = set_x 13 (xr s 11) s;
         s'' = fold (\<lambda>(r, w). set_x r w) (zip regs st) s'
     in (set_x 13 (xr s' 13 + of_nat (4 * length regs)) s'', drop (length regs) st))"

definition ldr_sp :: "nat \<Rightarrow> nat \<Rightarrow> frame \<Rightarrow> arm32 \<Rightarrow> arm32" where
  "ldr_sp r off st s = set_x r (st ! (off div 4)) s"

text \<open>\<^verbatim>\<open>loop: body; sub r, r, #1; cmp r, #0; bgt loop\<close>\<close>

partial_function (option) bgt_loop :: "(arm32 \<Rightarrow> arm32) \<Rightarrow> nat \<Rightarrow> arm32 \<Rightarrow> arm32 option" where
  "bgt_loop body n s =
     (let s' = sub_x n 1 (body s) in if sint (xr s' n) > 0 then bgt_loop body n s' else Some s')"

text \<open>A function that saves \<open>regs\<close>, sets up its registers from the frame, and runs one loop.\<close>

definition kernel :: "nat list \<Rightarrow> (frame \<Rightarrow> (arm32 \<Rightarrow> arm32) list) \<Rightarrow> (arm32 \<Rightarrow> arm32 \<Rightarrow> arm32) \<Rightarrow> nat \<Rightarrow>
    arm32 \<times> frame \<Rightarrow> (arm32 \<times> frame) option" where
  "kernel regs init body n x = (let (s, st) = enter regs x; s = exec32 (init st) s in
     map_option (\<lambda>t. leave regs (t, st)) (bgt_loop (body s) n s))"

subsection \<open>The functions of \<^verbatim>\<open>neon32.S\<close>\<close>

definition thresh_body_32 :: "arm32 \<Rightarrow> arm32" where
  "thresh_body_32 = exec32 [vld1 0 1, vld1 1 1, v2 cmhi8 1 0 3, v2 (AND) 2 1 0, vst1 4 0, vst1 5 0]"

definition memcpy_threshold_asm_32 :: "arm32 \<times> frame \<Rightarrow> (arm32 \<times> frame) option" where
  "memcpy_threshold_asm_32 = kernel [11] (\<lambda>_. [lsr 2 4, vdup8 3 3]) (\<lambda>_. thresh_body_32) 2"

definition thresh_bin_body_32 :: "arm32 \<Rightarrow> arm32" where
  "thresh_bin_body_32 = exec32 [vld1 0 1, vld1 1 1, v2 cmhi8 1 0 3, vst1 2 0, vst1 3 0]"

definition memcpy_threshold_binary_asm_32 :: "arm32 \<times> frame \<Rightarrow> (arm32 \<times> frame) option" where
  "memcpy_threshold_binary_asm_32 = kernel [11] (\<lambda>_. [lsr 2 4, vdup8 3 3]) (\<lambda>_. thresh_bin_body_32) 2"

definition cmp3_add_body_32 :: "arm32 \<Rightarrow> arm32" where
  "cmp3_add_body_32 = exec32
     [vld1 0 0, vld1 1 0, vld1 2 1, vld1 3 1, vld1 4 2, vld1 5 2, vld1 6 3, vld1 7 3,
      v2 cmhi8 1 0 1, v2 cmhi8 2 0 2, v2 (AND) 1 1 2, v2 (AND) 2 0 1, v1 (drop_bit 6) 1 2,
      v1 uminus 1 1, v2 sshl8 2 0 1, v1 (push_bit 4) 2 2, v2 uqadd8 3 2 3,
      vst1 6 4, vst1 7 4]"

definition memcpy_compare3_add_asm_32 :: "arm32 \<times> frame \<Rightarrow> (arm32 \<times> frame) option" where
  "memcpy_compare3_add_asm_32 =
     kernel [4, 5, 11] (\<lambda>st. [ldr_sp 4 12 st, ldr_sp 5 16 st, lsr 5 4]) (\<lambda>_. cmp3_add_body_32) 5"

definition wst_body_32 :: "arm32 \<Rightarrow> arm32" where
  "wst_body_32 = exec32
     [vld1 0 0, vld1 1 0, vld1 2 1, vld1 3 1, vld1 4 2, vld1 5 2,
      v2 ushl8 1 1 8, v2 ushl8 2 2 9, v2 uqadd8 3 1 2, v2 uqadd8 3 3 10, v2 uqsub8 3 0 3,
      vst1 6 3, vst1 7 3]"

definition memcpy_wst_asm_32 :: "arm32 \<times> frame \<Rightarrow> (arm32 \<times> frame) option" where
  "memcpy_wst_asm_32 = kernel [4, 5, 6, 7, 11] (\<lambda>st.
     [ldr_sp 4 20 st, ldr_sp 5 24 st, ldr_sp 6 28 st, ldr_sp 7 32 st,
      vdup8 8 5, v1 clz8 8 8, v1 uminus 8 8, vdup8 9 6, v1 clz8 9 9, v1 uminus 9 9, vdup8 10 7, lsr 4 4])
     (\<lambda>_. wst_body_32) 4"

text \<open>The three loops of \<^verbatim>\<open>memcpy_split_wst_asm\<close> differ in the channel that is primary.\<close>

definition c0_body_32 :: "arm32 \<Rightarrow> arm32" where
  "c0_body_32 = exec32 [vld3 0 2 4 0, vld3 1 3 5 0,
     v2 ushl8 1 1 8, v2 ushl8 2 2 9, v2 uqadd8 3 1 2, v2 uqadd8 3 3 10, v2 uqsub8 3 0 3, vst1_pair 6 7 1]"

definition c1_body_32 :: "arm32 \<Rightarrow> arm32" where
  "c1_body_32 = exec32 [vld3 0 2 4 0, vld3 1 3 5 0,
     v2 ushl8 2 2 8, v2 ushl8 0 0 9, v2 uqadd8 3 2 0, v2 uqadd8 3 3 10, v2 uqsub8 3 1 3, vst1_pair 6 7 1]"

definition c2_body_32 :: "arm32 \<Rightarrow> arm32" where
  "c2_body_32 = exec32 [vld3 0 2 4 0, vld3 1 3 5 0,
     v2 ushl8 0 0 8, v2 ushl8 1 1 9, v2 uqadd8 3 0 1, v2 uqadd8 3 3 10, v2 uqsub8 3 2 3, vst1_pair 6 7 1]"

definition memcpy_split_wst_asm_32 :: "arm32 \<times> frame \<Rightarrow> (arm32 \<times> frame) option" where
  "memcpy_split_wst_asm_32 = kernel [4, 5, 6, 11] (\<lambda>st.
     [ldr_sp 4 16 st, ldr_sp 5 20 st, ldr_sp 6 24 st,
      vdup8 8 4, v1 clz8 8 8, v1 uminus 8 8, vdup8 9 5, v1 clz8 9 9, v1 uminus 9 9, vdup8 10 6, lsr 2 4])
     (\<lambda>s. if sint (xr s 3) < 1 then c0_body_32 else if xr s 3 = 1 then c1_body_32 else c2_body_32) 2"

definition or_body_32 :: "arm32 \<Rightarrow> arm32" where
  "or_body_32 = exec32 [vld1 0 0, vld1 1 0, vld1 2 1, vld1 3 1, v2 (OR) 2 0 1, vst1 4 2, vst1 5 2]"

definition memcpy_bitwise_or_asm_32 :: "arm32 \<times> frame \<Rightarrow> (arm32 \<times> frame) option" where
  "memcpy_bitwise_or_asm_32 = kernel [11] (\<lambda>_. [lsr 3 4]) (\<lambda>_. or_body_32) 3"

definition subtract_body_32 :: "arm32 \<Rightarrow> arm32" where
  "subtract_body_32 = exec32 [vld1 0 0, vld1 1 0, vld1 2 1, vld1 3 1, v2 uqsub8 2 0 1, vst1 4 2, vst1 5 2]"

definition memcpy_subtract_asm_32 :: "arm32 \<times> frame \<Rightarrow> (arm32 \<times> frame) option" where
  "memcpy_subtract_asm_32 = kernel [11] (\<lambda>_. [lsr 3 4]) (\<lambda>_. subtract_body_32) 3"

subsection \<open>The functions of \<^verbatim>\<open>mem.S\<close>\<close>

text \<open>The first two have the instructions of \<^verbatim>\<open>neon32.S\<close>; the difference is not saturating.\<close>

definition vs1_memcpy_threshold_asm :: "arm32 \<times> frame \<Rightarrow> (arm32 \<times> frame) option" where
  "vs1_memcpy_threshold_asm = kernel [11] (\<lambda>_. [lsr 2 4, vdup8 3 3]) (\<lambda>_. thresh_body_32) 2"

definition vs1_memcpy_threshold_binary_asm :: "arm32 \<times> frame \<Rightarrow> (arm32 \<times> frame) option" where
  "vs1_memcpy_threshold_binary_asm = kernel [11] (\<lambda>_. [lsr 2 4, vdup8 3 3]) (\<lambda>_. thresh_bin_body_32) 2"

definition vs1_subtract_body :: "arm32 \<Rightarrow> arm32" where
  "vs1_subtract_body = exec32 [vld1 0 0, vld1 1 0, vld1 2 1, vld1 3 1, v2 (-) 2 0 1, vst1 4 2, vst1 5 2]"

definition vs1_memcpy_subtract_asm :: "arm32 \<times> frame \<Rightarrow> (arm32 \<times> frame) option" where
  "vs1_memcpy_subtract_asm = kernel [11] (\<lambda>_. [lsr 3 4]) (\<lambda>_. vs1_subtract_body) 3"

end
