(* ===== verification/Neon32_Props.thy ===== *)
theory Neon32_Props
  imports Neon32 Neon_Props
begin

unbundle bit_operations_syntax

text \<open>
  What the functions for 32-bit ARM compute, from the block kernels of theory \<open>Neon_Machine\<close>.
\<close>

subsection \<open>Loops\<close>

lemma sint_of_nat_32: "c < 2 ^ 31 \<Longrightarrow> sint (of_nat c :: 32 word) = int c"
  by (simp add: signed_of_nat signed_take_bit_int_eq_self)

lemma bgt_loop_eq:
  assumes "\<And>s. xr (body s) n = xr s n" "xr s n = of_nat c" "c < 2 ^ 31"
  shows "bgt_loop body n s = Some (((sub_x n 1 \<circ> body) ^^ max 1 c) s)"
  using assms(2,3)
proof (induction c arbitrary: s)
  case 0
  then show ?case by (subst bgt_loop.simps) (simp add: sub_x_def assms(1) Let_def)
next
  case (Suc c)
  let ?s = "sub_x n 1 (body s)"
  have x: "xr ?s n = of_nat c" using Suc.prems(1) by (simp add: sub_x_def assms(1))
  show ?case
  proof (cases "c = 0")
    case True
    then show ?thesis using x by (subst bgt_loop.simps) (simp add: Let_def)
  next
    case False
    then have "sint (xr ?s n) > 0" using x sint_of_nat_32 [of c] Suc.prems(2) by simp
    then have "bgt_loop body n s = bgt_loop body n ?s" by (subst bgt_loop.simps) (simp add: Let_def)
    also have "\<dots> = Some (((sub_x n 1 \<circ> body) ^^ max 1 c) ?s)" using Suc.prems(2) by (intro Suc.IH [OF x]) simp
    also have "((sub_x n 1 \<circ> body) ^^ max 1 c) ?s = ((sub_x n 1 \<circ> body) ^^ Suc c) s"
      using False by (simp add: max_def funpow_Suc_right del: funpow.simps)
    finally have "bgt_loop body n s = Some (((sub_x n 1 \<circ> body) ^^ Suc c) s)" .
    moreover have "max 1 (Suc c) = Suc c" by simp
    ultimately show ?thesis by (simp only:)
  qed
qed

subsection \<open>Loads and stores of a whole register\<close>

definition vldq :: "nat \<Rightarrow> nat \<Rightarrow> arm32 \<Rightarrow> arm32" where
  "vldq q n s = set_x n (xr s n + 16)
     (set_v q (\<lambda>i. if i < 16 then mem s (xr s n + of_nat i) else vr s q i) s)"

definition vstq :: "nat \<Rightarrow> nat \<Rightarrow> arm32 \<Rightarrow> arm32" where
  "vstq q n s = set_x n (xr s n + 16) (s\<lparr>mem := store 16 (xr s n) (vr s q) (mem s)\<rparr>)"

lemma vld1_vld1: "vld1 (Suc (2 * q)) n (vld1 (2 * q) n s) = vldq q n s"
proof (rule arm.equality)
  have "xr s n + 8 + of_nat (i - 8) = xr s n + of_nat i" if "8 \<le> i" for i
    using that by (simp add: of_nat_diff algebra_simps)
  then show "vr (vld1 (Suc (2 * q)) n (vld1 (2 * q) n s)) = vr (vldq q n s)"
    by (auto simp: vld1_def vldq_def set_d_def fun_eq_iff)
qed (simp_all add: vld1_def vldq_def set_d_def set_x_def set_v_def add.assoc)

lemma store_store:
  fixes p :: "32 word"
  shows "store 8 (p + 8) g (store 8 p f m) = store 16 p (\<lambda>i. if i < 8 then f i else g (i - 8)) m"
proof
  fix a
  have e: "a - (p + 8) = (a - p) - of_nat 8" by simp
  have lt: "unat (a - (p + 8)) < 8 \<longleftrightarrow> 8 \<le> unat (a - p) \<and> unat (a - p) < 16"
    unfolding e by (subst unat_minus_lt) simp_all
  moreover have "unat (a - (p + 8)) = unat (a - p) - 8" if "8 \<le> unat (a - p)"
    unfolding e using that by (intro unat_minus_of_nat)
  ultimately show "store 8 (p + 8) g (store 8 p f m) a = store 16 p (\<lambda>i. if i < 8 then f i else g (i - 8)) m a"
    by (auto simp: store_def)
qed

lemma vst1_vst1: "vst1 (Suc (2 * q)) n (vst1 (2 * q) n s) = vstq q n s"
proof (rule arm.equality)
  have "store 16 (xr s n) (\<lambda>i. if i < 8 then vr s q i else vr s q (8 + (i - 8))) (mem s)
      = store 16 (xr s n) (vr s q) (mem s)" by (rule store_cong) simp
  then show "mem (vst1 (Suc (2 * q)) n (vst1 (2 * q) n s)) = mem (vstq q n s)"
    by (simp add: vst1_def vstq_def dreg_def set_x_def store_store cong: if_cong)
qed (simp_all add: vst1_def vstq_def set_x_def add.assoc)

lemma vst1_pair_q: "vst1_pair (2 * q) (Suc (2 * q)) n s = vstq q n s"
proof -
  have "store 16 (xr s n) (\<lambda>i. if i < 8 then vr s q i else vr s q (8 + (i - 8))) (mem s)
      = store 16 (xr s n) (vr s q) (mem s)" by (rule store_cong) simp
  then show ?thesis by (simp add: vst1_pair_def vstq_def dreg_def cong: if_cong)
qed

definition vld3q :: "nat \<Rightarrow> arm32 \<Rightarrow> arm32" where
  "vld3q n s = set_x n (xr s n + 48)
     (set_v 2 (\<lambda>i. if i < 16 then mem s (xr s n + of_nat (3 * i + 2)) else vr s 2 i)
     (set_v 1 (\<lambda>i. if i < 16 then mem s (xr s n + of_nat (3 * i + 1)) else vr s 1 i)
     (set_v 0 (\<lambda>i. if i < 16 then mem s (xr s n + of_nat (3 * i)) else vr s 0 i) s)))"

lemma vld3_vld3: "vld3 1 3 5 n (vld3 0 2 4 n s) = vld3q n s"
proof (rule arm.equality)
  have m: "(of_nat (3 * (i - 8)) :: 32 word) = of_nat (3 * i) - 24" if "8 \<le> i" for i
    using that by (simp add: of_nat_diff algebra_simps)
  show "vr (vld3 1 3 5 n (vld3 0 2 4 n s)) = vr (vld3q n s)"
    by (auto simp: vld3_def vld3q_def set_d_def fun_eq_iff m algebra_simps simp del: of_nat_mult)
qed (simp_all add: vld3_def vld3q_def set_d_def set_x_def set_v_def add.assoc)

lemmas pair_simps = vld1_vld1 [of 0, simplified] vld1_vld1 [of 1, simplified] vld1_vld1 [of 2, simplified]
  vld1_vld1 [of 3, simplified] vst1_vst1 [of 1, simplified] vst1_vst1 [of 2, simplified] vst1_vst1 [of 3, simplified]
  vst1_pair_q [of 3, simplified] vld3_vld3 [simplified]


text \<open>What each instruction leaves in a register or in memory.\<close>

lemma xr_simps:
  "xr (vldq q n s) r = (if r = n then xr s n + 16 else xr s r)" "xr (vstq q n s) r = (if r = n then xr s n + 16 else xr s r)"
  "xr (vld3q n s) r = (if r = n then xr s n + 48 else xr s r)" "xr (v1 f d a s) = xr s" "xr (v2 g d a b s) = xr s"
  "xr (vdup8 q n s) = xr s" "xr (lsr n k s) r = (if r = n then drop_bit k (xr s n) else xr s r)"
  "xr (ldr_sp m off st s) r = (if r = m then st ! (off div 4) else xr s r)"
  by (simp_all add: vldq_def vstq_def vld3q_def v1_def v2_def vdup8_def lsr_def ldr_sp_def set_x_def)

lemma vr_simps:
  "vr (vldq q n s) p = (if p = q then \<lambda>i. if i < 16 then mem s (xr s n + of_nat i) else vr s q i else vr s p)"
  "vr (vld3q n s) p = (if p < 3 then \<lambda>i. if i < 16 then mem s (xr s n + of_nat (3 * i + p)) else vr s p i else vr s p)"
  "vr (vstq q n s) = vr s" "vr (v1 f d a s) p = (if p = d then \<lambda>i. f (vr s a i) else vr s p)"
  "vr (v2 g d a b s) p = (if p = d then \<lambda>i. g (vr s a i) (vr s b i) else vr s p)"
  "vr (vdup8 q n s) p = (if p = q then \<lambda>i. ucast (xr s n) else vr s p)" "vr (lsr n k s) = vr s" "vr (ldr_sp m off st s) = vr s"
  by (auto simp: vldq_def vstq_def vld3q_def v1_def v2_def vdup8_def lsr_def ldr_sp_def set_x_def numeral_3_eq_3 less_Suc_eq
      numeral_2_eq_2)

lemma mem_simps:
  "mem (vldq q n s) = mem s" "mem (vld3q n s) = mem s" "mem (v1 f d a s) = mem s" "mem (v2 g d a b s) = mem s"
  "mem (vstq q n s) = store 16 (xr s n) (vr s q) (mem s)" "mem (vdup8 q n s) = mem s" "mem (lsr n k s) = mem s"
  "mem (ldr_sp m off st s) = mem s"
  by (simp_all add: vldq_def vstq_def vld3q_def v1_def v2_def vdup8_def lsr_def ldr_sp_def set_x_def)

lemmas body32_simps = pair_simps xr_simps vr_simps mem_simps

subsection \<open>The bodies are block kernels\<close>

interpretation thresh32: block_kernel thresh_body_32 "{1}" "\<lambda>r. 16" 0 2 "{3}"
  "\<lambda>c u k. cmhi8 (u 1 k) (c 3 k) AND u 1 k"
  by unfold_locales (auto simp: thresh_body_32_def body32_simps intro!: store_cong)

interpretation thresh_bin32: block_kernel thresh_bin_body_32 "{1}" "\<lambda>r. 16" 0 2 "{3}"
  "\<lambda>c u k. cmhi8 (u 1 k) (c 3 k)"
  by unfold_locales (auto simp: thresh_bin_body_32_def body32_simps intro!: store_cong)

interpretation or32: block_kernel or_body_32 "{0, 1}" "\<lambda>r. 16" 2 3 "{}" "\<lambda>c u k. u 0 k OR u 1 k"
  by unfold_locales (auto simp: or_body_32_def body32_simps intro!: store_cong)

interpretation sub32: block_kernel subtract_body_32 "{0, 1}" "\<lambda>r. 16" 2 3 "{}" "\<lambda>c u k. uqsub8 (u 0 k) (u 1 k)"
  by unfold_locales (auto simp: subtract_body_32_def body32_simps intro!: store_cong)

interpretation vs1_sub: block_kernel vs1_subtract_body "{0, 1}" "\<lambda>r. 16" 2 3 "{}" "\<lambda>c u k. u 0 k - u 1 k"
  by unfold_locales (auto simp: vs1_subtract_body_def body32_simps intro!: store_cong)

definition cmp3_pixel_32 :: "byte \<Rightarrow> byte \<Rightarrow> byte \<Rightarrow> byte \<Rightarrow> byte" where
  "cmp3_pixel_32 p a b e = uqadd8 (push_bit 4 (sshl8 p (- drop_bit 6 (p AND (cmhi8 p a AND cmhi8 p b))))) e"

interpretation cmp32: block_kernel cmp3_add_body_32 "{0, 1, 2, 3}" "\<lambda>r. 16" 4 5 "{}"
  "\<lambda>c u k. cmp3_pixel_32 (u 0 k) (u 1 k) (u 2 k) (u 3 k)"
  by unfold_locales (auto simp: cmp3_add_body_32_def cmp3_pixel_32_def body32_simps intro!: store_cong)

interpretation wst32: block_kernel wst_body_32 "{0, 1, 2}" "\<lambda>r. 16" 3 4 "{8, 9, 10}"
  "\<lambda>c u k. uqsub8 (u 0 k) (uqadd8 (uqadd8 (ushl8 (u 1 k) (c 8 k)) (ushl8 (u 2 k) (c 9 k))) (c 10 k))"
  by unfold_locales (auto simp: wst_body_32_def body32_simps intro!: store_cong)

interpretation s0: block_kernel c0_body_32 "{0}" stride31 1 2 "{8, 9, 10}"
  "\<lambda>c u k. uqsub8 (u 0 (3 * k)) (uqadd8 (uqadd8 (ushl8 (u 0 (3 * k + 1)) (c 8 k)) (ushl8 (u 0 (3 * k + 2)) (c 9 k))) (c 10 k))"
  by unfold_locales (auto simp: c0_body_32_def body32_simps intro!: store_cong)

interpretation s1: block_kernel c1_body_32 "{0}" stride31 1 2 "{8, 9, 10}"
  "\<lambda>c u k. uqsub8 (u 0 (3 * k + 1)) (uqadd8 (uqadd8 (ushl8 (u 0 (3 * k + 2)) (c 8 k)) (ushl8 (u 0 (3 * k)) (c 9 k))) (c 10 k))"
  by unfold_locales (auto simp: c1_body_32_def body32_simps intro!: store_cong)

interpretation s2: block_kernel c2_body_32 "{0}" stride31 1 2 "{8, 9, 10}"
  "\<lambda>c u k. uqsub8 (u 0 (3 * k + 2)) (uqadd8 (uqadd8 (ushl8 (u 0 (3 * k)) (c 8 k)) (ushl8 (u 0 (3 * k + 1)) (c 9 k))) (c 10 k))"
  by unfold_locales (auto simp: c2_body_32_def body32_simps intro!: store_cong)


subsection \<open>Whole functions\<close>

lemma fold_set_x:
  "mem (fold (\<lambda>(r, w). set_x r w) ps s) = mem s" "vr (fold (\<lambda>(r, w). set_x r w) ps s) = vr s"
  by (induction ps arbitrary: s) auto

lemma leave_simps: "mem (fst (leave regs x)) = mem (fst x)" "vr (fst (leave regs x)) = vr (fst x)"
  by (simp_all add: leave_def Let_def split_beta fold_set_x)

lemma enter_simps:
  "mem (fst (enter regs (s, st))) = mem s" "vr (fst (enter regs (s, st))) = vr s"
  "r \<noteq> 11 \<Longrightarrow> r \<noteq> 13 \<Longrightarrow> xr (fst (enter regs (s, st))) r = xr s r"
  "snd (enter regs (s, st)) = map (xr s) regs @ st"
  by (simp_all add: enter_def Let_def)

text \<open>The memory after a function whose body is a block kernel: the loop runs once for a counter of 0.\<close>

lemma kernel_mem:
  assumes bk: "block_kernel (body s1) srcs stride d n cregs g"
    and s1: "s1 = exec32 (init (map (xr s) regs @ st)) (fst (enter regs (s, st)))"
    and c: "xr s1 n = of_nat c" "c < 2 ^ 31"
    and cl: "\<forall>r \<in> srcs. clear_of (xr s1 d) (stride d) (xr s1 r) (stride r) (max 1 c)"
    and le: "max 1 c * stride d \<le> 2 ^ 32"
  shows "\<exists>t. kernel regs init body n (s, st) = Some t \<and> mem (fst t) = store (max 1 c * stride d) (xr s1 d)
    (\<lambda>k. g (vr s1) (\<lambda>r i. mem s1 (xr s1 r + of_nat (k div stride d * stride r + i))) (k mod stride d)) (mem s1)"
proof -
  have "sub_x n 1 \<circ> body s1 = block_kernel.step (body s1) n"
    by (simp add: fun_eq_iff block_kernel.step_def [OF bk])
  then have "bgt_loop (body s1) n s1 = Some ((block_kernel.step (body s1) n ^^ max 1 c) s1)"
    using bgt_loop_eq [OF block_kernel.xr_count [OF bk] c] by simp
  moreover have "mem ((block_kernel.step (body s1) n ^^ max 1 c) s1) =
      store (max 1 c * stride d) (xr s1 d) (block_kernel.written stride d g s1) (mem s1)"
    using block_kernel.mem_steps [OF bk] cl le by (simp add: block_kernel.no_clobber_def [OF bk])
  ultimately show ?thesis
    by (simp add: kernel_def split_beta Let_def enter_simps flip: s1)
      (simp add: leave_simps block_kernel.written_def [OF bk, abs_def])
qed


text \<open>The number of blocks of 16 bytes: the counter shifted right, and at least one.\<close>

definition blocks :: "nat \<Rightarrow> nat" where
  "blocks n = max 1 (n div 16)"

lemma lsr_of_nat_32: "n < 2 ^ 31 \<Longrightarrow> drop_bit 4 (of_nat n :: 32 word) = of_nat (n div 16)"
proof -
  assume n: "n < 2 ^ 31"
  have "unat (drop_bit 4 (of_nat n :: 32 word)) = n div 16"
    using n unat_of_nat_fit [of n, where 'l = 32] by (simp add: drop_bit_eq_div unat_div_distrib)
  then show ?thesis using n unat_of_nat_fit [of "n div 16", where 'l = 32] by (simp add: word_unat_eq_iff)
qed

lemma block_bound_32:
  fixes n :: nat
  shows "n < 2 ^ 31 \<Longrightarrow> max 1 (n div 16) * 16 \<le> 2 ^ 32" "n < 2 ^ 31 \<Longrightarrow> n div 16 < 2 ^ 31"
  by (auto simp: max_def)

text \<open>Each function, as an instance of the rule.\<close>

lemma threshold_32_mem:
  assumes "xr s 2 = of_nat n" "n < 2 ^ 31" "clear_of (xr s 0) 16 (xr s 1) 16 (blocks n)"
  shows "\<exists>t. memcpy_threshold_asm_32 (s, st) = Some t \<and> mem (fst t) = store (blocks n * 16) (xr s 0)
      (\<lambda>i. cmhi8 (mem s (xr s 1 + of_nat i)) (ucast (xr s 3)) AND mem s (xr s 1 + of_nat i)) (mem s)"
  using kernel_mem [OF thresh32.block_kernel_axioms refl, of "\<lambda>_. [lsr 2 4, vdup8 3 3]" s "[11]" st "n div 16"] assms
  by (simp add: memcpy_threshold_asm_32_def xr_simps vr_simps mem_simps enter_simps lsr_of_nat_32 block_bound_32 blocks_def div_mult_mod16)

lemma threshold_binary_32_mem:
  assumes "xr s 2 = of_nat n" "n < 2 ^ 31" "clear_of (xr s 0) 16 (xr s 1) 16 (blocks n)"
  shows "\<exists>t. memcpy_threshold_binary_asm_32 (s, st) = Some t \<and> mem (fst t) = store (blocks n * 16) (xr s 0)
      (\<lambda>i. cmhi8 (mem s (xr s 1 + of_nat i)) (ucast (xr s 3))) (mem s)"
  using kernel_mem [OF thresh_bin32.block_kernel_axioms refl, of "\<lambda>_. [lsr 2 4, vdup8 3 3]" s "[11]" st "n div 16"] assms
  by (simp add: memcpy_threshold_binary_asm_32_def xr_simps vr_simps mem_simps enter_simps lsr_of_nat_32 block_bound_32
      blocks_def div_mult_mod16)

lemma two_source_32_mem:
  assumes bk: "block_kernel body {0, 1} (\<lambda>r. 16) 2 3 {} (\<lambda>c u k. f (u 0 k) (u 1 k))"
    and "xr s 3 = of_nat n" "n < 2 ^ 31" "\<forall>r \<in> {0, 1}. clear_of (xr s 2) 16 (xr s r) 16 (blocks n)"
  shows "\<exists>t. kernel [11] (\<lambda>_. [lsr 3 4]) (\<lambda>_. body) 3 (s, st) = Some t \<and> mem (fst t) = store (blocks n * 16) (xr s 2)
      (\<lambda>i. f (mem s (xr s 0 + of_nat i)) (mem s (xr s 1 + of_nat i))) (mem s)"
  using kernel_mem [OF bk refl, of "\<lambda>_. [lsr 3 4]" s "[11]" st "n div 16"] assms(2-4)
  by (simp add: xr_simps vr_simps mem_simps enter_simps lsr_of_nat_32 block_bound_32 blocks_def div_mult_mod16)

text \<open>The value that the weighted subtraction writes for a pixel.\<close>

definition wst_pixel :: "byte \<Rightarrow> byte \<Rightarrow> byte \<Rightarrow> byte \<Rightarrow> byte \<Rightarrow> byte \<Rightarrow> byte" where
  "wst_pixel al be ga p a b = uqsub8 p (uqadd8 (uqadd8 (weight al a) (weight be b)) ga)"

lemma wst_32_mem:
  assumes st: "st = of_nat n # al # be # ga # st'" and n: "n < 2 ^ 31"
    and cl: "\<forall>r \<in> {0, 1, 2}. clear_of (xr s 3) 16 (xr s r) 16 (blocks n)"
  shows "\<exists>t. memcpy_wst_asm_32 (s, st) = Some t \<and> mem (fst t) = store (blocks n * 16) (xr s 3)
      (\<lambda>i. wst_pixel (ucast al) (ucast be) (ucast ga) (mem s (xr s 0 + of_nat i)) (mem s (xr s 1 + of_nat i))
         (mem s (xr s 2 + of_nat i))) (mem s)"
proof -
  let ?init = "\<lambda>st. [ldr_sp 4 20 st, ldr_sp 5 24 st, ldr_sp 6 28 st, ldr_sp 7 32 st,
      vdup8 8 5, v1 clz8 8 8, v1 uminus 8 8, vdup8 9 6, v1 clz8 9 9, v1 uminus 9 9, vdup8 10 7, lsr 4 4]"
  show ?thesis
    using kernel_mem [OF wst32.block_kernel_axioms refl, of ?init s "[4, 5, 6, 7, 11]" st "n div 16"] n cl
    by (simp add: st memcpy_wst_asm_32_def wst_pixel_def weight_def xr_simps vr_simps mem_simps enter_simps
        lsr_of_nat_32 block_bound_32 blocks_def div_mult_mod16)
qed

text \<open>The same from interleaved channels: \<open>j\<close> is the primary channel, and the next two follow it.\<close>

lemma split_wst_32_mem:
  assumes st: "st = al # be # ga # st'" and n: "xr s 2 = of_nat n" "n < 2 ^ 31" and j: "xr s 3 = of_nat j" "j < 3"
    and cl: "clear_of (xr s 1) 16 (xr s 0) 48 (blocks n)"
  shows "\<exists>t. memcpy_split_wst_asm_32 (s, st) = Some t \<and> mem (fst t) = store (blocks n * 16) (xr s 1)
      (\<lambda>i. wst_pixel (ucast al) (ucast be) (ucast ga) (mem s (xr s 0 + of_nat (3 * i + j)))
         (mem s (xr s 0 + of_nat (3 * i + (j + 1) mod 3))) (mem s (xr s 0 + of_nat (3 * i + (j + 2) mod 3)))) (mem s)"
proof -
  let ?init = "\<lambda>st. [ldr_sp 4 16 st, ldr_sp 5 20 st, ldr_sp 6 24 st,
      vdup8 8 4, v1 clz8 8 8, v1 uminus 8 8, vdup8 9 5, v1 clz8 9 9, v1 uminus 9 9, vdup8 10 6, lsr 2 4]"
  let ?body = "\<lambda>s :: arm32. if sint (xr s 3) < 1 then c0_body_32 else if xr s 3 = 1 then c1_body_32 else c2_body_32"
  let ?s1 = "exec32 (?init (map (xr s) [4, 5, 6, 11] @ st)) (fst (enter [4, 5, 6, 11] (s, st)))"
  let ?g = "\<lambda>(c :: nat \<Rightarrow> nat \<Rightarrow> byte) u k. uqsub8 (u 0 (3 * k + j)) (uqadd8 (uqadd8 (ushl8 (u 0 (3 * k + (j + 1) mod 3)) (c 8 k))
      (ushl8 (u 0 (3 * k + (j + 2) mod 3)) (c 9 k))) (c 10 k))"
  have x3: "xr ?s1 3 = of_nat j" using j by (simp add: xr_simps vr_simps mem_simps enter_simps)
  consider "j = 0" | "j = 1" | "j = 2" using j(2) by linarith
  then have bk: "block_kernel (?body ?s1) {0} stride31 1 2 {8, 9, 10} ?g"
    unfolding x3 using s0.block_kernel_axioms s1.block_kernel_axioms s2.block_kernel_axioms by cases simp_all
  have e: "k div 16 * 48 + (3 * (k mod 16) + i) = 3 * k + i" for i k :: nat
    using div_mult_mod_eq [of k 16] by linarith
  have "xr ?s1 2 = of_nat (n div 16)"
    using n(2) by (simp add: n(1) lsr_of_nat_32 xr_simps vr_simps mem_simps enter_simps)
  note km = kernel_mem [of ?body ?s1 "{0}" stride31 1 2 "{8, 9, 10}" ?g ?init s "[4, 5, 6, 11]" st "n div 16",
      OF bk refl this]
  have r: "xr ?s1 1 = xr s 1" "xr ?s1 0 = xr s 0" "mem ?s1 = mem s" "vr ?s1 8 = (\<lambda>i. - clz8 (ucast al))"
    "vr ?s1 9 = (\<lambda>i. - clz8 (ucast be))" "vr ?s1 10 = (\<lambda>i. ucast ga)"
    by (simp_all add: st xr_simps vr_simps mem_simps enter_simps)
  have cl': "\<forall>r \<in> {0}. clear_of (xr ?s1 1) (stride31 1) (xr ?s1 r) (stride31 r) (max 1 (n div 16))"
    using cl unfolding ball_simps r blocks_def by simp
  obtain t where t: "kernel [4, 5, 6, 11] ?init ?body 2 (s, st) = Some t"
    and m: "mem (fst t) = store (max 1 (n div 16) * stride31 1) (xr ?s1 1)
      (\<lambda>k. ?g (vr ?s1) (\<lambda>r i. mem ?s1 (xr ?s1 r + of_nat (k div stride31 1 * stride31 r + i))) (k mod stride31 1)) (mem ?s1)"
    using km [OF _ cl'] block_bound_32 [OF n(2)] by auto
  have "memcpy_split_wst_asm_32 (s, st) = Some t" unfolding memcpy_split_wst_asm_32_def by (rule t)
  moreover have "mem (fst t) = store (blocks n * 16) (xr s 1)
      (\<lambda>i. wst_pixel (ucast al) (ucast be) (ucast ga) (mem s (xr s 0 + of_nat (3 * i + j)))
         (mem s (xr s 0 + of_nat (3 * i + (j + 1) mod 3))) (mem s (xr s 0 + of_nat (3 * i + (j + 2) mod 3)))) (mem s)"
    unfolding m r blocks_def wst_pixel_def weight_def
    by (simp only: e if_True if_False refl one_neq_zero)
  ultimately show ?thesis by blast
qed

subsection \<open>Properties\<close>

text \<open>C32: The functions for 32-bit ARM, on \<open>n\<close> pixels, work on \<open>n div 16\<close> blocks of 16 pixels and on
  one block when there are fewer than 16, unlike their counterparts for AArch64. They end and set every
  pixel of these blocks: the thresholds keep the pixels above the threshold, or set them to 255, and set
  the others to 0; the or and the saturating difference are taken of the two sources. Nothing else is
  written. The difference of the older \<^verbatim>\<open>mem.S\<close> wraps around.\<close>

theorem neon32_pixelwise:
  assumes "n < 2 ^ 31"
    and "xr s 2 = of_nat n" "clear_of (xr s 0) 16 (xr s 1) 16 (blocks n)"
    and "xr u 3 = of_nat n" "\<forall>r \<in> {0, 1}. clear_of (xr u 2) 16 (xr u r) 16 (blocks n)"
  shows "(\<exists>t. memcpy_threshold_asm_32 (s, st) = Some t \<and> mem (fst t) = store (blocks n * 16) (xr s 0)
        (\<lambda>i. let p = mem s (xr s 1 + of_nat i) in if ucast (xr s 3) < p then p else 0) (mem s))
    \<and> (\<exists>t. memcpy_threshold_binary_asm_32 (s, st) = Some t \<and> mem (fst t) = store (blocks n * 16) (xr s 0)
        (\<lambda>i. if ucast (xr s 3) < mem s (xr s 1 + of_nat i) then 255 else 0) (mem s))
    \<and> (\<exists>t. memcpy_bitwise_or_asm_32 (u, st) = Some t \<and> mem (fst t) = store (blocks n * 16) (xr u 2)
        (\<lambda>i. mem u (xr u 0 + of_nat i) OR mem u (xr u 1 + of_nat i)) (mem u))
    \<and> (\<exists>t. memcpy_subtract_asm_32 (u, st) = Some t \<and> mem (fst t) = store (blocks n * 16) (xr u 2)
        (\<lambda>i. uqsub8 (mem u (xr u 0 + of_nat i)) (mem u (xr u 1 + of_nat i))) (mem u))
    \<and> (\<exists>t. vs1_memcpy_subtract_asm (u, st) = Some t \<and> mem (fst t) = store (blocks n * 16) (xr u 2)
        (\<lambda>i. mem u (xr u 0 + of_nat i) - mem u (xr u 1 + of_nat i)) (mem u))"
  using threshold_32_mem [OF assms(2,1,3)] threshold_binary_32_mem [OF assms(2,1,3)]
    two_source_32_mem [OF or32.block_kernel_axioms assms(4,1,5)]
    two_source_32_mem [OF sub32.block_kernel_axioms assms(4,1,5)]
    two_source_32_mem [OF vs1_sub.block_kernel_axioms assms(4,1,5)]
  unfolding memcpy_bitwise_or_asm_32_def memcpy_subtract_asm_32_def vs1_memcpy_subtract_asm_def cmhi8_and Let_def
  by (simp add: cmhi8_def)

definition demo_arm :: "(nat \<Rightarrow> 32 word) \<Rightarrow> arm32" where
  "demo_arm f = \<lparr>xr = f, vr = (\<lambda>q i. 0), mem = (\<lambda>a. if a < 16 then ucast a else 250)\<rparr>"

theorem neon32_pixelwise_witness:
  "\<exists>t. vs1_memcpy_subtract_asm (demo_arm ((\<lambda>r. 0)(1 := 16, 2 := 32, 3 := 5)), []) = Some t
     \<and> mem (fst t) 34 = 8 \<and> mem (fst t) 47 = 21 \<and> mem (fst t) 48 = 250"
proof -
  let ?u = "demo_arm ((\<lambda>r. 0)(1 := 16, 2 := 32, 3 := 5))" and ?s = "demo_arm ((\<lambda>r. 0)(1 := 16, 2 := 5))"
  have "\<exists>t. vs1_memcpy_subtract_asm (?u, []) = Some t \<and> mem (fst t) = store 16 32
      (\<lambda>i. mem ?u (of_nat i) - mem ?u (16 + of_nat i)) (mem ?u)"
    using neon32_pixelwise [of 5 ?s ?u "[]"] by (auto simp: demo_arm_def blocks_def)
  then show ?thesis by (auto simp: store_def demo_arm_def)
qed

text \<open>C33: The weighted subtraction for 32-bit ARM writes its result to the destination, from three separate
  channels or from interleaved ones with the primary channel at offset 0, 1 or 2: the primary pixel
  less the two other channels, each divided by the power of two its weight stands for, and the offset,
  with saturation.\<close>

theorem neon32_weighted_subtraction:
  assumes "n < 2 ^ 31" "\<forall>r \<in> {0, 1, 2}. clear_of (xr s 3) 16 (xr s r) 16 (blocks n)"
    and "xr u 2 = of_nat n" "xr u 3 = of_nat j" "j < 3" "clear_of (xr u 1) 16 (xr u 0) 48 (blocks n)"
  shows "(\<exists>t. memcpy_wst_asm_32 (s, of_nat n # al # be # ga # st) = Some t \<and> mem (fst t) = store (blocks n * 16) (xr s 3)
        (\<lambda>i. wst_pixel (ucast al) (ucast be) (ucast ga) (mem s (xr s 0 + of_nat i)) (mem s (xr s 1 + of_nat i))
           (mem s (xr s 2 + of_nat i))) (mem s))
    \<and> (\<exists>t. memcpy_split_wst_asm_32 (u, al # be # ga # st) = Some t \<and> mem (fst t) = store (blocks n * 16) (xr u 1)
        (\<lambda>i. wst_pixel (ucast al) (ucast be) (ucast ga) (mem u (xr u 0 + of_nat (3 * i + j)))
           (mem u (xr u 0 + of_nat (3 * i + (j + 1) mod 3))) (mem u (xr u 0 + of_nat (3 * i + (j + 2) mod 3)))) (mem u))"
  using wst_32_mem [OF refl assms(1,2)] split_wst_32_mem [OF refl assms(3,1,4,5,6)] by blast

theorem neon32_weighted_subtraction_witness:
  "\<exists>t. memcpy_split_wst_asm_32 (demo_arm ((\<lambda>r. 0)(1 := 100, 2 := 16, 3 := 2)), [64, 32, 1]) = Some t
     \<and> mem (fst t) 101 = 2 \<and> mem (fst t) 116 = 250"
proof -
  let ?u = "demo_arm ((\<lambda>r. 0)(1 := 100, 2 := 16, 3 := 2))"
  have c: "clear_of (100 :: 32 word) 16 0 48 1" by simp
  obtain t where t: "memcpy_split_wst_asm_32 (?u, [64, 32, 1]) = Some t"
    "mem (fst t) = store 16 100 (\<lambda>i. wst_pixel 64 32 1 (mem ?u (of_nat (3 * i + 2)))
           (mem ?u (of_nat (3 * i))) (mem ?u (of_nat (3 * i + 1)))) (mem ?u)"
    using neon32_weighted_subtraction [of 16 ?u ?u 2 64 32 1 "[]"] c by (auto simp: demo_arm_def blocks_def)
  have "mem (fst t) 101 = wst_pixel 64 32 1 5 3 4" unfolding t(2) by (simp add: store_def demo_arm_def)
  also have "\<dots> = 2" by code_simp
  finally have "mem (fst t) 101 = 2" .
  moreover have "mem (fst t) 116 = 250" unfolding t(2) by (simp add: store_def demo_arm_def)
  ultimately show ?thesis using t(1) by blast
qed


subsection \<open>The calling convention\<close>

lemma fold_set_x_xr:
  "distinct regs \<Longrightarrow> xr (fold (\<lambda>(r, w). set_x r w) (zip regs (map f regs @ st)) s) r = (if r \<in> set regs then f r else xr s r)"
  by (induction regs arbitrary: s) auto

lemma lsr_count: "\<exists>c < 2 ^ 31. drop_bit 4 (w :: 32 word) = of_nat c"
proof -
  have "drop_bit 4 (of_nat (unat w) :: 32 word) = of_nat (unat w div 16)"
  proof -
    have "unat (drop_bit 4 w) = unat w div 16" by (simp add: drop_bit_eq_div unat_div_distrib)
    moreover have "unat w div 16 < 2 ^ 32" using unat_lt2p [of w] by simp
    ultimately show ?thesis using unat_of_nat_fit [of "unat w div 16", where 'l = 32] by (simp add: word_unat_eq_iff)
  qed
  moreover have "unat w div 16 < 2 ^ 31" using unat_lt2p [of w] by simp
  ultimately show ?thesis by (intro exI [of _ "unat w div 16"]) simp
qed

definition saved :: "nat list \<Rightarrow> arm32 \<Rightarrow> arm32 \<Rightarrow> bool" where
  "saved regs s t \<longleftrightarrow> (\<forall>r \<in> insert 11 ({4..10} - set regs). xr t r = xr s r) \<and> (\<forall>q \<in> {4..7}. vr t q = vr s q)"

lemma saved_trans: "saved regs s t \<Longrightarrow> saved regs t u \<Longrightarrow> saved regs s u"
  by (simp add: saved_def)

lemma saved_funpow: "(\<And>s. saved regs s (f s)) \<Longrightarrow> saved regs s ((f ^^ m) s)"
proof (induction m)
  case (Suc m)
  then show ?case using saved_trans [of regs s "(f ^^ m) s"] by simp
qed (simp add: saved_def)

text \<open>A function restores what it saved, if its loop keeps the other registers.\<close>

lemma kernel_saved:
  assumes s1: "s1 = exec32 (init (map (xr s) regs @ st)) (fst (enter regs (s, st)))"
    and c: "\<exists>w. xr s1 n = drop_bit 4 w" "\<And>s. xr (body s1 s) n = xr s n"
    and sv: "saved regs (fst (enter regs (s, st))) s1" "\<And>s. saved regs s (body s1 s)" "n \<notin> insert 11 ({4..10} - set regs)"
    and regs: "distinct regs" "11 \<in> set regs" "13 \<notin> set regs"
  shows "\<exists>t. kernel regs init body n (s, st) = Some (t, st) \<and> (\<forall>r \<in> insert 13 {4..11}. xr t r = xr s r)
    \<and> (\<forall>q \<in> {4..7}. vr t q = vr s q)"
proof -
  let ?step = "sub_x n 1 \<circ> body s1"
  obtain k where k: "xr s1 n = of_nat k" "k < 2 ^ 31" using c(1) lsr_count by metis
  let ?t = "(?step ^^ max 1 k) s1"
  have "saved regs s (?step s)" for s using sv(2) [of s] sv(3) by (auto simp: saved_def sub_x_def)
  then have "saved regs s1 ?t" by (rule saved_funpow)
  then have t: "saved regs (fst (enter regs (s, st))) ?t" using sv(1) saved_trans by blast
  have "kernel regs init body n (s, st) = Some (leave regs (?t, map (xr s) regs @ st))"
    using bgt_loop_eq [OF c(2) k] by (simp add: kernel_def split_beta Let_def enter_simps flip: s1)
  moreover have "snd (leave regs (?t, map (xr s) regs @ st)) = st" by (simp add: leave_def Let_def)
  moreover have "xr (fst (leave regs (?t, map (xr s) regs @ st))) r = xr s r" if "r \<in> insert 13 {4..11}" for r
  proof -
    have "r \<in> set regs \<or> r = 13 \<or> r \<in> {4..10} - set regs" using that regs(2) by (cases "r = 11") auto
    then show ?thesis using t regs by (auto simp: leave_def Let_def fold_set_x_xr saved_def enter_def)
  qed
  moreover have "vr (fst (leave regs (?t, map (xr s) regs @ st))) q = vr s q" if "q \<in> {4..7}" for q
    using that t by (simp add: leave_simps saved_def enter_simps)
  ultimately show ?thesis by (metis prod.collapse)
qed


lemmas saved_simps = saved_def body32_simps enter_simps

lemma threshold_saved:
  "\<exists>t. memcpy_threshold_asm_32 (s, st) = Some (t, st) \<and> (\<forall>r \<in> insert 13 {4..11}. xr t r = xr s r) \<and> (\<forall>q \<in> {4..7}. vr t q = vr s q)"
  "\<exists>t. memcpy_threshold_binary_asm_32 (s, st) = Some (t, st) \<and> (\<forall>r \<in> insert 13 {4..11}. xr t r = xr s r) \<and> (\<forall>q \<in> {4..7}. vr t q = vr s q)"
  unfolding memcpy_threshold_asm_32_def memcpy_threshold_binary_asm_32_def
  by (rule kernel_saved [OF refl]; force simp: saved_simps thresh_body_32_def thresh_bin_body_32_def)+

lemma two_source_saved:
  "\<exists>t. memcpy_bitwise_or_asm_32 (s, st) = Some (t, st) \<and> (\<forall>r \<in> insert 13 {4..11}. xr t r = xr s r) \<and> (\<forall>q \<in> {4..7}. vr t q = vr s q)"
  "\<exists>t. memcpy_subtract_asm_32 (s, st) = Some (t, st) \<and> (\<forall>r \<in> insert 13 {4..11}. xr t r = xr s r) \<and> (\<forall>q \<in> {4..7}. vr t q = vr s q)"
  "\<exists>t. vs1_memcpy_subtract_asm (s, st) = Some (t, st) \<and> (\<forall>r \<in> insert 13 {4..11}. xr t r = xr s r) \<and> (\<forall>q \<in> {4..7}. vr t q = vr s q)"
  unfolding memcpy_bitwise_or_asm_32_def memcpy_subtract_asm_32_def vs1_memcpy_subtract_asm_def
  by (rule kernel_saved [OF refl]; force simp: saved_simps or_body_32_def subtract_body_32_def vs1_subtract_body_def)+

lemma weighted_saved:
  "\<exists>t. memcpy_compare3_add_asm_32 (s, st) = Some (t, st) \<and> (\<forall>r \<in> insert 13 {4..11}. xr t r = xr s r) \<and> (\<forall>q \<in> {4..7}. vr t q = vr s q)"
  "\<exists>t. memcpy_wst_asm_32 (s, st) = Some (t, st) \<and> (\<forall>r \<in> insert 13 {4..11}. xr t r = xr s r) \<and> (\<forall>q \<in> {4..7}. vr t q = vr s q)"
  unfolding memcpy_compare3_add_asm_32_def memcpy_wst_asm_32_def
  by (rule kernel_saved [OF refl]; force simp: saved_simps cmp3_add_body_32_def wst_body_32_def)+

lemma split_saved:
  "\<exists>t. memcpy_split_wst_asm_32 (s, st) = Some (t, st) \<and> (\<forall>r \<in> insert 13 {4..11}. xr t r = xr s r) \<and> (\<forall>q \<in> {4..7}. vr t q = vr s q)"
  unfolding memcpy_split_wst_asm_32_def
  by (rule kernel_saved [OF refl]; force simp: saved_simps c0_body_32_def c1_body_32_def c2_body_32_def)




end
