(* ===== verification/Legacy_Threshold.thy ===== *)
theory Legacy_Threshold
  imports Legacy_Server Geometry Neon32_Props
begin

unbundle bit_operations_syntax

text \<open>
  The pipeline base class of the first version of the framework (\<^verbatim>\<open>vs1-legacy/visionserver.h\<close> and
  \<^verbatim>\<open>visionserver.cpp\<close>, class \<^verbatim>\<open>vs1::VPipeline\<close>) and its thresholding component
  (\<^verbatim>\<open>weightedsubtraction.h\<close> and \<^verbatim>\<open>weightedsubtraction.inc\<close>, class \<^verbatim>\<open>vs1::WeightedSubtraction\<close>). An image
  is its size and its pixels in row order; what OpenCV computes is an argument, a record \<open>cv_lib\<close> of
  functions. The threshold itself is the assembly function of \<^verbatim>\<open>mem.S\<close>, run on the bytes of the image.
\<close>

subsection \<open>Pipelines\<close>

record vs1_pipeline =
  pname :: string
  ptable :: path

definition vs1_VPipeline :: "string \<Rightarrow> vs1_pipeline" where
  "vs1_VPipeline n = \<lparr>pname = n, ptable = vs1_root @ [''Pipelines'', n]\<rparr>"

definition vs1_VPipeline_unnamed :: vs1_pipeline where
  "vs1_VPipeline_unnamed = vs1_VPipeline ''Unnamed Pipeline''"

text \<open>The move constructor takes the table and not the name.\<close>

definition vs1_VPipeline_move :: "vs1_pipeline \<Rightarrow> vs1_pipeline" where
  "vs1_VPipeline_move p = \<lparr>pname = '''', ptable = ptable p\<rparr>"

definition vs1_DefaultPipeline :: vs1_pipeline where
  "vs1_DefaultPipeline = vs1_VPipeline ''Default Pipeline''"

text \<open>\<^verbatim>\<open>updateTarget\<close> passes the name on to the server, at the time \<open>now\<close>.\<close>

definition updateTarget :: "string \<Rightarrow> int \<Rightarrow> vs1_server \<Rightarrow> vs1_server" where
  "updateTarget target now s =
     (let (ti, cs) = setTarget target now (active_target s) in vs1_emit cs (s\<lparr>active_target := ti\<rparr>))"

definition getCurrentResolution :: "vs1_server \<Rightarrow> Size res" where
  "getCurrentResolution s = (case s_selected s of None \<Rightarrow> Inr \<lparr>sw = 0, sh = 0\<rparr>
     | Some i \<Rightarrow> rbind (vec_idx (s_cameras s) i) (\<lambda>c.
         Inr \<lparr>sw = fst (vs1_getResolution c), sh = snd (vs1_getResolution c)\<rparr>))"

text \<open>\<^verbatim>\<open>pipeExpansion\<close>: the pipelines of a worker are constructed one after the other, each given by its
  constructor, which reads the server and may fail.\<close>

fun pipeExpansion :: "(vs1_server \<Rightarrow> ('p \<times> log) res) list \<Rightarrow> 'p list \<Rightarrow> vs1_server \<Rightarrow> ('p list \<times> vs1_server) res" where
  "pipeExpansion [] pipes s = Inr (pipes, s)"
| "pipeExpansion (new # news) pipes s = rbind (new s) (\<lambda>(p, cs). pipeExpansion news (pipes @ [p]) (vs1_emit cs s))"

lemma pipeExpansion_appends:
  "pipeExpansion news pipes s = Inr (ps, s') \<Longrightarrow> (\<exists>qs. ps = pipes @ qs \<and> length qs = length news) \<and> (\<exists>cs. s' = vs1_emit cs s)"
proof (induction news pipes s rule: pipeExpansion.induct)
  case (1 pipes s)
  then show ?case by (auto simp: vs1_emit_def intro!: exI [of _ "[]"])
next
  case (2 new news pipes s)
  then obtain p cs where p: "new s = Inr (p, cs)" "pipeExpansion news (pipes @ [p]) (vs1_emit cs s) = Inr (ps, s')"
    by (cases "new s") auto
  then obtain qs ds where "ps = (pipes @ [p]) @ qs" "length qs = length news" "s' = vs1_emit ds (vs1_emit cs s)"
    using 2(1) [OF p(1) refl p(2)] by blast
  then show ?case by (auto simp: vs1_emit_def intro!: exI [of _ "p # qs"] exI [of _ "cs @ ds"])
qed

subsection \<open>Images\<close>

datatype LED = BLUE | GREEN | RED

primrec LED_code :: "LED \<Rightarrow> nat" where
  "LED_code BLUE = 0" | "LED_code GREEN = 1" | "LED_code RED = 2"

record 'p img =
  isz :: Size
  pix :: "'p list"

type_synonym bgr = "byte \<times> byte \<times> byte"

definition chan :: "nat \<Rightarrow> bgr \<Rightarrow> byte" where
  "chan k p = [fst p, fst (snd p), snd (snd p)] ! k"

definition img_split :: "bgr img \<Rightarrow> byte img list" where
  "img_split m = map (\<lambda>k. \<lparr>isz = isz m, pix = map (chan k) (pix m)\<rparr>) [0, 1, 2]"

text \<open>The functions of OpenCV: the contents of a new image of a size; \<^verbatim>\<open>resize\<close> by a factor, and with
  nearest neighbours; \<^verbatim>\<open>addWeighted\<close> and \<^verbatim>\<open>subtract\<close>; the conversion from gray.\<close>

record cv_lib =
  fresh :: "Size \<Rightarrow> byte list"
  fresh3 :: "Size \<Rightarrow> bgr list"
  resize :: "bgr img \<Rightarrow> dbl \<Rightarrow> bgr img res"
  resize_nearest :: "bgr img \<Rightarrow> dbl \<Rightarrow> bgr img res"
  addWeighted :: "byte img \<Rightarrow> rat \<Rightarrow> byte img \<Rightarrow> rat \<Rightarrow> rat \<Rightarrow> byte img"
  subtract :: "byte img \<Rightarrow> byte img \<Rightarrow> byte img"
  gray2bgr :: "byte img \<Rightarrow> bgr img"

subsection \<open>Weighted subtraction\<close>

record wsub =
  buffer :: "bgr img"
  binary :: "byte img"
  wchannels :: "byte img list"
  alpha :: rat
  beta :: rat
  gamma :: rat
  thresh :: byte
  scale :: nat

definition weighted_array :: "nat list list" where
  "weighted_array = [[LED_code GREEN, LED_code RED], [LED_code BLUE, LED_code RED], [LED_code BLUE, LED_code GREEN]]"

text \<open>The division of a size by a \<^verbatim>\<open>size_t\<close> is unsigned.\<close>

definition size_quot :: "Size \<Rightarrow> nat \<Rightarrow> Size res" where
  "size_quot s k = (if k = 0 then Inl UB else Inr \<lparr>sw = div_size (sw s) k, sh = div_size (sh s) k\<rparr>)"

definition size_times :: "Size \<Rightarrow> int \<Rightarrow> Size res" where
  "size_times s k = rbind (chk (sw s * k)) (\<lambda>w. rbind (chk (sh s * k)) (\<lambda>h. Inr \<lparr>sw = w, sh = h\<rparr>))"

definition resizeBuffers :: "cv_lib \<Rightarrow> Size \<Rightarrow> wsub \<Rightarrow> wsub res" where
  "resizeBuffers cv sz st = rbind (size_quot sz (scale st)) (\<lambda>q.
     Inr (st\<lparr>buffer := \<lparr>isz = q, pix = fresh3 cv q\<rparr>, binary := \<lparr>isz = q, pix = fresh cv q\<rparr>,
             wchannels := replicate 3 \<lparr>isz = q, pix = fresh cv q\<rparr>\<rparr>))"

definition empty_img :: "'p img" where
  "empty_img = \<lparr>isz = \<lparr>sw = 0, sh = 0\<rparr>, pix = []\<rparr>"

definition wsub0 :: wsub where
  "wsub0 = \<lparr>buffer = empty_img, binary = empty_img, wchannels = replicate 3 empty_img,
     alpha = 1/2, beta = 1/2, gamma = 0, thresh = 50, scale = 1\<rparr>"

text \<open>\<^verbatim>\<open>addNetTableVar\<close> for numbers, and the listeners it installs here.\<close>

definition addNetTableVar_num :: "(string \<Rightarrow> bool) \<Rightarrow> rat \<Rightarrow> string \<Rightarrow> path \<Rightarrow> log" where
  "addNetTableVar_num has var name table =
     (if has name then [] else [NtPut table name (NtDouble (Fin var))]) @ [NtAddEntryListener table name]"

definition thresh_listener :: "nt_val \<Rightarrow> wsub \<Rightarrow> wsub" where
  "thresh_listener v st = (case v of NtDouble d \<Rightarrow> st\<lparr>thresh := of_int (fcvtzu64 d)\<rparr> | _ \<Rightarrow> st)"

definition scale_listener :: "nt_val \<Rightarrow> wsub \<Rightarrow> wsub" where
  "scale_listener v st = (case v of NtDouble d \<Rightarrow> st\<lparr>scale := nat (fcvtzu64 d)\<rparr> | _ \<Rightarrow> st)"

definition WeightedSubtraction_table :: "cv_lib \<Rightarrow> (string \<Rightarrow> bool) \<Rightarrow> vs1_server \<Rightarrow> path \<Rightarrow> (wsub \<times> log) res" where
  "WeightedSubtraction_table cv has s table =
     (let cs = addNetTableVar_num has (of_nat (unat (thresh wsub0))) ''Threshold'' table
             @ addNetTableVar_num has (of_nat (scale wsub0)) ''Scaling'' table in
      rbind (getCurrentResolution s) (\<lambda>r. rbind (resizeBuffers cv r wsub0) (\<lambda>st. Inr (st, cs))))"

definition WeightedSubtraction :: "cv_lib \<Rightarrow> vs1_server \<Rightarrow> wsub res" where
  "WeightedSubtraction cv s = rbind (getCurrentResolution s) (\<lambda>r. resizeBuffers cv r wsub0)"

text \<open>A call of an assembly function that works in place on the bytes of an image: the data are at
  address 0 of a memory of their own, source and destination, with the count and the threshold.\<close>

definition run_in_place :: "(arm32 \<times> Neon32.frame \<Rightarrow> (arm32 \<times> Neon32.frame) option) \<Rightarrow> byte \<Rightarrow> byte list \<Rightarrow> byte list option" where
  "run_in_place f t bs = map_option (\<lambda>(s, _). map (\<lambda>i. mem s (of_nat i)) [0..<length bs])
     (f (\<lparr>xr = (\<lambda>_. 0)(2 := of_nat (length bs), 3 := ucast t), vr = (\<lambda>_ _. 0),
          mem = (\<lambda>a. if unat a < length bs then bs ! unat a else 0)\<rparr>, []))"

text \<open>The assembly function always returns, so the result is that of its run.\<close>

definition ws_threshold :: "cv_lib \<Rightarrow> LED \<Rightarrow> bgr img \<Rightarrow> wsub \<Rightarrow> (byte img \<times> wsub) option res" where
  "ws_threshold cv color frame st =
     rbind (size_times (isz (buffer st)) (c_int (scale st))) (\<lambda>bs.
     rbind (if isz frame \<noteq> bs then resizeBuffers cv (isz frame) st else Inr st) (\<lambda>st.
     rbind (resize cv frame (dbl_div (Fin 1) (Fin (of_nat (scale st))))) (\<lambda>b.
     let st = st\<lparr>buffer := b, wchannels := img_split b\<rparr>;
         ch = wchannels st; ws = weighted_array ! LED_code color;
         st = st\<lparr>binary := addWeighted cv (ch ! (ws ! 0)) (alpha st) (ch ! (ws ! 1)) (beta st) (gamma st)\<rparr>;
         st = st\<lparr>binary := subtract cv (ch ! LED_code color) (binary st)\<rparr>
     in Inr (map_option (\<lambda>bs. let st = st\<lparr>binary := (binary st)\<lparr>pix := bs\<rparr>\<rparr> in (binary st, st))
          (run_in_place vs1_memcpy_threshold_binary_asm (thresh st) (pix (binary st)))))))"

definition ws_fromBinary :: "cv_lib \<Rightarrow> wsub \<Rightarrow> (bgr img \<times> wsub) res" where
  "ws_fromBinary cv st =
     (let st = st\<lparr>buffer := gray2bgr cv (binary st)\<rparr> in
      rbind (resize_nearest cv (buffer st) (Fin (of_nat (scale st)))) (\<lambda>o_frame. Inr (o_frame, st)))"

definition getScale :: "wsub \<Rightarrow> nat" where "getScale st = scale st"
definition getThresh :: "wsub \<Rightarrow> byte" where "getThresh st = thresh st"
definition setThresh :: "byte \<Rightarrow> wsub \<Rightarrow> wsub" where "setThresh t st = st\<lparr>thresh := t\<rparr>"

subsection \<open>The run in place\<close>

lemma vs1_binary_eq: "vs1_memcpy_threshold_binary_asm = memcpy_threshold_binary_asm_32"
  by (simp add: vs1_memcpy_threshold_binary_asm_def memcpy_threshold_binary_asm_32_def)

lemma run_binary_in_place:
  assumes n: "length bs < 2 ^ 31"
  shows "run_in_place vs1_memcpy_threshold_binary_asm t bs =
    Some (map (\<lambda>i. if i < blocks (length bs) * 16 then (if t < bs ! i then 255 else 0) else bs ! i) [0..<length bs])"
proof -
  let ?n = "length bs"
  let ?s = "\<lparr>xr = (\<lambda>_. 0)(2 := of_nat ?n, 3 := ucast t), vr = (\<lambda>_ _. 0),
    mem = (\<lambda>a. if unat a < ?n then bs ! unat a else 0)\<rparr> :: arm32"
  have c: "clear_of (xr ?s 0) 16 (xr ?s 1) 16 (blocks ?n)"
    using clear_of_same [of "blocks ?n" 16, where 'l = 32] block_bound_32 [OF n] by (simp add: blocks_def)
  obtain u where u: "memcpy_threshold_binary_asm_32 (?s, []) = Some u"
    "mem (fst u) = store (blocks ?n * 16) 0 (\<lambda>i. cmhi8 (mem ?s (of_nat i)) (ucast (ucast t :: 32 word))) (mem ?s)"
    using threshold_binary_32_mem [OF _ n c, of "[]"] by auto
  have i: "unat (of_nat i :: 32 word) = i" if "i < ?n" for i using that n by (intro unat_of_nat_fit) simp
  have t: "ucast (ucast t :: 32 word) = t" by (rule bit_word_eqI) (simp add: bit_simps)
  have "mem (fst u) (of_nat i) = (if i < blocks ?n * 16 then (if t < bs ! i then 255 else 0) else bs ! i)" if "i < ?n" for i
    using that i [OF that] unfolding u(2) by (simp add: store_def cmhi8_def t)
  then show ?thesis using u(1) by (simp add: run_in_place_def vs1_binary_eq split_beta)
qed


lemma run_threshold_in_place:
  assumes n: "length bs < 2 ^ 31"
  shows "run_in_place vs1_memcpy_threshold_asm t bs =
    Some (map (\<lambda>i. if i < blocks (length bs) * 16 then (if t < bs ! i then bs ! i else 0) else bs ! i) [0..<length bs])"
proof -
  let ?n = "length bs"
  let ?s = "\<lparr>xr = (\<lambda>_. 0)(2 := of_nat ?n, 3 := ucast t), vr = (\<lambda>_ _. 0),
    mem = (\<lambda>a. if unat a < ?n then bs ! unat a else 0)\<rparr> :: arm32"
  have c: "clear_of (xr ?s 0) 16 (xr ?s 1) 16 (blocks ?n)"
    using clear_of_same [of "blocks ?n" 16, where 'l = 32] block_bound_32 [OF n] by (simp add: blocks_def)
  obtain u where u: "memcpy_threshold_asm_32 (?s, []) = Some u"
    "mem (fst u) = store (blocks ?n * 16) 0 (\<lambda>i. cmhi8 (mem ?s (of_nat i)) (ucast (ucast t :: 32 word)) AND mem ?s (of_nat i)) (mem ?s)"
    using threshold_32_mem [OF _ n c, of "[]"] by auto
  have i: "unat (of_nat i :: 32 word) = i" if "i < ?n" for i using that n by (intro unat_of_nat_fit) simp
  have t: "ucast (ucast t :: 32 word) = t" by (rule bit_word_eqI) (simp add: bit_simps)
  have "mem (fst u) (of_nat i) = (if i < blocks ?n * 16 then (if t < bs ! i then bs ! i else 0) else bs ! i)" if "i < ?n" for i
    using that i [OF that] unfolding u(2) by (simp add: store_def cmhi8_and t)
  then show ?thesis using u(1) by (simp add: run_in_place_def vs1_memcpy_threshold_asm_def memcpy_threshold_asm_32_def split_beta)
qed

subsection \<open>Properties\<close>

text \<open>The documented behaviour of the two operations of OpenCV: a weighted sum, rounded by \<open>rnd\<close> and
  saturated, and a saturating difference.\<close>

definition wsum :: "(rat \<Rightarrow> int) \<Rightarrow> rat \<Rightarrow> rat \<Rightarrow> rat \<Rightarrow> byte \<Rightarrow> byte \<Rightarrow> byte" where
  "wsum rnd x y g p q = of_int (sat 0 255 (rnd (of_nat (unat p) * x + of_nat (unat q) * y + g)))"

definition cv_arith :: "(rat \<Rightarrow> int) \<Rightarrow> cv_lib \<Rightarrow> bool" where
  "cv_arith rnd cv \<longleftrightarrow> (\<forall>a x b y g. pix (addWeighted cv a x b y g) = map2 (wsum rnd x y g) (pix a) (pix b))
     \<and> (\<forall>a b. pix (subtract cv a b) = map2 uqsub8 (pix a) (pix b))"

lemma resizeBuffers_ok: "0 < scale st \<Longrightarrow> \<exists>st'. resizeBuffers cv sz st = Inr st' \<and> alpha st' = alpha st
    \<and> beta st' = beta st \<and> gamma st' = gamma st \<and> thresh st' = thresh st \<and> scale st' = scale st"
  by (simp add: resizeBuffers_def size_quot_def)

lemma maybe_resize_ok: "0 < scale st \<Longrightarrow> \<exists>st'. (if c then resizeBuffers cv sz st else Inr st) = Inr st' \<and> alpha st' = alpha st
    \<and> beta st' = beta st \<and> gamma st' = gamma st \<and> thresh st' = thresh st \<and> scale st' = scale st"
  using resizeBuffers_ok [of st cv sz] by simp

definition ws_value :: "(rat \<Rightarrow> int) \<Rightarrow> LED \<Rightarrow> wsub \<Rightarrow> bgr \<Rightarrow> byte" where
  "ws_value rnd color st p = (let ws = weighted_array ! LED_code color in
     uqsub8 (chan (LED_code color) p) (wsum rnd (alpha st) (beta st) (gamma st) (chan (ws ! 0) p) (chan (ws ! 1) p)))"

lemma LED_less: "LED_code c < 3" "weighted_array ! LED_code c ! 0 < 3" "weighted_array ! LED_code c ! 1 < 3"
  by (cases c; simp add: weighted_array_def numeral_2_eq_2)+

lemma img_split_nth: "k < 3 \<Longrightarrow> pix (img_split b ! k) = map (chan k) (pix b)"
  by (cases "k = 0"; cases "k = 1") (auto simp: img_split_def numeral_3_eq_3 less_Suc_eq numeral_2_eq_2)

text \<open>The result of thresholding, as a function of the scaled frame \<open>b\<close>.\<close>

definition ws_bits :: "(rat \<Rightarrow> int) \<Rightarrow> LED \<Rightarrow> wsub \<Rightarrow> bgr list \<Rightarrow> byte list" where
  "ws_bits rnd color st ps = map (\<lambda>(i, p). let v = ws_value rnd color st p in
     if i < blocks (length ps) * 16 then (if thresh st < v then 255 else 0) else v) (enumerate 0 ps)"

lemma ws_threshold_run:
  assumes "cv_arith rnd cv" "0 < scale st" "size_times (isz (buffer st)) (c_int (scale st)) = Inr z"
    and b: "resize cv frame (dbl_div (Fin 1) (Fin (of_nat (scale st)))) = Inr b" "length (pix b) < 2 ^ 31"
  shows "\<exists>out st'. ws_threshold cv color frame st = Inr (Some (out, st')) \<and> binary st' = out \<and> scale st' = scale st
    \<and> pix out = ws_bits rnd color st (pix b)"
proof -
  obtain s1 where s1: "(if isz frame \<noteq> z then resizeBuffers cv (isz frame) st else Inr st) = Inr s1" "alpha s1 = alpha st"
    "beta s1 = beta st" "gamma s1 = gamma st" "thresh s1 = thresh st" "scale s1 = scale st"
    using maybe_resize_ok [OF assms(2), of "isz frame \<noteq> z"] by blast
  let ?ws = "weighted_array ! LED_code color" and ?ch = "img_split b"
  define D where "D = subtract cv (?ch ! LED_code color)
    (addWeighted cv (?ch ! (?ws ! 0)) (alpha st) (?ch ! (?ws ! 1)) (beta st) (gamma st))"
  have d: "pix D = map (ws_value rnd color st) (pix b)"
    using assms(1) LED_less [of color] unfolding D_def
    by (auto simp: cv_arith_def img_split_nth ws_value_def Let_def map2_map_map zip_map1 zip_map2 zip_same_conv_map)
  then have l: "length (pix D) = length (pix b)" by simp
  let ?bs = "map (\<lambda>i. if i < blocks (length (pix b)) * 16 then (if thresh st < pix D ! i then 255 else 0) else pix D ! i) [0..<length (pix b)]"
  have "run_in_place vs1_memcpy_threshold_binary_asm (thresh st) (pix D) = Some ?bs"
    using run_binary_in_place [of "pix D" "thresh st"] b(2) unfolding l by blast
  moreover have "?bs = ws_bits rnd color st (pix b)"
    by (rule nth_equalityI) (simp_all add: ws_bits_def d nth_enumerate_eq Let_def)
  ultimately have "ws_threshold cv color frame st = Inr (Some (D\<lparr>pix := ws_bits rnd color st (pix b)\<rparr>,
      s1\<lparr>buffer := b, wchannels := ?ch, binary := D\<lparr>pix := ws_bits rnd color st (pix b)\<rparr>\<rparr>))"
    unfolding ws_threshold_def assms(3) rbind_simps s1 b(1) Let_def
    by (simp add: s1 flip: D_def del: One_nat_def)
  then show ?thesis using s1 by simp
qed


definition demo_cv :: cv_lib where
  "demo_cv = \<lparr>fresh = (\<lambda>_. []), fresh3 = (\<lambda>_. []), resize = (\<lambda>m _. Inr m), resize_nearest = (\<lambda>m _. Inr m),
     addWeighted = (\<lambda>a x b y g. \<lparr>isz = isz a, pix = map2 (wsum floor x y g) (pix a) (pix b)\<rparr>),
     subtract = (\<lambda>a b. \<lparr>isz = isz a, pix = map2 uqsub8 (pix a) (pix b)\<rparr>),
     gray2bgr = (\<lambda>m. \<lparr>isz = isz m, pix = map (\<lambda>p. (p, p, p)) (pix m)\<rparr>)\<rparr>"

lemma demo_cv_arith: "cv_arith floor demo_cv"
  by (simp add: cv_arith_def demo_cv_def)


text \<open>A "Scaling" below 1 that arrives over the network is stored as the scale 0, and the next frame that
  is not empty divides its size by 0.\<close>

theorem scaling_below_one_divides_by_zero:
  assumes "0 \<le> r" "r < 1" "sw (isz frame) \<noteq> 0 \<or> sh (isz frame) \<noteq> 0"
  shows "ws_threshold cv color frame (scale_listener (NtDouble (Fin r)) st) = Inl UB"
proof -
  have "\<lfloor>r\<rfloor> = 0" using assms by (simp add: floor_unique)
  then have "scale (scale_listener (NtDouble (Fin r)) st) = 0"
    using assms(1) by (simp add: scale_listener_def sat_def rat_trunc_def)
  moreover have "isz frame \<noteq> \<lparr>sw = 0, sh = 0\<rparr>" using assms(3) by auto
  ultimately show ?thesis by (simp add: ws_threshold_def size_times_def chk_def resizeBuffers_def size_quot_def)
qed

theorem scaling_below_one_divides_by_zero_witness:
  "ws_threshold demo_cv RED \<lparr>isz = \<lparr>sw = 640, sh = 480\<rparr>, pix = []\<rparr> (scale_listener (NtDouble (Fin (1/2))) wsub0) = Inl UB"
  using scaling_below_one_divides_by_zero [of "1/2" "\<lparr>isz = \<lparr>sw = 640, sh = 480\<rparr>, pix = []\<rparr>"] by simp

end
