(* ===== verification/Legacy_Target.thy ===== *)
theory Legacy_Target
  imports Legacy_Threshold Legacy_Processing
begin

text \<open>
  The targets and the target solver of the first version of the framework (\<^verbatim>\<open>vs1-legacy/target.h\<close> and
  \<^verbatim>\<open>target.inc\<close>, classes \<^verbatim>\<open>vs1::Target\<close> and \<^verbatim>\<open>vs1::TargetSolver\<close>), and the pipelines of
  \<^verbatim>\<open>vs1-legacy/2021\<close>. Points are exact rationals; the numbers a target publishes are reals, with \<open>None\<close>
  for a NaN. What OpenCV finds in an image is an argument, a record \<open>cv_shape\<close> of functions; what a
  pipeline draws is a list of marks in the order of the calls.
\<close>

record Point2f =
  fx :: rat
  fy :: rat

type_synonym vec3 = "rat \<times> rat \<times> rat"

definition Point2f0 :: Point2f where "Point2f0 = \<lparr>fx = 0, fy = 0\<rparr>"

definition to_f :: "Point \<Rightarrow> Point2f" where
  "to_f p = \<lparr>fx = of_int (px p), fy = of_int (py p)\<rparr>"

text \<open>\<^verbatim>\<open>findCenter<float, int>\<close> of points: the sums and the division are those of \<^verbatim>\<open>float\<close>.\<close>

definition findCenter_f :: "Point list \<Rightarrow> Point2f" where
  "findCenter_f ps = (if length ps > 0
     then \<lparr>fx = sum_list (map (\<lambda>p. of_int (px p)) ps) / of_nat (length ps),
           fy = sum_list (map (\<lambda>p. of_int (py p)) ps) / of_nat (length ps)\<rparr>
     else Point2f0)"

subsection \<open>Targets\<close>

record vs1_target =
  t_points :: "Point2f list"
  t_world :: "vec3 list"
  t_center :: Point2f
  t_name :: string
  t_table :: path

definition vs1_targets :: path where "vs1_targets = [''Targets'']"

definition vs1_Target_named :: "vec3 list \<Rightarrow> string \<Rightarrow> vs1_target" where
  "vs1_Target_named w n = \<lparr>t_points = replicate (length w) Point2f0, t_world = w, t_center = Point2f0,
     t_name = n, t_table = vs1_targets @ [n]\<rparr>"

definition vs1_Target :: "vec3 list \<Rightarrow> vs1_target" where
  "vs1_Target w = vs1_Target_named w (''Unnamed '' @ to_string (length w) @ ''-pt target'')"

definition compatible :: "vs1_target \<Rightarrow> Point list \<Rightarrow> bool" where
  "compatible t contour \<longleftrightarrow> length contour = length (t_world t)"

text \<open>Sorting copies at most as many points as the target has and orders all of them, those of an earlier
  frame too; \<open>ang\<close> is \<^verbatim>\<open>atan2\<close>.\<close>

definition target_sort :: "(rat \<Rightarrow> rat \<Rightarrow> real) \<Rightarrow> Point list \<Rightarrow> vs1_target \<Rightarrow> vs1_target" where
  "target_sort ang contour t =
     (let c = findCenter_f contour; limit = (if length contour < length (t_world t) then length contour else length (t_world t));
          ps = map to_f (take limit contour) @ drop limit (t_points t)
      in t\<lparr>t_center := c, t_points := sort_key (\<lambda>p. - ang (fx p - fx c) (fy p - fy c)) ps\<rparr>)"

definition target_rescale :: "rat \<Rightarrow> vs1_target \<Rightarrow> vs1_target" where
  "target_rescale k t = t\<lparr>t_points := map (\<lambda>p. \<lparr>fx = fx p * k, fy = fy p * k\<rparr>) (t_points t)\<rparr>"

definition getRescaled :: "rat \<Rightarrow> vs1_target \<Rightarrow> Point2f list" where
  "getRescaled k t = map (\<lambda>p. \<lparr>fx = fx p * k, fy = fy p * k\<rparr>) (t_points t)"

text \<open>The numbers published for a translation: \<^verbatim>\<open>atan2\<close> is the argument of a complex number.\<close>

type_synonym puts = "(path \<times> string \<times> real option) list"

definition atan2 :: "real \<Rightarrow> real \<Rightarrow> real" where
  "atan2 y x = Arg (Complex x y)"

definition position_puts :: "path \<Rightarrow> real \<Rightarrow> real \<Rightarrow> real \<Rightarrow> puts" where
  "position_puts p x y z = [(p, ''x'', Some x), (p, ''y'', Some y), (p, ''z'', Some z),
     (p, ''distance'', Some (sqrt (x ^ 2 + y ^ 2 + z ^ 2)))]"

definition target_puts :: "path \<Rightarrow> vec3 \<Rightarrow> puts" where
  "target_puts p v = (let x = of_rat (fst v); y = of_rat (fst (snd v)); z = of_rat (snd (snd v)) in
     position_puts p x y z @ [(p, ''up-down'', Some (atan2 y z * - 180 / pi)), (p, ''left-right'', Some (atan2 x z * 180 / pi))])"

text \<open>\<open>pnp\<close> is \<^verbatim>\<open>cv::solvePnP\<close>, from the world points and the points of the image to translation and
  rotation.\<close>

definition solvePerspective ::
    "(vec3 list \<Rightarrow> Point2f list \<Rightarrow> (vec3 \<times> vec3) res) \<Rightarrow> vs1_target \<Rightarrow> (vec3 \<times> vec3 \<times> puts) res" where
  "solvePerspective pnp t = rbind (pnp (t_world t) (t_points t)) (\<lambda>(tvec, rvec).
     Inr (tvec, rvec, target_puts (t_table t) tvec))"

subsection \<open>The target solver\<close>

record cv_shape =
  find_contours :: "byte img \<Rightarrow> Point list list"
  contour_area :: "Point list \<Rightarrow> rat"
  convex_hull :: "Point list \<Rightarrow> Point list"
  approx_poly :: "Point list \<Rightarrow> rat \<Rightarrow> Point list"
  arc_length :: "Point list \<Rightarrow> rat"
  bounding_rect :: "Point list \<Rightarrow> Rect"
  solve_pnp :: "vec3 list \<Rightarrow> Point2f list \<Rightarrow> (vec3 \<times> vec3) res"
  project :: "vec3 list \<Rightarrow> vec3 \<Rightarrow> vec3 \<Rightarrow> Point2f list"
  angle2 :: "rat \<Rightarrow> rat \<Rightarrow> real"

datatype mark =
    MText string Point2f
  | MLine Point2f Point2f
  | MCircle Point2f rat
  | MBox Point Point
  | MRect Rect
  | MContour nat

record solver =
  sv_ws :: wsub
  sv_contours :: "Point list Contours"
  sv_points :: "Point list"
  sv_target :: vs1_target
  sv_tvec :: vec3
  sv_rvec :: vec3
  sv_frame :: "bgr img"
  sv_marks :: "mark list"
  sv_puts :: puts

definition TargetSolver :: "cv_lib \<Rightarrow> (string \<Rightarrow> bool) \<Rightarrow> vs1_server \<Rightarrow> vs1_target \<Rightarrow> (solver \<times> log) res" where
  "TargetSolver cv has s t = (let p = vs1_VPipeline ''TargetSolver Pipeline'' in
     rbind (WeightedSubtraction_table cv has s (ptable p)) (\<lambda>(ws, cs).
     Inr (\<lparr>sv_ws = ws, sv_contours = Contours0, sv_points = [], sv_target = t, sv_tvec = (0, 0, 0), sv_rvec = (0, 0, 0),
           sv_frame = empty_img, sv_marks = [], sv_puts = []\<rparr>,
          cs @ [NtPut (ptable p) ''Show Thresholded'' (NtBoolean False), NtPut (ptable p) ''Debug'' (NtBoolean False)])))"

definition TargetSolver_destroy :: log where
  "TargetSolver_destroy = (let p = ptable (vs1_VPipeline ''TargetSolver Pipeline'') in
     [NtDelete p ''Show Thresholded'', NtDelete p ''Debug''])"

definition draw :: "mark list \<Rightarrow> solver \<Rightarrow> solver" where
  "draw ms sv = sv\<lparr>sv_marks := sv_marks sv @ ms\<rparr>"

definition texts :: "Point2f list \<Rightarrow> mark list" where
  "texts ps = map (\<lambda>(i, p). MText (to_string i) p) (enumerate 0 ps)"

text \<open>Thresholding and the search of the largest contour, in which all these pipelines begin.\<close>

definition find_step :: "cv_lib \<Rightarrow> cv_shape \<Rightarrow> LED \<Rightarrow> bgr img \<Rightarrow> solver \<Rightarrow> solver option res" where
  "find_step cv gm color frame sv =
     rbind (ws_threshold cv color frame (sv_ws sv)) (\<lambda>r. Inr (map_option (\<lambda>(bin, ws).
       sv\<lparr>sv_ws := ws, sv_frame := frame,
          sv_contours := snd (findLargest (contour_area gm) (find_contours gm bin) (sv_contours sv))\<rparr>) r))"

text \<open>The corners of the target: those of the hull, simplified and scaled up.\<close>

definition corner_step :: "cv_shape \<Rightarrow> solver \<Rightarrow> solver res" where
  "corner_step gm sv = rbind (getTarget (sv_contours sv)) (\<lambda>t.
     let ps = approx_poly gm (convex_hull gm t) (1/10 * arc_length gm t) in
     rbind (rescale_up (getScale (sv_ws sv)) ps) (\<lambda>ps. Inr (sv\<lparr>sv_points := ps\<rparr>)))"

definition solve_step :: "cv_shape \<Rightarrow> solver \<Rightarrow> solver res" where
  "solve_step gm sv = (let t = target_sort (angle2 gm) (sv_points sv) (sv_target sv) in
     rbind (solvePerspective (solve_pnp gm) t) (\<lambda>(tvec, rvec, ps).
     Inr (sv\<lparr>sv_target := t, sv_tvec := tvec, sv_rvec := rvec, sv_puts := sv_puts sv @ ps\<rparr>)))"

definition pose3D :: "vec3 list" where "pose3D = [(0, 0, 1/4)]"

text \<open>The rest of \<^verbatim>\<open>TargetSolver::process\<close>, once a contour is found; \<open>debug\<close> is the entry "Debug".\<close>

definition solver_found :: "cv_shape \<Rightarrow> bool \<Rightarrow> int \<Rightarrow> solver \<Rightarrow> vs1_server \<Rightarrow> (solver \<times> vs1_server) res" where
  "solver_found gm debug now sv s = rbind (corner_step gm sv) (\<lambda>sv.
     if compatible (sv_target sv) (sv_points sv) then
       rbind (solve_step gm sv) (\<lambda>sv.
       let s = updateTarget (t_name (sv_target sv)) now s in
       if debug then
         rbind (vec_idx (project gm pose3D (sv_rvec sv) (sv_tvec sv)) 0) (\<lambda>p.
         Inr (draw (MLine (t_center (sv_target sv)) p # texts (t_points (sv_target sv))) sv, s))
       else Inr (sv, s))
     else if debug then
       rbind (findCenter (sv_points sv)) (\<lambda>c.
       Inr (draw (texts (map to_f (sv_points sv)) @ [MCircle (to_f c) 1]) sv, s))
     else Inr (sv, s))"

definition solver_process ::
    "cv_lib \<Rightarrow> cv_shape \<Rightarrow> LED \<Rightarrow> bool \<Rightarrow> bool \<Rightarrow> int \<Rightarrow> bgr img \<Rightarrow> solver \<Rightarrow> vs1_server \<Rightarrow> (solver \<times> vs1_server) option res" where
  "solver_process cv gm color show debug now frame sv s =
     rbind (find_step cv gm color frame sv) (\<lambda>r. case r of None \<Rightarrow> Inr None | Some sv \<Rightarrow>
     rbind (if show then rbind (ws_fromBinary cv (sv_ws sv)) (\<lambda>(f, ws). Inr (sv\<lparr>sv_frame := f, sv_ws := ws\<rparr>)) else Inr sv) (\<lambda>sv.
     if validTarget (sv_contours sv)
     then rbind (solver_found gm debug now sv s) (\<lambda>x. Inr (Some x)) else Inr (Some (sv, s))))"

subsection \<open>The pipelines of 2021\<close>

definition Test6x6 :: vs1_target where
  "Test6x6 = vs1_Target_named [(1/4, 1/4, 0), (1/4, - 1/4, 0), (- 1/4, - 1/4, 0), (- 1/4, 1/4, 0)]
     ''Test Retroreflective Square''"

definition BBoxDemo :: "cv_lib \<Rightarrow> (string \<Rightarrow> bool) \<Rightarrow> vs1_server \<Rightarrow> (wsub \<times> log) res" where
  "BBoxDemo cv has s = WeightedSubtraction_table cv has s (ptable (vs1_VPipeline ''BoundingBox Demo Pipeline''))"

definition no_targets :: "bgr img \<Rightarrow> mark" where
  "no_targets f = MText ''NO TARGETS DETECTED'' \<lparr>fx = of_int (rat_trunc (of_int (sw (isz f)) / 2 - 192)),
     fy = of_int (rat_trunc (of_int (sh (isz f)) / 2))\<rparr>"

definition BBox_process :: "cv_lib \<Rightarrow> cv_shape \<Rightarrow> bgr img \<Rightarrow> solver \<Rightarrow> solver option res" where
  "BBox_process cv gm frame sv =
     rbind (find_step cv gm BLUE frame sv) (\<lambda>r. case r of None \<Rightarrow> Inr None | Some sv \<Rightarrow>
     if validTarget (sv_contours sv) then
       rbind (getTarget (sv_contours sv)) (\<lambda>t. let b = bounding_rect gm t; k = scale (sv_ws sv) in
       rbind (chk (rx b + rw b)) (\<lambda>bx. rbind (chk (ry b + rh b)) (\<lambda>by.
       rbind (rescale_up k [\<lparr>px = rx b, py = ry b\<rparr>, \<lparr>px = bx, py = by\<rparr>]) (\<lambda>ps.
       Inr (Some (draw [MBox (ps ! 0) (ps ! 1)] sv))))))
     else Inr (Some (draw [no_targets (sv_frame sv)] sv)))"

definition SquareTargetPNP :: "cv_lib \<Rightarrow> (string \<Rightarrow> bool) \<Rightarrow> vs1_server \<Rightarrow> (wsub \<times> log) res" where
  "SquareTargetPNP cv has s = WeightedSubtraction_table cv has s (ptable (vs1_VPipeline ''Square Target Pipeline''))"

definition projection3d :: "vec3 list" where
  "projection3d = [(1/4, 1/4, 1/4), (1/4, - 1/4, 1/4), (- 1/4, - 1/4, 1/4), (- 1/4, 1/4, 1/4)]"

text \<open>The lines from the projected points to the points of the target, and between the former.\<close>

definition square_lines :: "Point2f list \<Rightarrow> Point2f list \<Rightarrow> mark list res" where
  "square_lines pr ps =
     rbind (rmap (\<lambda>i. rbind (vec_idx ps i) (\<lambda>p. Inr (MLine (pr ! i) p))) [0..<length pr]) (\<lambda>ls.
     rbind (rmap (\<lambda>(i, j). rbind (vec_idx pr i) (\<lambda>a. rbind (vec_idx pr j) (\<lambda>b. Inr (MLine a b))))
              [(0, 1), (1, 2), (2, 3), (3, 0)]) (\<lambda>ks.
     Inr (ls @ ks)))"

definition square_found :: "cv_shape \<Rightarrow> int \<Rightarrow> solver \<Rightarrow> vs1_server \<Rightarrow> (solver \<times> vs1_server) res" where
  "square_found gm now sv s = rbind (corner_step gm sv) (\<lambda>sv.
     rbind (if compatible (sv_target sv) (sv_points sv) then
         rbind (solve_step gm sv) (\<lambda>sv.
         let s = updateTarget (t_name (sv_target sv)) now s in
         rbind (square_lines (project gm projection3d (sv_rvec sv) (sv_tvec sv)) (t_points (sv_target sv))) (\<lambda>ms.
         Inr (draw (ms @ texts (t_points (sv_target sv))) sv, s)))
       else Inr (draw (texts (map to_f (sv_points sv))) sv, s)) (\<lambda>(sv, s).
     rbind (findCenter (sv_points sv)) (\<lambda>c. Inr (draw [MCircle (to_f c) 1] sv, s))))"

definition square_process ::
    "cv_lib \<Rightarrow> cv_shape \<Rightarrow> int \<Rightarrow> bgr img \<Rightarrow> solver \<Rightarrow> vs1_server \<Rightarrow> (solver \<times> vs1_server) option res" where
  "square_process cv gm now frame sv s =
     rbind (find_step cv gm BLUE frame sv) (\<lambda>r. case r of None \<Rightarrow> Inr None | Some sv \<Rightarrow>
     if validTarget (sv_contours sv) then rbind (square_found gm now sv s) (\<lambda>x. Inr (Some x))
     else Inr (Some (draw [no_targets (sv_frame sv)] sv, s)))"

end
