(* ===== verification/Legacy_Target_Props.thy ===== *)
theory Legacy_Target_Props
  imports Legacy_Target
begin

text \<open>
  Properties of the target pipelines of the first version of the framework: the solver keeps its state
  well-formed, and reports a target exactly when it finds one with the right number of corners.
\<close>

subsection \<open>Well-formedness\<close>

definition target_wf :: "vs1_target \<Rightarrow> bool" where
  "target_wf t \<longleftrightarrow> length (t_points t) = length (t_world t)"

definition contours_wf :: "'c Contours \<Rightarrow> bool" where
  "contours_wf c \<longleftrightarrow> - 1 \<le> target_idx c \<and> target_idx c < int (length (contours c))"

definition solver_wf :: "solver \<Rightarrow> bool" where
  "solver_wf sv \<longleftrightarrow> target_wf (sv_target sv) \<and> contours_wf (sv_contours sv)"

lemma target_sort_simps [simp]:
  "t_world (target_sort ang ps t) = t_world t" "t_name (target_sort ang ps t) = t_name t" "t_table (target_sort ang ps t) = t_table t"
  by (simp_all add: target_sort_def Let_def)

lemma target_sort_wf: "target_wf t \<Longrightarrow> target_wf (target_sort ang ps t)"
  by (simp add: target_wf_def target_sort_def Let_def)

lemma target_sort_points:
  assumes "compatible t ps" "target_wf t"
  shows "mset (t_points (target_sort ang ps t)) = mset (map to_f ps)"
    "sorted (map (\<lambda>p. - ang (fx p - fx (findCenter_f ps)) (fy p - fy (findCenter_f ps))) (t_points (target_sort ang ps t)))"
  using assms by (simp_all add: target_sort_def Let_def compatible_def target_wf_def)

lemma findLargest_scan: "scan_inv area (\<lambda>_. True) cs (length cs) (snd (findLargest area cs st))"
proof -
  have e: "snd (findLargest area cs st) = fold (area_step area (\<lambda>_. True)) [0..<length cs] (st\<lparr>area_largest := 0, target_idx := - 1, contours := cs\<rparr>)"
    by (simp add: findLargest_def findContours_def Let_def)
  show ?thesis unfolding e by (rule scan_correct) simp_all
qed

lemma findLargest_contours: "contours (snd (findLargest area cs st)) = cs"
  using findLargest_scan [of area cs st] by (simp add: scan_inv_def)

lemma findLargest_wf:
  assumes "length cs \<le> 2 ^ 15"
  shows "contours_wf (snd (findLargest area cs st))"
proof -
  let ?st = "snd (findLargest area cs st)"
  note inv = findLargest_scan [of area cs st]
  from inv consider i where "best_of area (\<lambda>_. True) cs (length cs) i" "target_idx ?st = int16 (int i)" | "target_idx ?st = - 1"
    by (auto simp: scan_inv_def split: if_splits)
  then show ?thesis
  proof cases
    case (1 i)
    then have "i < length cs" by (simp add: best_of_def)
    then show ?thesis using assms 1(2) inv by (simp add: contours_wf_def scan_inv_def int16_id)
  next
    case 2
    then show ?thesis using inv by (simp add: contours_wf_def scan_inv_def)
  qed
qed

text \<open>The steps of the pipelines, with what they change.\<close>

lemma find_step_ok:
  assumes "find_step cv gm color frame sv = Inr (Some sv')"
  shows "sv_target sv' = sv_target sv" "sv_puts sv' = sv_puts sv" "sv_marks sv' = sv_marks sv"
    "\<exists>cs b. cs = find_contours gm b \<and> sv_contours sv' = snd (findLargest (contour_area gm) cs (sv_contours sv))"
  using assms by (auto simp: find_step_def)

lemma find_step_wf:
  assumes "find_step cv gm color frame sv = Inr (Some sv')" "\<forall>b. length (find_contours gm b) \<le> 2 ^ 15" "solver_wf sv"
  shows "solver_wf sv'"
  using find_step_ok [OF assms(1)] assms(2,3) findLargest_wf by (metis solver_wf_def)

lemma corner_step_ok:
  assumes "corner_step gm sv = Inr sv'" shows "sv' = sv\<lparr>sv_points := sv_points sv'\<rparr>"
  using assms by (auto simp: corner_step_def Let_def)

lemma corner_step_wf: "corner_step gm sv = Inr sv' \<Longrightarrow> solver_wf sv \<Longrightarrow> solver_wf sv'"
  by (metis corner_step_ok solver.select_convs(2,4) solver.surjective solver.update_convs(3) solver_wf_def)

lemma solve_step_ok:
  assumes "solve_step gm sv = Inr sv'"
  shows "sv_target sv' = target_sort (angle2 gm) (sv_points sv) (sv_target sv)" "sv_contours sv' = sv_contours sv"
    "sv_points sv' = sv_points sv" "sv_marks sv' = sv_marks sv"
    "solve_pnp gm (t_world (sv_target sv)) (t_points (sv_target sv')) = Inr (sv_tvec sv', sv_rvec sv')"
    "sv_puts sv' = sv_puts sv @ target_puts (t_table (sv_target sv)) (sv_tvec sv')"
  using assms by (auto simp: solve_step_def Let_def solvePerspective_def)

lemma solve_step_wf: "solve_step gm sv = Inr sv' \<Longrightarrow> solver_wf sv \<Longrightarrow> solver_wf sv'"
  using solve_step_ok target_sort_wf by (simp add: solver_wf_def)

lemma draw_simps [simp]:
  "sv_target (draw ms sv) = sv_target sv" "sv_contours (draw ms sv) = sv_contours sv" "sv_puts (draw ms sv) = sv_puts sv"
  "sv_points (draw ms sv) = sv_points sv" "sv_tvec (draw ms sv) = sv_tvec sv" "solver_wf (draw ms sv) = solver_wf sv"
  by (simp_all add: draw_def solver_wf_def)


lemma solver_found_wf: "solver_found gm debug now sv s = Inr (sv', s') \<Longrightarrow> solver_wf sv \<Longrightarrow> solver_wf sv'"
  by (auto simp: solver_found_def Let_def split: if_splits dest!: corner_step_wf dest: solve_step_wf)

lemma square_found_wf: "square_found gm now sv s = Inr (sv', s') \<Longrightarrow> solver_wf sv \<Longrightarrow> solver_wf sv'"
  by (auto simp: square_found_def Let_def split: if_splits dest!: corner_step_wf dest: solve_step_wf)

lemma solver_process_cases:
  assumes "solver_process cv gm color show debug now frame sv s = Inr (Some (sv', s'))"
  obtains sv1 sv2 where "find_step cv gm color frame sv = Inr (Some sv1)" "solver_wf sv2 = solver_wf sv1"
    "sv' = sv2 \<or> solver_found gm debug now sv2 s = Inr (sv', s')"
proof -
  obtain r where r: "find_step cv gm color frame sv = Inr r" using assms unfolding solver_process_def rbind_eq_Inr by blast
  then obtain sv1 where sv1: "r = Some sv1" using assms by (cases r) (simp_all add: solver_process_def)
  show ?thesis
  proof (cases "show")
    case True
    then obtain f ws where "ws_fromBinary cv (sv_ws sv1) = Inr (f, ws)"
      using assms by (auto simp: solver_process_def r sv1)
    then show ?thesis using assms True that [of sv1 "sv1\<lparr>sv_frame := f, sv_ws := ws\<rparr>"] r sv1
      by (simp add: solver_process_def solver_wf_def split: if_splits)
  next
    case False
    then show ?thesis using assms that [of sv1 sv1] r sv1 by (simp add: solver_process_def split: if_splits)
  qed
qed

lemma square_process_cases:
  assumes "square_process cv gm now frame sv s = Inr (Some (sv', s'))"
  obtains sv1 ms where "find_step cv gm BLUE frame sv = Inr (Some sv1)"
    "sv' = draw ms sv1 \<or> square_found gm now sv1 s = Inr (sv', s')"
proof -
  obtain r where r: "find_step cv gm BLUE frame sv = Inr r" using assms unfolding square_process_def rbind_eq_Inr by blast
  then obtain sv1 where sv1: "r = Some sv1" using assms by (cases r) (simp_all add: square_process_def)
  show ?thesis using assms that [of sv1] r sv1 by (auto simp: square_process_def split: if_splits)
qed

text \<open>C36: The state of a target pipeline stays well-formed: the target has as many points as it has world
  points, and its selected contour, if any, exists. The constructor establishes this for every target,
  and every frame that is processed keeps it, as long as an image has at most \<open>2 ^ 15\<close> contours.\<close>

theorem solver_well_formed:
  assumes "\<forall>b. length (find_contours gm b) \<le> 2 ^ 15" "solver_wf sv"
  shows "(TargetSolver cv has s (vs1_Target_named w n) = Inr (sv0, cs) \<longrightarrow> solver_wf sv0)
    \<and> (solver_process cv gm color show debug now frame sv s = Inr (Some (sv', s')) \<longrightarrow> solver_wf sv')
    \<and> (BBox_process cv gm frame sv = Inr (Some sv') \<longrightarrow> solver_wf sv')
    \<and> (square_process cv gm now frame sv s = Inr (Some (sv', s')) \<longrightarrow> solver_wf sv')"
proof (intro conjI impI)
  show "solver_wf sv0" if "TargetSolver cv has s (vs1_Target_named w n) = Inr (sv0, cs)"
    using that by (auto simp: TargetSolver_def Let_def solver_wf_def target_wf_def vs1_Target_named_def contours_wf_def Contours0_def)
  show "solver_wf sv'" if "solver_process cv gm color show debug now frame sv s = Inr (Some (sv', s'))"
    using that by (elim solver_process_cases) (auto dest: find_step_wf [OF _ assms] solver_found_wf)
  show "solver_wf sv'" if "BBox_process cv gm frame sv = Inr (Some sv')"
    using that find_step_wf [OF _ assms] by (auto simp: BBox_process_def Let_def split: option.splits if_splits)
  show "solver_wf sv'" if "square_process cv gm now frame sv s = Inr (Some (sv', s'))"
    using that by (elim square_process_cases) (auto dest: find_step_wf [OF _ assms] square_found_wf)
qed


subsection \<open>Reports\<close>

lemma solver_found_compatible:
  assumes "solver_found gm debug now sv s = Inr (sv', s')" "corner_step gm sv = Inr sv2" "compatible (sv_target sv2) (sv_points sv2)"
  shows "\<exists>sv3 ms. solve_step gm sv2 = Inr sv3 \<and> (sv' = sv3 \<or> sv' = draw ms sv3) \<and> s' = updateTarget (t_name (sv_target sv3)) now s"
  using assms by (auto simp: solver_found_def Let_def split: if_splits)

lemma solver_found_incompatible:
  assumes "solver_found gm debug now sv s = Inr (sv', s')" "corner_step gm sv = Inr sv2" "\<not> compatible (sv_target sv2) (sv_points sv2)"
  shows "\<exists>ms. (sv' = sv2 \<or> sv' = draw ms sv2) \<and> s' = s"
  using assms by (auto simp: solver_found_def Let_def split: if_splits)

lemma solver_report_result:
  assumes "find_step cv gm color frame sv = Inr (Some sv1)" "target_wf (sv_target sv)"
    and "solver_process cv gm color False debug now frame sv s = Inr (Some (sv', s'))"
  shows "if validTarget (sv_contours sv1) \<and> (\<exists>sv2. corner_step gm sv1 = Inr sv2 \<and> compatible (sv_target sv) (sv_points sv2))
    then s' = updateTarget (t_name (sv_target sv)) now s
      \<and> solve_pnp gm (t_world (sv_target sv)) (t_points (sv_target sv')) = Inr (sv_tvec sv', sv_rvec sv')
      \<and> mset (t_points (sv_target sv')) = mset (map to_f (sv_points sv'))
      \<and> sv_puts sv' = sv_puts sv @ target_puts (t_table (sv_target sv)) (sv_tvec sv')
    else s' = s \<and> sv_puts sv' = sv_puts sv"
proof (cases "validTarget (sv_contours sv1)")
  case False
  then show ?thesis using assms(3) find_step_ok [OF assms(1)] by (auto simp: solver_process_def assms(1))
next
  case True
  then have f: "solver_found gm debug now sv1 s = Inr (sv', s')" using assms(3) by (auto simp: solver_process_def assms(1))
  then obtain sv2 where c: "corner_step gm sv1 = Inr sv2" by (auto simp: solver_found_def)
  have k: "sv_target sv2 = sv_target sv" "sv_puts sv2 = sv_puts sv"
    using corner_step_ok [OF c] find_step_ok [OF assms(1)] by (metis solver.select_convs(4,9) solver.surjective solver.update_convs(3))+
  show ?thesis
  proof (cases "compatible (sv_target sv2) (sv_points sv2)")
    case comp: True
    obtain sv3 ms where s3: "solve_step gm sv2 = Inr sv3" "sv' = sv3 \<or> sv' = draw ms sv3" "s' = updateTarget (t_name (sv_target sv3)) now s"
      using solver_found_compatible [OF f c comp] by blast
    note ok = solve_step_ok [OF s3(1)]
    have "sv_target sv' = sv_target sv3" "sv_points sv' = sv_points sv2" "sv_puts sv' = sv_puts sv3" "sv_tvec sv' = sv_tvec sv3"
      "sv_rvec sv' = sv_rvec sv3" using s3(2) ok by (auto simp: draw_def)
    then show ?thesis using True comp c k ok s3(3) target_sort_points(1) [OF comp] assms(2) by simp
  next
    case False
    then show ?thesis using solver_found_incompatible [OF f c False] c k by auto
  qed
qed

text \<open>A valid target can be read, so the solver fails only where OpenCV does or where a coordinate overflows.\<close>

definition pnp_total :: "cv_shape \<Rightarrow> bool" where
  "pnp_total gm \<longleftrightarrow> (\<forall>w ps. length w = length ps \<longrightarrow> (\<exists>x. solve_pnp gm w ps = Inr x))"

lemma getTarget_valid:
  assumes "contours_wf c" "length (contours c) \<le> 2 ^ 15" "validTarget c"
  shows "\<exists>t \<in> set (contours c). getTarget c = Inr t"
  using assms by (auto simp: contours_wf_def validTarget_def getTarget_def as_size_t_def vec_idx_def)

lemma solvePerspective_total:
  "pnp_total gm \<Longrightarrow> target_wf t \<Longrightarrow> \<exists>x. solvePerspective (solve_pnp gm) t = Inr x"
  by (fastforce simp: pnp_total_def target_wf_def solvePerspective_def)

lemma solver_found_returns:
  assumes "pnp_total gm" "solver_wf sv" "length (contours (sv_contours sv)) \<le> 2 ^ 15" "validTarget (sv_contours sv)"
    and "\<forall>c \<in> set (contours (sv_contours sv)).
      \<exists>ps. rescale_up (getScale (sv_ws sv)) (approx_poly gm (convex_hull gm c) (1/10 * arc_length gm c)) = Inr ps"
  shows "\<exists>x. solver_found gm False now sv s = Inr x"
proof -
  obtain t where "t \<in> set (contours (sv_contours sv))" "getTarget (sv_contours sv) = Inr t"
    using getTarget_valid assms(2-4) by (auto simp: solver_wf_def)
  then obtain ps where c: "corner_step gm sv = Inr (sv\<lparr>sv_points := ps\<rparr>)"
    using assms(5) by (fastforce simp: corner_step_def Let_def)
  have "target_wf (target_sort (angle2 gm) ps (sv_target sv))" using assms(2) target_sort_wf by (simp add: solver_wf_def)
  from solvePerspective_total [OF assms(1) this] have "\<exists>x. solve_step gm (sv\<lparr>sv_points := ps\<rparr>) = Inr x"
    by (auto simp: solve_step_def Let_def)
  then show ?thesis using c by (auto simp: solver_found_def Let_def)
qed



subsection \<open>An example\<close>

text \<open>A square that is found in every image, and solved to the translation \<open>(3, 0, 4)\<close>.\<close>

definition square4 :: "Point list" where
  "square4 = [\<lparr>px = 0, py = 0\<rparr>, \<lparr>px = 0, py = 4\<rparr>, \<lparr>px = 4, py = 4\<rparr>, \<lparr>px = 4, py = 0\<rparr>]"

definition demo_shape :: cv_shape where
  "demo_shape = \<lparr>find_contours = (\<lambda>_. [square4]), contour_area = (\<lambda>_. 16), convex_hull = (\<lambda>ps. ps), approx_poly = (\<lambda>ps _. ps),
     arc_length = (\<lambda>_. 12), bounding_rect = (\<lambda>_. \<lparr>rx = 0, ry = 0, rw = 5, rh = 5\<rparr>),
     solve_pnp = (\<lambda>_ _. Inr ((3, 0, 4), (0, 0, 0))), project = (\<lambda>w _ _. map (\<lambda>_. Point2f0) w), angle2 = (\<lambda>x y. of_rat x)\<rparr>"

definition demo_solver :: solver where
  "demo_solver = \<lparr>sv_ws = wsub0, sv_contours = Contours0, sv_points = [], sv_target = Test6x6, sv_tvec = (0, 0, 0),
     sv_rvec = (0, 0, 0), sv_frame = empty_img, sv_marks = [], sv_puts = []\<rparr>"

lemma demo_threshold: "\<exists>ws. ws_threshold demo_cv BLUE empty_img wsub0 = Inr (Some (empty_img, ws)) \<and> scale ws = 1"
proof -
  have "size_times (isz (buffer wsub0)) (c_int (scale wsub0)) = Inr (isz empty_img)"
    by (simp add: wsub0_def empty_img_def size_times_def chk_def)
  then show ?thesis using run_binary_in_place [of "[]" "thresh wsub0"]
    by (simp add: ws_threshold_def Let_def demo_cv_def img_split_def weighted_array_def empty_img_def wsub0_def)
qed

lemma demo_find: "\<exists>sv1. find_step demo_cv demo_shape BLUE empty_img demo_solver = Inr (Some sv1)
    \<and> getTarget (sv_contours sv1) = Inr square4 \<and> validTarget (sv_contours sv1) \<and> scale (sv_ws sv1) = 1
    \<and> sv_target sv1 = Test6x6"
proof -
  obtain ws where ws: "ws_threshold demo_cv BLUE empty_img wsub0 = Inr (Some (empty_img, ws))" "scale ws = 1"
    using demo_threshold by blast
  have "snd (findLargest (contour_area demo_shape) [square4] Contours0) = \<lparr>contours = [square4], area_largest = 16, area_buff = 16, target_idx = 0\<rparr>"
    by (simp add: findLargest_def findContours_def Let_def Contours0_def area_step_def demo_shape_def int16_def)
  moreover have "find_contours demo_shape b = [square4]" for b by (simp add: demo_shape_def)
  ultimately show ?thesis using ws
    by (simp add: find_step_def demo_solver_def getTarget_def validTarget_def as_size_t_def vec_idx_def)
qed

lemma demo_corners:
  assumes "getTarget (sv_contours sv1) = Inr square4" "scale (sv_ws sv1) = 1"
  shows "corner_step demo_shape sv1 = Inr (sv1\<lparr>sv_points := square4\<rparr>)"
  using assms by (simp add: corner_step_def Let_def getScale_def rescale_up_def square4_def demo_shape_def chk_def)

lemma demo_process: "\<exists>sv'. solver_process demo_cv demo_shape BLUE False False now empty_img demo_solver s
    = Inr (Some (sv', updateTarget ''Test Retroreflective Square'' now s))"
proof -
  obtain sv1 where sv1: "find_step demo_cv demo_shape BLUE empty_img demo_solver = Inr (Some sv1)"
    "getTarget (sv_contours sv1) = Inr square4" "validTarget (sv_contours sv1)" "scale (sv_ws sv1) = 1" "sv_target sv1 = Test6x6"
    using demo_find by blast
  have "compatible Test6x6 square4" by (simp add: compatible_def Test6x6_def vs1_Target_named_def square4_def)
  then show ?thesis using sv1 demo_corners [OF sv1(2,4)]
    by (simp add: solver_process_def solver_found_def solve_step_def solvePerspective_def demo_shape_def Let_def
        Test6x6_def vs1_Target_named_def)
qed

theorem solver_well_formed_witness:
  "\<exists>sv'. solver_process demo_cv demo_shape BLUE False False 7 empty_img demo_solver (vs1_server0 [] [])
     = Inr (Some (sv', updateTarget ''Test Retroreflective Square'' 7 (vs1_server0 [] []))) \<and> solver_wf sv'"
proof -
  let ?s = "vs1_server0 [] []"
  have "\<forall>b. length (find_contours demo_shape b) \<le> 2 ^ 15" "solver_wf demo_solver"
    by (simp_all add: demo_shape_def solver_wf_def demo_solver_def target_wf_def Test6x6_def vs1_Target_named_def
        contours_wf_def Contours0_def)
  from solver_well_formed [OF this] show ?thesis using demo_process [of 7 ?s] by blast
qed


end
