(* ===== verification/Rapid_React.thy ===== *)
theory Rapid_React
  imports Legacy_Target
begin

text \<open>
  The pipeline for the upper hub of 2022 (\<^verbatim>\<open>vs1-legacy/2022/rapidreact.h\<close>, \<^verbatim>\<open>rapidreact.cpp\<close> and
  \<^verbatim>\<open>rapidreact.inc\<close>): the target \<^verbatim>\<open>UpperHub\<close> and the search of its strips, \<^verbatim>\<open>StripFinder\<close>. The search
  moves the contours it has used to the front of the vector; its outer loop changes its own counter, and
  is a \<^theory_text>\<open>partial_function\<close> here.
\<close>

subsection \<open>The upper hub\<close>

definition hub_world :: "vec3 list" where
  "hub_world = [(0, 103, 2673803044 / 10 ^ 8), (1023220126 / 10 ^ 8, 103, 2470271906 / 10 ^ 8),
     (1890664264 / 10 ^ 8, 103, 1890664264 / 10 ^ 8), (2470271906 / 10 ^ 8, 103, 1023220126 / 10 ^ 8),
     (2673803044 / 10 ^ 8, 103, 0), (2470271906 / 10 ^ 8, 103, - 1023220126 / 10 ^ 8)]"

record hub =
  h_points :: "Point2f list"
  h_match :: "vec3 list"

definition UpperHub :: hub where
  "UpperHub = \<lparr>h_points = replicate 6 Point2f0, h_match = replicate 6 (0, 0, 0)\<rparr>"

definition hub_target :: vs1_target where
  "hub_target = vs1_Target_named [] ''Upper-Hub''"

definition hub_size :: "hub \<Rightarrow> nat" where "hub_size h = length (h_points h)"

definition hub_add :: "Point2f \<Rightarrow> hub \<Rightarrow> hub" where
  "hub_add p h = h\<lparr>h_points := h_points h @ [p]\<rparr>"

definition hub_compatible :: "hub \<Rightarrow> bool" where
  "hub_compatible h \<longleftrightarrow> inRange (int (length (h_points h))) 3 6"

definition hub_compatible_contour :: "Point list \<Rightarrow> bool" where
  "hub_compatible_contour contour \<longleftrightarrow> inRange (int (length contour)) 3 6"

definition resetPoints :: "hub \<Rightarrow> hub" where
  "resetPoints h = h\<lparr>h_points := []\<rparr>"

definition matchWorld :: "hub \<Rightarrow> hub res" where
  "matchWorld h = rbind (rmap (vec_idx hub_world) [0..<length (h_points h)]) (\<lambda>ws. Inr (h\<lparr>h_match := ws\<rparr>))"

text \<open>The points from left to right.\<close>

definition hub_sort :: "hub \<Rightarrow> hub res" where
  "hub_sort h = matchWorld (h\<lparr>h_points := sort_key fx (h_points h)\<rparr>)"

definition hub_sort_points :: "Point list \<Rightarrow> hub \<Rightarrow> hub res" where
  "hub_sort_points contour h =
     (let limit = (if length contour < 6 then length contour else 6)
      in matchWorld (h\<lparr>h_points := sort_key fx (map to_f (take limit contour))\<rparr>))"

text \<open>\<^verbatim>\<open>findCenter<float, int>\<close> of a rectangle: the sum is one of \<^verbatim>\<open>int\<close>s.\<close>

definition findCenter_rect_f :: "Rect \<Rightarrow> Point2f res" where
  "findCenter_rect_f r = rbind (chk (rx r + rw r)) (\<lambda>bx. rbind (chk (ry r + rh r)) (\<lambda>by.
     rbind (chk (rx r + bx)) (\<lambda>x. rbind (chk (ry r + by)) (\<lambda>y.
     Inr \<lparr>fx = of_int x / 2, fy = of_int y / 2\<rparr>))))"

text \<open>Matching by distance: the number of strips between two neighbours is their distance in twice the
  greatest width, rounded.\<close>

definition strip_steps :: "Point2f \<Rightarrow> Point2f \<Rightarrow> int \<Rightarrow> nat" where
  "strip_steps p q sample = nat (fcvtzu64
     (case dbl_div (Fin \<bar>fx p - fx q\<bar>) (Fin (of_int sample)) of Fin r \<Rightarrow> Fin (r + 1/2) | d \<Rightarrow> d))"

definition match_step :: "Point2f list \<Rightarrow> int \<Rightarrow> nat \<Rightarrow> nat \<times> vec3 list \<Rightarrow> (nat \<times> vec3 list) res" where
  "match_step ps sample i = (\<lambda>(widx, ms).
     if widx < 6 then
       rbind (vec_idx ms (i - 1)) (\<lambda>_.
       Inr (if i < length ps then (widx + strip_steps (ps ! i) (ps ! (i - 1)) sample) mod 2 ^ 64 else widx,
            ms[i - 1 := hub_world ! widx]))
     else Inr (widx, ms))"

definition hub_sort_rects :: "Rect list \<Rightarrow> hub \<Rightarrow> (Rect list \<times> hub) res" where
  "hub_sort_rects contour h =
     (let rs = sort_key rx contour in
      rbind (rmap findCenter_rect_f rs) (\<lambda>ps.
      rbind (chk (foldl (\<lambda>w r. if rw r > w then rw r else w) 0 rs * 2)) (\<lambda>sample.
      rbind (rfold (match_step ps sample) [1..<length ps + 1] (0, h_match h)) (\<lambda>(_, ms).
      Inr (rs, \<lparr>h_points = ps, h_match = ms\<rparr>)))))"

text \<open>The perspective: of the two solutions of \<^verbatim>\<open>solvePnPGeneric\<close>, the one with the greater sum of height
  and first angle is refined. \<open>ippe\<close> and \<open>refine\<close> are the functions of OpenCV.\<close>

record pnp_lib =
  ippe :: "vec3 list \<Rightarrow> Point2f list \<Rightarrow> ((vec3 \<times> vec3) \<times> (vec3 \<times> vec3)) res"
  refine :: "vec3 list \<Rightarrow> Point2f list \<Rightarrow> vec3 \<times> vec3 \<Rightarrow> (vec3 \<times> vec3) res"

definition grade :: "vec3 \<times> vec3 \<Rightarrow> rat" where
  "grade tr = fst (snd (fst tr)) + fst (snd tr)"

definition hub_puts :: "path \<Rightarrow> vec3 \<Rightarrow> puts" where
  "hub_puts p v = (let x = of_rat (fst v); y = of_rat (fst (snd v)); z = of_rat (snd (snd v)) in
     position_puts p x y z @ [(p, ''left-right'',
       if x = 0 \<and> z = 0 then None else Some (arccos (z / sqrt (x ^ 2 + z ^ 2)) * 180 / pi * sgn x))])"

definition hub_solvePerspective :: "pnp_lib \<Rightarrow> hub \<Rightarrow> (vec3 \<times> vec3 \<times> puts) res" where
  "hub_solvePerspective P h = rbind (ippe P (h_match h) (h_points h)) (\<lambda>(a, b).
     rbind (refine P (h_match h) (h_points h) (if grade a > grade b then a else b)) (\<lambda>(tvec, rvec).
     Inr (tvec, rvec, hub_puts (t_table hub_target) tvec)))"

subsection \<open>The search of the strips\<close>

record strips =
  f_contours :: "Point list list"
  in_range :: "Rect list"
  rect_buffer :: Rect
  srange :: Size
  reinserted :: nat
  f_marks :: "mark list"

definition tl_of :: "Rect \<Rightarrow> Point" where "tl_of r = \<lparr>px = rx r, py = ry r\<rparr>"

definition rect_area :: "Rect \<Rightarrow> int res" where "rect_area r = chk (rw r * rh r)"

definition ratio_in :: "rat \<Rightarrow> rat \<Rightarrow> Rect \<Rightarrow> bool" where
  "ratio_in lo hi r \<longleftrightarrow> (case dbl_div (Fin (of_int (rw r))) (Fin (of_int (rh r))) of Fin q \<Rightarrow> q \<le> hi \<and> q \<ge> lo | _ \<Rightarrow> False)"

definition size_of_rect :: "Rect \<Rightarrow> int \<Rightarrow> int \<Rightarrow> Size res" where
  "size_of_rect r k l = rbind (chk (rw r * k)) (\<lambda>w. rbind (chk (rh r * l)) (\<lambda>h. Inr \<lparr>sw = w, sh = h\<rparr>))"

text \<open>The comparison is only made for a rectangle of the right shape.\<close>

definition bigger_strip :: "Rect \<Rightarrow> Rect \<Rightarrow> bool res" where
  "bigger_strip b f = (if ratio_in (7/4) (11/4) b
     then rbind (rect_area b) (\<lambda>a. rbind (rect_area f) (\<lambda>a0. Inr (a > a0))) else Inr False)"

definition similar_strip :: "Rect \<Rightarrow> Rect \<Rightarrow> bool res" where
  "similar_strip b f = (if ratio_in (3/4) 3 b
     then rbind (rect_area b) (\<lambda>a. rbind (rect_area f) (\<lambda>a0. Inr (a \<le> 2 * a0 \<and> 2 * a \<ge> a0))) else Inr False)"

text \<open>The inner loop, for one later contour; \<open>bound\<close> is \<^verbatim>\<open>cv::boundingRect\<close>.\<close>

definition inner_step :: "(Point list \<Rightarrow> Rect) \<Rightarrow> nat \<Rightarrow> strips \<Rightarrow> strips res" where
  "inner_step bound n st =
     rbind (vec_idx (f_contours st) n) (\<lambda>c. let b = bound c; st = st\<lparr>rect_buffer := b\<rparr> in
     rbind (vec_idx (in_range st) 0) (\<lambda>f.
     rbind (distance2 (tl_of b) (tl_of f)) (\<lambda>d.
     if size_le d (srange st) then
       rbind (bigger_strip b f) (\<lambda>big.
       if big then
         rbind (size_of_rect b 6 3) (\<lambda>r.
         rbind (swapIdx (reinserted st) n (f_contours st)) (\<lambda>cs.
         Inr (st\<lparr>in_range := b # in_range st, srange := r, f_contours := cs, reinserted := reinserted st + 1,
                 f_marks := f_marks st @ [MRect b]\<rparr>)))
       else
         rbind (similar_strip b f) (\<lambda>sim.
         Inr (if sim then st\<lparr>in_range := in_range st @ [b], f_marks := f_marks st @ [MRect b]\<rparr> else st)))
     else Inr st)))"

text \<open>The outer loop, for the contour at \<open>i\<close>; the result tells whether the hub is found.\<close>

definition strip_step :: "(Point list \<Rightarrow> Rect) \<Rightarrow> nat \<Rightarrow> strips \<Rightarrow> (bool \<times> strips) res" where
  "strip_step bound i st =
     rbind (vec_idx (f_contours st) i) (\<lambda>c. let b = bound c; st = st\<lparr>rect_buffer := b\<rparr> in
     if ratio_in (7/4) (11/4) b then
       rbind (size_of_rect b 7 4) (\<lambda>r.
       rbind (swapIdx (reinserted st) i (f_contours st)) (\<lambda>cs.
       let st = st\<lparr>in_range := in_range st @ [b], srange := r, f_contours := cs, reinserted := reinserted st + 1,
                   f_marks := f_marks st @ [MRect b]\<rparr> in
       rbind (rfold (inner_step bound) [reinserted st..<length (f_contours st)] st) (\<lambda>st.
       Inr (if inRange (int (length (in_range st))) 4 6 then (True, st) else (False, st\<lparr>in_range := []\<rparr>)))))
     else Inr (False, st\<lparr>f_marks := f_marks st @ [MRect b]\<rparr>))"

partial_function (option) strip_loop :: "(Point list \<Rightarrow> Rect) \<Rightarrow> nat \<Rightarrow> strips \<Rightarrow> (bool \<times> strips) res option" where
  "strip_loop bound i st =
     (if i < length (f_contours st) then
        let i = (if i < reinserted st then reinserted st else i) in
        case strip_step bound i st of
          Inl e \<Rightarrow> Some (Inl e)
        | Inr r \<Rightarrow> (if fst r then Some (Inr r) else strip_loop bound (i + 1) (snd r))
      else Some (Inr (False, st)))"

text \<open>What is done with the strips that are found.\<close>

definition hub_pose3D :: "vec3 list" where
  "hub_pose3D = [(0, 0, 0), (0, 103, 0), (50, 103, 0), (0, 103, 50)]"

definition hub_marks :: "Point2f list \<Rightarrow> mark list" where
  "hub_marks ps = concat (map (\<lambda>(i, p). [MText (to_string i) p, MCircle p 0]) (enumerate 0 ps))"

definition hub_axes :: "Point2f list \<Rightarrow> mark list res" where
  "hub_axes pose = rmap (\<lambda>(i, j). rbind (vec_idx pose i) (\<lambda>a. rbind (vec_idx pose j) (\<lambda>b. Inr (MLine a b)))) [(0, 1), (1, 2), (1, 3)]"

record strip_finder =
  sf_ws :: wsub
  sf_contours :: "Point list Contours"
  sf_strips :: strips
  sf_hub :: hub
  sf_tvec :: vec3
  sf_rvec :: vec3
  sf_frame :: "bgr img"
  sf_puts :: puts

definition StripFinder :: "cv_lib \<Rightarrow> (string \<Rightarrow> bool) \<Rightarrow> vs1_server \<Rightarrow> (strip_finder \<times> log) res" where
  "StripFinder cv has s = (let p = vs1_VPipeline ''Upper-Hub Pipeline'' in
     rbind (WeightedSubtraction_table cv has s (ptable p)) (\<lambda>(ws, cs).
     Inr (\<lparr>sf_ws = ws, sf_contours = Contours0,
           sf_strips = \<lparr>f_contours = [], in_range = [], rect_buffer = \<lparr>rx = 0, ry = 0, rw = 0, rh = 0\<rparr>,
             srange = \<lparr>sw = 0, sh = 0\<rparr>, reinserted = 0, f_marks = []\<rparr>,
           sf_hub = UpperHub, sf_tvec = (0, 0, 0), sf_rvec = (0, 0, 0), sf_frame = empty_img, sf_puts = []\<rparr>,
          cs @ [NtPut (ptable p) ''Show Thresholded'' (NtBoolean False)])))"

definition hub_report :: "pnp_lib \<Rightarrow> cv_shape \<Rightarrow> int \<Rightarrow> strip_finder \<Rightarrow> vs1_server \<Rightarrow> (strip_finder \<times> vs1_server) res" where
  "hub_report P gm now sf s =
     rbind (rmap findCenter_rect_f (in_range (sf_strips sf))) (\<lambda>ps.
     rbind (hub_sort (fold hub_add ps (resetPoints (sf_hub sf)))) (\<lambda>h.
     rbind (hub_solvePerspective P h) (\<lambda>(tvec, rvec, puts).
     let s = updateTarget (t_name hub_target) now s in
     rbind (hub_axes (project gm hub_pose3D rvec tvec)) (\<lambda>ls.
     Inr (sf\<lparr>sf_hub := h, sf_tvec := tvec, sf_rvec := rvec, sf_puts := sf_puts sf @ puts,
             sf_strips := (sf_strips sf)\<lparr>f_marks := f_marks (sf_strips sf) @ hub_marks (h_points h) @ ls\<rparr>\<rparr>, s)))))"

definition strip_process ::
    "cv_lib \<Rightarrow> cv_shape \<Rightarrow> pnp_lib \<Rightarrow> LED \<Rightarrow> bool \<Rightarrow> int \<Rightarrow> bgr img \<Rightarrow> strip_finder \<Rightarrow> vs1_server \<Rightarrow> (strip_finder \<times> vs1_server) option res" where
  "strip_process cv gm P color show now frame sf s =
     rbind (ws_threshold cv color frame (sf_ws sf)) (\<lambda>r. case r of None \<Rightarrow> Inr None | Some (bin, ws) \<Rightarrow>
     let sf = sf\<lparr>sf_ws := ws, sf_frame := frame, sf_contours := snd (findContours (find_contours gm bin) (sf_contours sf))\<rparr> in
     rbind (if show then rbind (ws_fromBinary cv (sf_ws sf)) (\<lambda>(f, ws). Inr (sf\<lparr>sf_frame := f, sf_ws := ws\<rparr>)) else Inr sf) (\<lambda>sf.
     rbind (rmap (rescale_up (getScale (sf_ws sf))) (contours (sf_contours sf))) (\<lambda>cs.
     case strip_loop (bounding_rect gm) 0 ((sf_strips sf)\<lparr>f_contours := cs, in_range := [], reinserted := 0\<rparr>) of
       None \<Rightarrow> Inr None
     | Some r \<Rightarrow> rbind r (\<lambda>(found, st).
         let sf = sf\<lparr>sf_strips := st, sf_contours := (sf_contours sf)\<lparr>contours := f_contours st\<rparr>\<rparr> in
         if found then rbind (hub_report P gm now sf s) (\<lambda>x. Inr (Some x)) else Inr (Some (sf, s))))))"

end
