(* ===== verification/Rapid_React_Props.thy ===== *)
theory Rapid_React_Props
  imports Rapid_React
begin

text \<open>
  Properties of the search of the strips: it always ends, permutes the contours, and does not fail if
  some contour is not a strip; what it finds are four to six rectangles of the right shape. The match
  of the points of the hub with its model, and the angle that is published.
\<close>

subsection \<open>Loops with a counter\<close>

lemma rfold_from:
  assumes "a \<le> b" "P a s" "\<And>i s. a \<le> i \<Longrightarrow> i < b \<Longrightarrow> P i s \<Longrightarrow> \<exists>s'. f i s = Inr s' \<and> P (Suc i) s'"
  shows "\<exists>s'. rfold f [a..<b] s = Inr s' \<and> P b s'"
  using assms
proof (induction b)
  case (Suc b)
  show ?case
  proof (cases "a \<le> b")
    case True
    then obtain s1 where "rfold f [a..<b] s = Inr s1" "P b s1" using Suc by (metis less_SucI)
    moreover obtain s2 where "f b s1 = Inr s2" "P (Suc b) s2" using Suc.prems(3) True calculation(2) by blast
    ultimately show ?thesis using True by (simp add: rfold_append)
  next
    case False
    then show ?thesis using Suc.prems by (simp add: le_Suc_eq)
  qed
qed simp

lemma swapIdx_mset: "swapIdx i j v = Inr v' \<Longrightarrow> mset v' = mset v"
  by (auto simp: swapIdx_def mset_swap)

lemma swapIdx_length: "swapIdx i j v = Inr v' \<Longrightarrow> length v' = length v"
  by (auto simp: swapIdx_def)

lemma swapIdx_ok: "i < length v \<Longrightarrow> j < length v \<Longrightarrow> swapIdx i j v = Inr (v[i := v ! j, j := v ! i])"
  by (simp add: swapIdx_def vec_idx_def)

subsection \<open>The search ends\<close>

lemma inner_step_length: "inner_step bound n st = Inr st' \<Longrightarrow> length (f_contours st') = length (f_contours st)"
  by (auto simp: inner_step_def Let_def split: if_splits dest: swapIdx_length)

lemma strip_step_length:
  assumes "strip_step bound i st = Inr (b, st')"
  shows "length (f_contours st') = length (f_contours st)"
proof -
  have "length (f_contours t') = length (f_contours t)" if "rfold (inner_step bound) is t = Inr t'" for "is" t t'
    using rfold_preserves [OF that, of "\<lambda>u. length (f_contours u) = length (f_contours t)"] inner_step_length by fastforce
  then show ?thesis using assms
    by (fastforce simp: strip_step_def Let_def split: if_splits dest: swapIdx_length)
qed

text \<open>C15: The search of the strips always ends, whatever the contours and their rectangles are, although
  its loop sets its own counter: with a result or with an access out of bounds.\<close>

theorem strip_search_ends: "\<exists>r. strip_loop bound i st = Some r"
proof (induction "length (f_contours st) - i" arbitrary: i st rule: less_induct)
  case less
  show ?case
  proof (cases "i < length (f_contours st)")
    case False
    then show ?thesis by (subst strip_loop.simps) simp
  next
    case True
    let ?j = "if i < reinserted st then reinserted st else i"
    show ?thesis
    proof (cases "strip_step bound ?j st")
      case (Inl e)
      then show ?thesis using True by (subst strip_loop.simps) (simp add: Let_def)
    next
      case (Inr r)
      then have "length (f_contours (snd r)) = length (f_contours st)" using strip_step_length by (metis prod.collapse)
      then have "\<exists>q. strip_loop bound (?j + 1) (snd r) = Some q" using True by (intro less) auto
      then show ?thesis using True Inr by (subst strip_loop.simps) (simp add: Let_def)
    qed
  qed
qed


subsection \<open>The search stays in bounds\<close>

abbreviation strict :: "Rect \<Rightarrow> bool" where
  "strict r \<equiv> ratio_in (7/4) (11/4) r"

text \<open>Rectangles of an image: far from the limits of an \<^verbatim>\<open>int\<close>.\<close>

definition small_rect :: "Rect \<Rightarrow> bool" where
  "small_rect r \<longleftrightarrow> \<bar>rx r\<bar> < 2 ^ 14 \<and> \<bar>ry r\<bar> < 2 ^ 14 \<and> 0 \<le> rw r \<and> rw r < 2 ^ 14 \<and> 0 \<le> rh r \<and> rh r < 2 ^ 14"

text \<open>The contours are those given, permuted, and those at the front are strips; the rectangles in range
  are those of contours, and of a similar shape.\<close>

definition strips_inv :: "(Point list \<Rightarrow> Rect) \<Rightarrow> Point list list \<Rightarrow> nat \<Rightarrow> strips \<Rightarrow> bool" where
  "strips_inv bound cs n st \<longleftrightarrow> mset (f_contours st) = mset cs \<and> reinserted st \<le> n
     \<and> (\<forall>k < reinserted st. strict (bound (f_contours st ! k)))
     \<and> (\<forall>r \<in> set (in_range st). r \<in> bound ` set cs \<and> ratio_in (3/4) 3 r)"

lemma strict_similar: "strict r \<Longrightarrow> ratio_in (3/4) 3 r"
  by (auto simp: ratio_in_def simp del: dbl_div.simps split: dbl.splits)

lemma small_area: "small_rect r \<Longrightarrow> rect_area r = Inr (rw r * rh r)"
proof -
  assume r: "small_rect r"
  then have "0 \<le> rw r * rh r" "rw r * rh r \<le> 2 ^ 14 * 2 ^ 14"
    using mult_mono [of "rw r" "2 ^ 14" "rh r" "2 ^ 14"] by (simp_all add: small_rect_def)
  then show ?thesis by (simp add: rect_area_def chk_def)
qed

lemma small_size: "small_rect r \<Longrightarrow> k \<in> {3, 4, 6, 7} \<Longrightarrow> l \<in> {3, 4, 6, 7} \<Longrightarrow> size_of_rect r k l = Inr \<lparr>sw = rw r * k, sh = rh r * l\<rparr>"
  by (auto simp: size_of_rect_def small_rect_def chk_def)

lemma abs_diff_fits:
  fixes a b :: int
  assumes "\<bar>a\<bar> < 2 ^ 14" "\<bar>b\<bar> < 2 ^ 14" shows "chk (a - b) = Inr (a - b)" "chk \<bar>a - b\<bar> = Inr \<bar>a - b\<bar>"
proof -
  have "\<bar>a - b\<bar> < 2 ^ 15" using assms abs_triangle_ineq4 [of a b] by simp
  then show "chk (a - b) = Inr (a - b)" "chk \<bar>a - b\<bar> = Inr \<bar>a - b\<bar>" by (simp_all add: abs_less_iff)
qed

lemma small_distance: "small_rect a \<Longrightarrow> small_rect b \<Longrightarrow>
    distance2 (tl_of a) (tl_of b) = Inr \<lparr>sw = \<bar>rx a - rx b\<bar>, sh = \<bar>ry a - ry b\<bar>\<rparr>"
  unfolding distance2_def tl_of_def small_rect_def by (simp add: abs_diff_fits del: chk_Inr)

lemma small_strips:
  assumes "small_rect b" "small_rect f"
  shows "bigger_strip b f = Inr (strict b \<and> rw f * rh f < rw b * rh b)"
    "similar_strip b f = Inr (ratio_in (3/4) 3 b \<and> rw b * rh b \<le> 2 * (rw f * rh f) \<and> rw f * rh f \<le> 2 * (rw b * rh b))"
  using small_area assms by (simp_all add: bigger_strip_def similar_strip_def)

text \<open>A contour that is put at the front keeps the invariant.\<close>

lemma swap_front:
  assumes "strips_inv bound cs n st" "n < length cs" "strict (bound (f_contours st ! n))"
  obtains cs' where "swapIdx (reinserted st) n (f_contours st) = Inr cs'" "mset cs' = mset cs"
    "\<forall>k < Suc (reinserted st). strict (bound (cs' ! k))"
proof -
  let ?r = "reinserted st" and ?v = "f_contours st"
  have l: "length ?v = length cs" using assms(1) by (auto simp: strips_inv_def dest: mset_eq_length)
  have r: "?r \<le> n" "?r < length ?v" "n < length ?v" using assms(1,2) l by (auto simp: strips_inv_def)
  let ?c = "?v[?r := ?v ! n, n := ?v ! ?r]"
  have s: "swapIdx ?r n ?v = Inr ?c" using r by (intro swapIdx_ok)
  have "strict (bound (?c ! k))" if "k < Suc ?r" for k
  proof (cases "k = ?r")
    case True
    then show ?thesis using r assms(3) by (cases "n = ?r") auto
  next
    case False
    then show ?thesis using that r(1) assms(1) by (simp add: strips_inv_def)
  qed
  then show ?thesis using that [OF s] swapIdx_mset [OF s] assms(1) by (auto simp: strips_inv_def)
qed

lemma inv_contour:
  assumes "strips_inv bound cs m st" "n < length cs"
  shows "f_contours st ! n \<in> set cs" "vec_idx (f_contours st) n = Inr (f_contours st ! n)"
proof -
  have "mset (f_contours st) = mset cs" using assms(1) by (simp add: strips_inv_def)
  then have "set (f_contours st) = set cs" "length (f_contours st) = length cs" by (metis set_mset_mset, metis size_mset)
  then show "f_contours st ! n \<in> set cs" "vec_idx (f_contours st) n = Inr (f_contours st ! n)"
    using assms(2) nth_mem [of n "f_contours st"] by (auto simp: vec_idx_def)
qed

lemma inner_step_inv:
  assumes inv: "strips_inv bound cs n st" "in_range st \<noteq> []" and n: "n < length cs"
    and small: "\<forall>c \<in> set cs. small_rect (bound c)"
  shows "\<exists>st'. inner_step bound n st = Inr st' \<and> strips_inv bound cs (Suc n) st' \<and> in_range st' \<noteq> []"
proof -
  let ?b = "bound (f_contours st ! n)" and ?f = "hd (in_range st)"
  note c = inv_contour [OF inv(1) n]
  have b: "small_rect ?b" "?b \<in> bound ` set cs" using c(1) small by auto
  have "?f \<in> set (in_range st)" using inv(2) by simp
  then have f: "small_rect ?f" using inv(1) small by (auto simp: strips_inv_def)
  have i0: "vec_idx (in_range st) 0 = Inr ?f" using inv(2) by (cases "in_range st") (simp_all add: vec_idx_def)
  note ev = c(2) i0 small_distance [OF b(1) f] small_strips [OF b(1) f]
  have inv': "strips_inv bound cs (Suc n) (st\<lparr>rect_buffer := ?b\<rparr>)" using inv(1) by (auto simp: strips_inv_def)
  consider (far) "\<not> size_le \<lparr>sw = \<bar>rx ?b - rx ?f\<bar>, sh = \<bar>ry ?b - ry ?f\<bar>\<rparr> (srange st)"
    | (big) "size_le \<lparr>sw = \<bar>rx ?b - rx ?f\<bar>, sh = \<bar>ry ?b - ry ?f\<bar>\<rparr> (srange st)" "strict ?b \<and> rw ?f * rh ?f < rw ?b * rh ?b"
    | (other) "size_le \<lparr>sw = \<bar>rx ?b - rx ?f\<bar>, sh = \<bar>ry ?b - ry ?f\<bar>\<rparr> (srange st)" "\<not> (strict ?b \<and> rw ?f * rh ?f < rw ?b * rh ?b)"
    by blast
  then show ?thesis
  proof cases
    case far
    then show ?thesis using inv' inv(2) by (simp add: inner_step_def ev Let_def)
  next
    case big
    obtain cs' where cs': "swapIdx (reinserted st) n (f_contours st) = Inr cs'" "mset cs' = mset cs"
      "\<forall>k < Suc (reinserted st). strict (bound (cs' ! k))" using swap_front [OF inv(1) n] big(2) by blast
    show ?thesis using inv(1) big cs' b strict_similar small_size [OF b(1), of 6 3]
      by (auto simp: inner_step_def ev Let_def strips_inv_def)
  next
    case other
    then show ?thesis using inv(1,2) b(2) inv' by (auto simp: inner_step_def ev Let_def strips_inv_def)
  qed
qed


lemma strip_step_inv:
  assumes inv: "strips_inv bound cs n st" "in_range st = []" and n: "n < length cs"
    and small: "\<forall>c \<in> set cs. small_rect (bound c)"
  shows "\<exists>r st'. strip_step bound n st = Inr (r, st') \<and> strips_inv bound cs (length cs) st'
    \<and> (if r then 4 \<le> length (in_range st') \<and> length (in_range st') \<le> 6 else in_range st' = [])"
proof -
  let ?b = "bound (f_contours st ! n)"
  note c = inv_contour [OF inv(1) n]
  have b: "small_rect ?b" "?b \<in> bound ` set cs" using c(1) small by auto
  show ?thesis
  proof (cases "strict ?b")
    case False
    then show ?thesis using inv n by (auto simp: strip_step_def c(2) Let_def strips_inv_def)
  next
    case True
    obtain cs' where cs': "swapIdx (reinserted st) n (f_contours st) = Inr cs'" "mset cs' = mset cs"
      "\<forall>k < Suc (reinserted st). strict (bound (cs' ! k))" using swap_front [OF inv(1) n True] by blast
    let ?st = "st\<lparr>rect_buffer := ?b, in_range := in_range st @ [?b], srange := \<lparr>sw = rw ?b * 7, sh = rh ?b * 4\<rparr>,
      f_contours := cs', reinserted := reinserted st + 1, f_marks := f_marks st @ [MRect ?b]\<rparr>"
    have l: "length cs' = length cs" "reinserted st + 1 \<le> length cs"
      using cs'(2) inv(1) n by (auto simp: strips_inv_def dest: mset_eq_length)
    have "strips_inv bound cs (reinserted ?st) ?st \<and> in_range ?st \<noteq> []"
      using cs' b True strict_similar inv by (auto simp: strips_inv_def)
    then obtain st' where st': "rfold (inner_step bound) [reinserted ?st..<length cs] ?st = Inr st'"
      "strips_inv bound cs (length cs) st'"
      using rfold_from [of "reinserted ?st" "length cs" "\<lambda>i u. strips_inv bound cs i u \<and> in_range u \<noteq> []" ?st "inner_step bound"]
        inner_step_inv [OF _ _ _ small] l(2) by auto
    then show ?thesis using True small_size [OF b(1), of 7 4] cs'(1) l(1)
      by (auto simp: strip_step_def c(2) Let_def inRange_def strips_inv_def)
  qed
qed

lemma strip_loop_inv:
  assumes inv: "strips_inv bound cs (length cs) st" "in_range st = []"
    and small: "\<forall>c \<in> set cs. small_rect (bound c)" and weak: "\<exists>c \<in> set cs. \<not> strict (bound c)"
  shows "\<exists>r st'. strip_loop bound i st = Some (Inr (r, st')) \<and> strips_inv bound cs (length cs) st'
    \<and> (if r then 4 \<le> length (in_range st') \<and> length (in_range st') \<le> 6 else in_range st' = [])"
  using inv
proof (induction "length cs - i" arbitrary: i st rule: less_induct)
  case less
  have m: "mset (f_contours st) = mset cs" using less.prems by (simp add: strips_inv_def)
  then have l: "length (f_contours st) = length cs" "set (f_contours st) = set cs" by (metis size_mset, metis set_mset_mset)
  have "reinserted st \<noteq> length cs"
  proof
    assume e: "reinserted st = length cs"
    obtain c where c: "c \<in> set (f_contours st)" "\<not> strict (bound c)" using weak l(2) by blast
    then obtain k where "k < length cs" "c = f_contours st ! k" using l(1) by (auto simp: in_set_conv_nth)
    then show False using less.prems(1) e c(2) by (simp add: strips_inv_def)
  qed
  then have r: "reinserted st < length cs" using less.prems(1) by (simp add: strips_inv_def)
  show ?case
  proof (cases "i < length cs")
    case False
    then have "strip_loop bound i st = Some (Inr (False, st))" using l by (subst strip_loop.simps) simp
    then show ?thesis using less.prems by auto
  next
    case True
    let ?j = "if i < reinserted st then reinserted st else i"
    have "strips_inv bound cs ?j st" "?j < length cs" using less.prems(1) r True by (auto simp: strips_inv_def)
    then obtain b st1 where s1: "strip_step bound ?j st = Inr (b, st1)" "strips_inv bound cs (length cs) st1"
      "if b then 4 \<le> length (in_range st1) \<and> length (in_range st1) \<le> 6 else in_range st1 = []"
      using strip_step_inv [OF _ less.prems(2) _ small] by blast
    show ?thesis
    proof (cases b)
      case True
      then have "strip_loop bound i st = Some (Inr (True, st1))"
        using \<open>i < length cs\<close> l s1 by (subst strip_loop.simps) (simp add: Let_def)
      then show ?thesis using s1 True by auto
    next
      case False
      then have "strip_loop bound i st = strip_loop bound (?j + 1) st1"
        using \<open>i < length cs\<close> l s1 strip_loop.simps [of bound i st] by (simp add: Let_def)
      moreover have "length cs - (?j + 1) < length cs - i" using \<open>i < length cs\<close> by auto
      ultimately show ?thesis using less.hyps [of "?j + 1" st1] s1(2,3) False by (simp del: strip_loop.simps)
    qed
  qed
qed


text \<open>C16: The search of the strips does not fail if the rectangles of the contours are those of an image and
  at least one contour does not have the shape of a strip. It permutes the contours, and what it finds
  are four to six rectangles, each the rectangle of a contour and of the shape of a strip or similar.\<close>

theorem strip_search_safe:
  assumes "\<forall>c \<in> set cs. small_rect (bound c)" "\<exists>c \<in> set cs. \<not> strict (bound c)"
    and "f_contours st = cs" "in_range st = []" "reinserted st = 0"
  shows "\<exists>found st'. strip_loop bound 0 st = Some (Inr (found, st')) \<and> mset (f_contours st') = mset cs
    \<and> (\<forall>r \<in> set (in_range st'). r \<in> bound ` set cs \<and> ratio_in (3/4) 3 r)
    \<and> (if found then 4 \<le> length (in_range st') \<and> length (in_range st') \<le> 6 else in_range st' = [])"
proof -
  have "strips_inv bound cs (length cs) st" using assms(3-5) by (simp add: strips_inv_def)
  from strip_loop_inv [OF this assms(4,1,2), of 0] show ?thesis unfolding strips_inv_def by blast
qed

text \<open>If all contours are strips the counter runs past the end. Two strips near each other, the second
  greater than the first, are both moved to the front; they are too few to be the hub, and the next
  iteration reads a third contour that does not exist.\<close>

theorem two_strips_out_of_bounds:
  assumes "f_contours st = [c, d]" "in_range st = []" "reinserted st = 0"
    and small: "small_rect (bound c)" "small_rect (bound d)" and "strict (bound c)" "strict (bound d)"
    and "rw (bound c) * rh (bound c) < rw (bound d) * rh (bound d)"
    and "\<bar>rx (bound d) - rx (bound c)\<bar> \<le> 7 * rw (bound c)" "\<bar>ry (bound d) - ry (bound c)\<bar> \<le> 4 * rh (bound c)"
  shows "strip_loop bound 0 st = Some (Inl UB)"
proof -
  have i: "inner_step bound 1 (st\<lparr>rect_buffer := bound c, in_range := [bound c], srange := \<lparr>sw = rw (bound c) * 7, sh = rh (bound c) * 4\<rparr>,
      f_contours := [c, d], reinserted := 1, f_marks := ms\<rparr>)
    = Inr (st\<lparr>rect_buffer := bound d, in_range := [bound d, bound c], srange := \<lparr>sw = rw (bound d) * 6, sh = rh (bound d) * 3\<rparr>,
      f_contours := [c, d], reinserted := 2, f_marks := ms @ [MRect (bound d)]\<rparr>)" for ms
    using assms small_size [OF small(2), of 6 3] small_distance [OF small(2,1)] small_strips [OF small(2,1)]
    by (simp add: inner_step_def Let_def vec_idx_def size_le_def swapIdx_def algebra_simps)
  have "\<exists>st'. strip_step bound 0 st = Inr (False, st') \<and> reinserted st' = 2 \<and> f_contours st' = [c, d]"
    using assms(1-3,6) small_size [OF small(1), of 7 4] i
    by (simp add: strip_step_def Let_def vec_idx_def swapIdx_def inRange_def)
  then obtain st' where st': "strip_step bound 0 st = Inr (False, st')" "reinserted st' = 2" "f_contours st' = [c, d]" by blast
  have "strip_step bound 2 st' = Inl UB" using st' by (simp add: strip_step_def vec_idx_def)
  then have "strip_loop bound 1 st' = Some (Inl UB)" using st' by (subst strip_loop.simps) (simp add: Let_def)
  then show ?thesis using st'(1) assms(1,3) by (subst strip_loop.simps) (simp add: Let_def)
qed


text \<open>Examples, in which a contour is a single point and its rectangle 20 wide and as high as its second
  coordinate.\<close>

definition demo_bound :: "Point list \<Rightarrow> Rect" where
  "demo_bound c = \<lparr>rx = px (hd c), ry = 0, rw = 2 * py (hd c), rh = py (hd c)\<rparr>"

definition demo_strips :: "Point list list \<Rightarrow> strips" where
  "demo_strips cs = \<lparr>f_contours = cs, in_range = [], rect_buffer = \<lparr>rx = 0, ry = 0, rw = 0, rh = 0\<rparr>, srange = \<lparr>sw = 0, sh = 0\<rparr>,
     reinserted = 0, f_marks = []\<rparr>"

theorem strip_search_safe_witness:
  "\<exists>found st'. strip_loop demo_bound 0 (demo_strips [[\<lparr>px = 0, py = 0\<rparr>], [\<lparr>px = 5, py = 10\<rparr>]]) = Some (Inr (found, st'))
     \<and> mset (f_contours st') = {# [\<lparr>px = 0, py = 0\<rparr>], [\<lparr>px = 5, py = 10\<rparr>] #}"
proof -
  let ?cs = "[[\<lparr>px = 0, py = 0\<rparr>], [\<lparr>px = 5, py = 10\<rparr>]] :: Point list list"
  have "\<forall>c \<in> set ?cs. small_rect (demo_bound c)" by (simp add: demo_bound_def small_rect_def)
  moreover have "\<exists>c \<in> set ?cs. \<not> strict (demo_bound c)" by (simp add: demo_bound_def ratio_in_def)
  ultimately show ?thesis using strip_search_safe [of ?cs demo_bound "demo_strips ?cs"] by (force simp: demo_strips_def)
qed

theorem two_strips_out_of_bounds_witness:
  "strip_loop demo_bound 0 (demo_strips [[\<lparr>px = 0, py = 10\<rparr>], [\<lparr>px = 25, py = 11\<rparr>]]) = Some (Inl UB)"
  by (rule two_strips_out_of_bounds [of _ "[\<lparr>px = 0, py = 10\<rparr>]" "[\<lparr>px = 25, py = 11\<rparr>]"])
    (simp_all add: demo_strips_def demo_bound_def small_rect_def ratio_in_def)

subsection \<open>The points of the hub\<close>

lemma rbind_right: "rbind m Inr = m"
  by (cases m) simp_all

lemma rmap_vec_idx: "n \<le> length xs \<Longrightarrow> rmap (vec_idx xs) [0..<n] = Inr (take n xs)"
proof (induction n)
  case (Suc n)
  have "rmap f (as @ [a]) = rbind (rmap f as) (\<lambda>ys. rbind (f a) (\<lambda>y. Inr (ys @ [y])))" for f :: "nat \<Rightarrow> 'a res" and as a
    by (induction as) (simp_all add: rbind_assoc)
  then show ?case using Suc by (simp add: vec_idx_ok take_Suc_conv_app_nth)
qed simp

lemma rmap_vec_idx_oob: "length xs < n \<Longrightarrow> rmap (vec_idx xs) [0..<n] = Inl UB"
proof -
  assume n: "length xs < n"
  have "rmap f (as @ bs) = rbind (rmap f as) (\<lambda>ys. rbind (rmap f bs) (\<lambda>zs. Inr (ys @ zs)))" for f :: "nat \<Rightarrow> 'a res" and as bs
    by (induction as) (simp_all add: rbind_assoc rbind_right)
  moreover have "[0..<n] = [0..<length xs] @ length xs # [Suc (length xs)..<n]"
    using n by (metis less_imp_add_positive upt_add_eq_append upt_conv_Cons zero_le)
  ultimately show ?thesis by (simp add: rmap_vec_idx vec_idx_oob)
qed

lemma hub_world_length: "length hub_world = 6" by (simp add: hub_world_def)

text \<open>Sorting the points of the hub puts them in order from left to right and matches the \<open>i\<close>-th with the \<open>i\<close>-th
  strip of the model, for up to six points; for more it reads past the end of the model.\<close>

theorem hub_sort_matches:
  "(length (h_points h) \<le> 6 \<longrightarrow> (\<exists>h'. hub_sort h = Inr h' \<and> mset (h_points h') = mset (h_points h)
      \<and> sorted (map fx (h_points h')) \<and> h_match h' = take (length (h_points h)) hub_world))
   \<and> (length (h_points h) > 6 \<longrightarrow> hub_sort h = Inl UB)
   \<and> (\<exists>h'. hub_sort_points contour h = Inr h' \<and> length (h_match h') = length (h_points h') \<and> length (h_points h') = min 6 (length contour))"
  by (auto simp: hub_sort_def hub_sort_points_def matchWorld_def Let_def rmap_vec_idx rmap_vec_idx_oob hub_world_length min_def)

theorem hub_sort_matches_witness:
  "\<exists>h'. hub_sort (hub_add \<lparr>fx = 1, fy = 2\<rparr> (hub_add \<lparr>fx = 5, fy = 2\<rparr> (resetPoints UpperHub))) = Inr h'
     \<and> h_match h' = [(0, 103, 2673803044 / 10 ^ 8), (1023220126 / 10 ^ 8, 103, 2470271906 / 10 ^ 8)]
   \<and> hub_sort (hub_add Point2f0 UpperHub) = Inl UB"
  using hub_sort_matches [of "hub_add \<lparr>fx = 1, fy = 2\<rparr> (hub_add \<lparr>fx = 5, fy = 2\<rparr> (resetPoints UpperHub))" "[]"]
    hub_sort_matches [of "hub_add Point2f0 UpperHub" "[]"]
  by (auto simp: hub_add_def resetPoints_def UpperHub_def hub_world_def numeral_2_eq_2)

subsection \<open>The report of a hub that is found\<close>

lemma small_center: "small_rect r \<Longrightarrow> \<exists>p. findCenter_rect_f r = Inr p"
  by (auto simp: findCenter_rect_f_def small_rect_def chk_def)

lemma rmap_total: "\<forall>x \<in> set xs. \<exists>y. f x = Inr y \<Longrightarrow> \<exists>ys. rmap f xs = Inr ys \<and> length ys = length xs"
  by (induction xs) force+

lemma hub_add_all: "fold hub_add ps h = h\<lparr>h_points := h_points h @ ps\<rparr>"
  by (induction ps arbitrary: h) (simp_all add: hub_add_def)

lemma hub_sort_ok:
  "length (h_points h) \<le> 6 \<Longrightarrow> hub_sort h = Inr \<lparr>h_points = sort_key fx (h_points h), h_match = take (length (h_points h)) hub_world\<rparr>"
  by (simp add: hub_sort_def matchWorld_def rmap_vec_idx hub_world_length)

text \<open>What the pipeline relies on in OpenCV: the solvers of the perspective succeed for at least four points
  and their matches, and \<^verbatim>\<open>projectPoints\<close> returns as many points as it is given.\<close>

definition pnp_ok :: "pnp_lib \<Rightarrow> cv_shape \<Rightarrow> bool" where
  "pnp_ok P gm \<longleftrightarrow> (\<forall>w ps. length w = length ps \<and> 4 \<le> length ps \<longrightarrow> (\<exists>q. ippe P w ps = Inr q) \<and> (\<forall>g. \<exists>q. refine P w ps g = Inr q))
     \<and> (\<forall>w rv tv. length (project gm w rv tv) = length w)"

lemma hub_report_ok:
  assumes "pnp_ok P gm" "\<forall>r \<in> set (in_range (sf_strips sf)). small_rect r"
    and n: "4 \<le> length (in_range (sf_strips sf))" "length (in_range (sf_strips sf)) \<le> 6"
  shows "\<exists>sf'. hub_report P gm now sf s = Inr (sf', updateTarget ''Upper-Hub'' now s)
    \<and> sf_ws sf' = sf_ws sf \<and> in_range (sf_strips sf') = in_range (sf_strips sf)
    \<and> length (h_points (sf_hub sf')) = length (in_range (sf_strips sf)) \<and> sorted (map fx (h_points (sf_hub sf')))
    \<and> h_match (sf_hub sf') = take (length (in_range (sf_strips sf))) hub_world
    \<and> sf_puts sf' = sf_puts sf @ hub_puts (t_table hub_target) (sf_tvec sf')"
proof -
  let ?n = "length (in_range (sf_strips sf))"
  obtain ps where ps: "rmap findCenter_rect_f (in_range (sf_strips sf)) = Inr ps" "length ps = ?n"
    using rmap_total [of _ findCenter_rect_f] small_center assms(2) by metis
  let ?h = "\<lparr>h_points = sort_key fx ps, h_match = take ?n hub_world\<rparr>"
  have h: "hub_sort (fold hub_add ps (resetPoints (sf_hub sf))) = Inr ?h"
    using hub_sort_ok [of "fold hub_add ps (resetPoints (sf_hub sf))"] ps(2) n by (simp add: hub_add_all resetPoints_def)
  have "length (h_match ?h) = length (h_points ?h) \<and> 4 \<le> length (h_points ?h)" using ps(2) n by (simp add: hub_world_length)
  with assms(1) obtain a b where ab: "ippe P (h_match ?h) (h_points ?h) = Inr (a, b)"
    and r: "\<forall>g. \<exists>q. refine P (h_match ?h) (h_points ?h) g = Inr q" unfolding pnp_ok_def by (metis surj_pair)
  obtain tv rv where q: "refine P (h_match ?h) (h_points ?h) (if grade a > grade b then a else b) = Inr (tv, rv)"
    using r by (metis surj_pair)
  have "length (project gm hub_pose3D rv tv) = length hub_pose3D" using assms(1) unfolding pnp_ok_def by blast
  then have "length (project gm hub_pose3D rv tv) = 4" by (simp add: hub_pose3D_def)
  then have "\<exists>ls. hub_axes (project gm hub_pose3D rv tv) = Inr ls" by (simp add: hub_axes_def vec_idx_def)
  then show ?thesis using ps h ab q
    by (auto simp: hub_report_def hub_solvePerspective_def Let_def hub_target_def vs1_Target_named_def)
qed

subsection \<open>The angle\<close>

lemma arccos_Arg:
  assumes "x \<noteq> 0 \<or> 0 < z"
  shows "arccos (z / sqrt (x ^ 2 + z ^ 2)) * sgn x = Arg (Complex z x)"
proof -
  let ?c = "Complex z x"
  have c: "?c \<noteq> 0" using assms by (auto simp: complex_eq_iff)
  have n: "sqrt (x ^ 2 + z ^ 2) = norm ?c" by (simp add: complex_norm add.commute)
  have "?c = complex_of_real (norm ?c) * cis (Arg ?c)" by (metis rcis_cmod_Arg rcis_def)
  then have re: "z = norm ?c * cos (Arg ?c)" and im: "x = norm ?c * sin (Arg ?c)" by (auto simp: complex_eq_iff)
  have q: "z / sqrt (x ^ 2 + z ^ 2) = cos (Arg ?c)" using re c unfolding n by (metis nonzero_mult_div_cancel_left norm_eq_zero)
  have b: "- pi < Arg ?c" "Arg ?c \<le> pi" using Arg_bounded [of ?c] by auto
  have p: "0 < norm ?c" using c by simp
  consider "0 < x" | "x < 0" | "x = 0" "0 < z" using assms by linarith
  then show ?thesis
  proof cases
    case 1
    then have "0 < sin (Arg ?c)" using im p by (metis zero_less_mult_pos)
    then have "0 \<le> Arg ?c" using b(1) sin_lt_zero [of "- Arg ?c + pi"] sin_ge_zero [of "- Arg ?c"] by (cases "0 \<le> Arg ?c") auto
    then show ?thesis using 1 b(2) unfolding q by (simp add: arccos_cos)
  next
    case 2
    then have "sin (Arg ?c) < 0" using im p by (metis mult_less_0_iff less_asym)
    then have "Arg ?c \<le> 0" using b(2) sin_ge_zero [of "Arg ?c"] by (cases "Arg ?c \<le> 0") auto
    then show ?thesis using 2 b(1) unfolding q using arccos_cos [of "- Arg ?c"] by simp
  next
    case 3
    then have "Complex z x = complex_of_real z" by (simp add: complex_eq_iff)
    moreover have "Arg (complex_of_real z) = 0" using 3 by (intro cis_Arg_unique) (simp_all add: sgn_eq)
    ultimately show ?thesis using 3 by simp
  qed
qed


text \<open>The two formulas for the angle to the left or right agree: the arc cosine with the sign of \<open>x\<close> that
  \<^verbatim>\<open>UpperHub\<close> publishes and the \<^verbatim>\<open>atan2\<close> of \<^verbatim>\<open>Target\<close>, for every translation that is not straight
  behind the camera or at it. Straight behind, the first publishes 0 instead of 180 degrees.\<close>

theorem hub_angle_agrees:
  "(fst v \<noteq> 0 \<or> 0 < snd (snd v) \<longrightarrow> last (hub_puts p v) = last (target_puts p v) \<and> take 4 (hub_puts p v) = take 4 (target_puts p v))
   \<and> last (hub_puts p (0, y, - 1)) = (p, ''left-right'', Some 0) \<and> last (target_puts p (0, y, - 1)) = (p, ''left-right'', Some 180)"
proof (intro conjI impI)
  assume a: "fst v \<noteq> 0 \<or> 0 < snd (snd v)"
  let ?x = "of_rat (fst v) :: real" and ?z = "of_rat (snd (snd v)) :: real"
  have "?x \<noteq> 0 \<or> 0 < ?z" using a by simp
  then have e: "arccos (?z / sqrt (?x ^ 2 + ?z ^ 2)) * sgn ?x = atan2 ?x ?z" unfolding atan2_def by (rule arccos_Arg)
  have "arccos (?z / sqrt (?x ^ 2 + ?z ^ 2)) * 180 / pi * sgn ?x = (arccos (?z / sqrt (?x ^ 2 + ?z ^ 2)) * sgn ?x) * 180 / pi" by simp
  also have "\<dots> = atan2 ?x ?z * 180 / pi" unfolding e ..
  finally have "arccos (?z / sqrt (?x ^ 2 + ?z ^ 2)) * 180 / pi * sgn ?x = atan2 ?x ?z * 180 / pi" .
  then show "last (hub_puts p v) = last (target_puts p v)" using a by (auto simp: hub_puts_def target_puts_def Let_def)
next
  show "take 4 (hub_puts p v) = take 4 (target_puts p v)" by (simp add: hub_puts_def target_puts_def Let_def position_puts_def)
next
  show "last (hub_puts p (0, y, - 1)) = (p, ''left-right'', Some 0)" by (simp add: hub_puts_def Let_def)
  have "Arg (Complex (- 1) 0) = pi" by (intro cis_Arg_unique) (simp_all add: complex_eq_iff sgn_eq complex_norm)
  then show "last (target_puts p (0, y, - 1)) = (p, ''left-right'', Some 180)" by (simp add: target_puts_def Let_def atan2_def)
qed

theorem hub_angle_agrees_witness: "last (hub_puts vs1_targets (3, 0, 4)) = last (target_puts vs1_targets (3, 0, 4))"
  using hub_angle_agrees [of "(3, 0, 4)" vs1_targets] by simp

end
