(* ===== verification/Cargo.thy ===== *)
theory Cargo
  imports Legacy_Target
begin

text \<open>
  The pipeline for the cargo of 2022 (\<^verbatim>\<open>vs1-legacy/2022/rapidreact.h\<close>, \<^verbatim>\<open>rapidreact.cpp\<close> and
  \<^verbatim>\<open>rapidreact.inc\<close>): the filter for balls of one color, \<^verbatim>\<open>CargoFinder::BallFilter\<close>, and the pipeline that
  runs one for each color, \<^verbatim>\<open>CargoFinder\<close>. A filter works in a thread of its own between
  \<^verbatim>\<open>launchThresholding\<close> and \<^verbatim>\<open>join\<close>. The two threads share the frame, on which both draw, and read
  the channels of the red filter; each changes its own filter only, and so a thread is run where it is
  joined. The demonstration with tennis balls is not compiled.
\<close>

subsection \<open>Balls\<close>

datatype CargoColor = C_NONE | C_RED | C_BLUE | C_BOTH

primrec cargo_code :: "CargoColor \<Rightarrow> nat" where
  "cargo_code C_NONE = 0" | "cargo_code C_RED = 1" | "cargo_code C_BLUE = 2" | "cargo_code C_BOTH = 3"

record CargoOutline =
  o_center :: Point2f
  o_radius :: rat
  o_color :: CargoColor

definition CargoOutline0 :: CargoOutline where
  "CargoOutline0 = \<lparr>o_center = Point2f0, o_radius = 0, o_color = C_NONE\<rparr>"

definition Cargo :: "nat \<Rightarrow> CargoColor \<Rightarrow> vs1_target" where
  "Cargo idx color = vs1_Target_named [(- 19/4, 0, 0), (0, 19/4, 0), (19/4, 0, 0), (0, - 19/4, 0)]
     (''Cargo-'' @ to_string idx @ (if cargo_code color = 1 then ''r'' else ''b''))"

definition cargo_sort :: "CargoOutline \<Rightarrow> vs1_target \<Rightarrow> vs1_target" where
  "cargo_sort ol t = (let x = fx (o_center ol); y = fy (o_center ol); r = o_radius ol in
     t\<lparr>t_points := [\<lparr>fx = x - r, fy = y\<rparr>, \<lparr>fx = x, fy = y - r\<rparr>, \<lparr>fx = x + r, fy = y\<rparr>, \<lparr>fx = x, fy = y + r\<rparr>]\<rparr>)"

subsection \<open>The filter for one color\<close>

record ball =
  b_ws :: wsub
  b_contours :: "Point list Contours"
  filtered :: "CargoOutline list"
  outline_buffer :: CargoOutline
  max_val :: rat
  worker :: bool
  b_marks :: "mark list"

text \<open>What the filter uses of OpenCV besides \<open>cv_lib\<close> and \<open>cv_shape\<close>: the least circle around a contour.\<close>

type_synonym circle_fn = "Point list \<Rightarrow> Point2f \<times> rat"

definition CV_PI :: rat where
  "CV_PI = 31415926535897932384626433832795 / 10 ^ 31"

definition BallFilter :: "nat \<Rightarrow> nat \<Rightarrow> nat \<Rightarrow> cv_lib \<Rightarrow> vs1_server \<Rightarrow> ball res" where
  "BallFilter al be pc cv s = rbind (WeightedSubtraction cv s) (\<lambda>ws.
     Inr \<lparr>b_ws = ws\<lparr>alpha := of_nat al / 100, beta := of_nat be / 100, gamma := of_nat pc / 100\<rparr>,
          b_contours = Contours0, filtered = [], outline_buffer = CargoOutline0, max_val = 0, worker = False, b_marks = []\<rparr>)"

definition cargo_of :: "LED \<Rightarrow> CargoColor" where
  "cargo_of primary = (if primary = BLUE then C_BLUE else if primary = RED then C_RED else C_NONE)"

definition resetTargetIdx :: "ball \<Rightarrow> ball" where
  "resetTargetIdx b = b\<lparr>b_contours := (b_contours b)\<lparr>target_idx := - 1\<rparr>\<rparr>"

text \<open>Whether a contour that is large enough fills its circle.\<close>

definition round_enough :: "cv_shape \<Rightarrow> Point list \<Rightarrow> rat \<Rightarrow> bool" where
  "round_enough gm c r \<longleftrightarrow> (case dbl_div (Fin (contour_area gm (convex_hull gm c))) (Fin (CV_PI * r ^ 2)) of
     Fin q \<Rightarrow> q > 8/10 | PosInf \<Rightarrow> True | _ \<Rightarrow> False)"

text \<open>The loop body: \<open>lo\<close> is the five-hundredth part of the area of the image.\<close>

definition accept_ball :: "LED \<Rightarrow> ball \<Rightarrow> ball" where
  "accept_ball primary b =
     (let k = scale (b_ws b); ol = outline_buffer b;
          ol = ol\<lparr>o_color := cargo_of primary,
                o_center := \<lparr>fx = fx (o_center ol) * of_int (c_int k), fy = fy (o_center ol) * of_int (c_int k)\<rparr>,
                o_radius := o_radius ol * of_nat k\<rparr>;
          b = b\<lparr>outline_buffer := ol, filtered := filtered b @ [ol]\<rparr>;
          b = (if o_radius ol > area_largest (b_contours b)
               then b\<lparr>b_contours := (b_contours b)\<lparr>target_idx := int16 (int (length (filtered b)) - 1), area_largest := o_radius ol\<rparr>\<rparr>
               else b)
      in b\<lparr>b_marks := b_marks b @ [MCircle (o_center ol) (o_radius ol)]\<rparr>)"

definition filter_step :: "cv_shape \<Rightarrow> circle_fn \<Rightarrow> LED \<Rightarrow> bool \<Rightarrow> rat \<Rightarrow> nat \<Rightarrow> ball \<Rightarrow> ball res" where
  "filter_step gm circ primary showc lo i b =
     (let c = contours (b_contours b) ! i in
      if contour_area gm c > lo then
        let (ce, r) = circ c;
            b = b\<lparr>outline_buffer := (outline_buffer b)\<lparr>o_center := ce, o_radius := r\<rparr>\<rparr>;
            b = (if round_enough gm c r then accept_ball primary b else b)
        in if showc then rbind (rescale_up (scale (b_ws b)) c) (\<lambda>c'.
             Inr (b\<lparr>b_contours := (b_contours b)\<lparr>contours := (contours (b_contours b))[i := c']\<rparr>,
                    b_marks := b_marks b @ [MContour i]\<rparr>))
           else Inr b
      else Inr b)"

definition max_pixel :: "byte list \<Rightarrow> rat" where
  "max_pixel bs = of_nat (fold (\<lambda>p m. max (unat p) m) bs 0)"

text \<open>The parts of \<^verbatim>\<open>BallFilter::threshold\<close>: the difference of the channels, and the search in the binary image.\<close>

definition ball_difference :: "cv_lib \<Rightarrow> LED \<Rightarrow> byte img list \<Rightarrow> wsub \<Rightarrow> wsub" where
  "ball_difference cv primary ch w =
     (let ws = weighted_array ! LED_code primary;
          w = w\<lparr>binary := addWeighted cv (ch ! (ws ! 0)) (alpha w) (ch ! (ws ! 1)) (beta w) 0\<rparr>
      in w\<lparr>binary := subtract cv (ch ! LED_code primary) (binary w)\<rparr>)"

definition ball_search :: "cv_shape \<Rightarrow> circle_fn \<Rightarrow> LED \<Rightarrow> (nat \<Rightarrow> bool) \<Rightarrow> ball \<Rightarrow> ball res" where
  "ball_search gm circ primary showc b =
     (let bin = binary (b_ws b);
          b = b\<lparr>b_contours := (snd (findContours (find_contours gm bin) (b_contours b)))\<lparr>target_idx := - 1, area_largest := 0\<rparr>,
                filtered := []\<rparr> in
      rbind (chk (sw (isz bin) * sh (isz bin))) (\<lambda>a.
      rfold (\<lambda>i. filter_step gm circ primary (showc i) (of_int a / 500) i) [0..<length (contours (b_contours b))] b))"

text \<open>\<^verbatim>\<open>BallFilter::threshold\<close>: \<open>show\<close> is what it reads of the entry "Show Threshold", \<open>showc i\<close> what it reads of
  "Show Contours" at contour \<open>i\<close>.\<close>

definition ball_threshold ::
    "cv_lib \<Rightarrow> cv_shape \<Rightarrow> circle_fn \<Rightarrow> LED \<Rightarrow> bool \<Rightarrow> (nat \<Rightarrow> bool) \<Rightarrow> byte img list \<Rightarrow> ball \<Rightarrow> ball option res" where
  "ball_threshold cv gm circ primary show showc ch b =
     (let w = ball_difference cv primary ch (b_ws b); m = max_pixel (pix (binary w))
      in case run_in_place vs1_memcpy_threshold_asm (of_int (rat_trunc (m * gamma w))) (pix (binary w)) of
           None \<Rightarrow> Inr None
         | Some bs \<Rightarrow>
           let w = w\<lparr>binary := (binary w)\<lparr>pix := bs\<rparr>\<rparr> in
           rbind (if show then rbind (ws_fromBinary cv w) (\<lambda>(f, w). Inr (w\<lparr>buffer := f\<rparr>)) else Inr w) (\<lambda>w.
           rbind (ball_search gm circ primary showc (b\<lparr>b_ws := w, max_val := m\<rparr>)) (\<lambda>b. Inr (Some b))))"

definition launchThresholding :: "ball \<Rightarrow> bool \<times> ball" where
  "launchThresholding b = (if \<not> worker b then (True, b\<lparr>worker := True\<rparr>) else (False, b))"

definition ball_join ::
    "cv_lib \<Rightarrow> cv_shape \<Rightarrow> circle_fn \<Rightarrow> LED \<Rightarrow> bool \<Rightarrow> (nat \<Rightarrow> bool) \<Rightarrow> byte img list \<Rightarrow> ball \<Rightarrow> (bool \<times> ball) option res" where
  "ball_join cv gm circ primary show showc ch b =
     (if worker b then rbind (ball_threshold cv gm circ primary show showc ch b) (\<lambda>r.
        Inr (map_option (\<lambda>b. (True, b\<lparr>worker := False\<rparr>)) r))
      else Inr (Some (False, b)))"

subsection \<open>The pipeline\<close>

record cargo =
  c_red :: ball
  c_blue :: ball
  red_c :: vs1_target
  blue_c :: vs1_target
  c_tvec :: vec3
  c_rvec :: vec3
  c_frame :: "bgr img"
  c_puts :: puts

definition CargoFinder :: "cv_lib \<Rightarrow> vs1_server \<Rightarrow> (cargo \<times> log) res" where
  "CargoFinder cv s = rbind (BallFilter 100 100 30 cv s) (\<lambda>r. rbind (BallFilter 20 100 15 cv s) (\<lambda>b.
     let p = ptable (vs1_VPipeline ''Cargo Pipeline'') in
     Inr (\<lparr>c_red = r, c_blue = b, red_c = Cargo 1 C_RED, blue_c = Cargo 1 C_BLUE, c_tvec = (0, 0, 0), c_rvec = (0, 0, 0),
           c_frame = empty_img, c_puts = []\<rparr>,
          [NtPut p ''Process Red'' (NtBoolean True), NtPut p ''Process Blue'' (NtBoolean True),
           NtPut p ''Show Threshold'' (NtBoolean False), NtPut p ''Show Contours'' (NtBoolean False),
           NtPut p ''Scaling'' (NtDouble (Fin 1)), NtAddEntryListener p ''Scaling''])))"

definition set_scale :: "nat \<Rightarrow> ball \<Rightarrow> ball" where
  "set_scale k b = b\<lparr>b_ws := (b_ws b)\<lparr>scale := k\<rparr>\<rparr>"

definition dbl_pos :: "dbl \<Rightarrow> bool" where
  "dbl_pos d = (case d of Fin r \<Rightarrow> r > 0 | PosInf \<Rightarrow> True | _ \<Rightarrow> False)"

definition scaling_listener :: "nt_val \<Rightarrow> cargo \<Rightarrow> cargo" where
  "scaling_listener v c = (case v of
       NtDouble d \<Rightarrow> (let k = nat (fcvtzu64 (if dbl_pos d then d else Fin 1)) in
         c\<lparr>c_red := set_scale k (c_red c), c_blue := set_scale k (c_blue c)\<rparr>)
     | _ \<Rightarrow> c)"

text \<open>The buffers of a filter that is in use follow the size of the frame.\<close>

definition fit_buffers :: "cv_lib \<Rightarrow> Size \<Rightarrow> bool \<Rightarrow> ball \<Rightarrow> ball res" where
  "fit_buffers cv sz use b = rbind (size_times (isz (buffer (b_ws b))) (c_int (scale (b_ws b)))) (\<lambda>bs.
     if sz \<noteq> bs \<and> use then rbind (resizeBuffers cv sz (b_ws b)) (\<lambda>w. Inr (b\<lparr>b_ws := w\<rparr>)) else Inr b)"

text \<open>A filter is launched if its color is processed; otherwise its buffer is cleared for the display.\<close>

definition launch_or_clear :: "bool \<Rightarrow> bool \<Rightarrow> bgr img \<Rightarrow> ball \<Rightarrow> ball" where
  "launch_or_clear use show zeros b =
     (if use then snd (launchThresholding b)
      else if show then b\<lparr>b_ws := (b_ws b)\<lparr>buffer := zeros\<rparr>\<rparr> else b)"

text \<open>Solving for the target of one color; it is made the active target only if \<open>alone\<close> holds.\<close>

definition solve_ball ::
    "cv_shape \<Rightarrow> int \<Rightarrow> bool \<Rightarrow> ball \<Rightarrow> vs1_target \<Rightarrow> vs1_server \<Rightarrow> (vs1_target \<times> vec3 \<times> vec3 \<times> puts \<times> vs1_server) res" where
  "solve_ball gm now alone b t s =
     rbind (vec_idx (filtered b) (getTargetIdx (b_contours b))) (\<lambda>ol.
     let t = cargo_sort ol t in
     rbind (solvePerspective (solve_pnp gm) t) (\<lambda>(tvec, rvec, ps).
     Inr (t, tvec, rvec, ps, if alone then updateTarget (t_name t) now s else s)))"

definition report_red :: "cv_shape \<Rightarrow> int \<Rightarrow> bool \<Rightarrow> cargo \<Rightarrow> vs1_server \<Rightarrow> (cargo \<times> vs1_server) res" where
  "report_red gm now use c s =
     (if validTarget (b_contours (c_red c)) \<and> use then
        rbind (solve_ball gm now (\<not> validTarget (b_contours (c_blue c))) (c_red c) (red_c c) s) (\<lambda>(t, tvec, rvec, ps, s).
        Inr (c\<lparr>red_c := t, c_tvec := tvec, c_rvec := rvec, c_puts := c_puts c @ ps\<rparr>, s))
      else Inr (c, s))"

definition report_blue :: "cv_shape \<Rightarrow> int \<Rightarrow> bool \<Rightarrow> cargo \<Rightarrow> vs1_server \<Rightarrow> (cargo \<times> vs1_server) res" where
  "report_blue gm now use c s =
     (if validTarget (b_contours (c_blue c)) \<and> use then
        rbind (solve_ball gm now (\<not> validTarget (b_contours (c_red c))) (c_blue c) (blue_c c) s) (\<lambda>(t, tvec, rvec, ps, s).
        Inr (c\<lparr>blue_c := t, c_tvec := tvec, c_rvec := rvec, c_puts := c_puts c @ ps\<rparr>, s))
      else Inr (c, s))"

text \<open>What a frame reads: the entries "Process Red" and "Process Blue"; the entry "Show Threshold", once by \<^verbatim>\<open>process\<close> and once by
  each filter; and "Show Contours", by a filter at each contour.\<close>

record cargo_in =
  do_red :: bool
  do_blue :: bool
  show_bin :: bool
  red_bin :: bool
  blue_bin :: bool
  red_lines :: "nat \<Rightarrow> bool"
  blue_lines :: "nat \<Rightarrow> bool"
  at_time :: int

text \<open>\<open>zeros\<close> is the black image of the size of the frame, \<open>bor\<close> is \<^verbatim>\<open>cv::bitwise_or\<close>.\<close>

definition cargo_filter ::
    "cv_lib \<Rightarrow> cv_shape \<Rightarrow> circle_fn \<Rightarrow> (Size \<Rightarrow> bgr img) \<Rightarrow> cargo_in \<Rightarrow> bgr img \<Rightarrow> cargo \<Rightarrow> cargo option res" where
  "cargo_filter cv gm circ zeros rd frame c =
     rbind (fit_buffers cv (isz frame) (do_red rd) (resetTargetIdx (c_red c))) (\<lambda>r.
     rbind (fit_buffers cv (isz frame) (do_blue rd) (resetTargetIdx (c_blue c))) (\<lambda>b.
     rbind (resize cv frame (dbl_div (Fin 1) (Fin (of_nat (scale (b_ws r)))))) (\<lambda>buf.
     let ch = img_split buf;
         r = r\<lparr>b_ws := (b_ws r)\<lparr>buffer := buf, wchannels := ch\<rparr>\<rparr>;
         r = launch_or_clear (do_red rd) (show_bin rd) (zeros (isz frame)) r;
         b = launch_or_clear (do_blue rd) (show_bin rd) (zeros (isz frame)) b in
     rbind (ball_join cv gm circ RED (red_bin rd) (red_lines rd) ch r) (\<lambda>r'.
     rbind (ball_join cv gm circ BLUE (blue_bin rd) (blue_lines rd) ch b) (\<lambda>b'.
     Inr (case (r', b') of (Some (_, r), Some (_, b)) \<Rightarrow> Some (c\<lparr>c_red := r, c_blue := b, c_frame := frame\<rparr>) | _ \<Rightarrow> None))))))"

definition cargo_process ::
    "cv_lib \<Rightarrow> cv_shape \<Rightarrow> circle_fn \<Rightarrow> (Size \<Rightarrow> bgr img) \<Rightarrow> (bgr img \<Rightarrow> bgr img \<Rightarrow> bgr img res) \<Rightarrow> cargo_in \<Rightarrow>
     bgr img \<Rightarrow> cargo \<Rightarrow> vs1_server \<Rightarrow> (cargo \<times> vs1_server) option res" where
  "cargo_process cv gm circ zeros bor rd frame c s =
     rbind (cargo_filter cv gm circ zeros rd frame c) (\<lambda>x. case x of None \<Rightarrow> Inr None | Some c \<Rightarrow>
     rbind (if show_bin rd then rbind (bor (buffer (b_ws (c_red c))) (buffer (b_ws (c_blue c)))) (\<lambda>f. Inr (c\<lparr>c_frame := f\<rparr>)) else Inr c) (\<lambda>c.
     rbind (report_red gm (at_time rd) (do_red rd) c s) (\<lambda>(c, s).
     rbind (report_blue gm (at_time rd) (do_blue rd) c s) (\<lambda>x. Inr (Some x)))))"

end
