(* ===== verification/Cargo_Props.thy ===== *)
theory Cargo_Props
  imports Cargo Legacy_Target_Props
begin

text \<open>
  Properties of the cargo pipeline: what the filter of a color keeps and which ball it selects, and
  which target becomes the active one.
\<close>

subsection \<open>The filter\<close>

definition accepted :: "cv_shape \<Rightarrow> circle_fn \<Rightarrow> rat \<Rightarrow> Point list \<Rightarrow> bool" where
  "accepted gm circ lo c \<longleftrightarrow> contour_area gm c > lo \<and> round_enough gm c (snd (circ c))"

definition outline :: "circle_fn \<Rightarrow> LED \<Rightarrow> nat \<Rightarrow> Point list \<Rightarrow> CargoOutline" where
  "outline circ primary k c = \<lparr>o_center = \<lparr>fx = fx (fst (circ c)) * of_int (c_int k), fy = fy (fst (circ c)) * of_int (c_int k)\<rparr>,
     o_radius = snd (circ c) * of_nat k, o_color = cargo_of primary\<rparr>"

text \<open>The selected ball: the first of those with the greatest radius, if any radius is positive.\<close>

definition selected_ball :: "rat list \<Rightarrow> int \<Rightarrow> rat \<Rightarrow> bool" where
  "selected_ball rs idx big \<longleftrightarrow>
     (if \<exists>r \<in> set rs. 0 < r
      then \<exists>i < length rs. idx = int i \<and> big = rs ! i \<and> 0 < big \<and> (\<forall>j < length rs. rs ! j \<le> rs ! i) \<and> (\<forall>j < i. rs ! j < rs ! i)
      else idx = - 1 \<and> big = 0)"

lemma selected_snoc:
  assumes "selected_ball rs idx big"
  shows "selected_ball (rs @ [r]) (if r > big then int (length rs) else idx) (if r > big then r else big)"
proof (cases "\<exists>q \<in> set rs. 0 < q")
  case True
  then obtain i where i: "i < length rs" "idx = int i" "big = rs ! i" "0 < big" "\<forall>j < length rs. rs ! j \<le> rs ! i" "\<forall>j < i. rs ! j < rs ! i"
    using assms by (auto simp: selected_ball_def)
  have pos: "\<exists>q \<in> set (rs @ [r]). 0 < q" using True by auto
  show ?thesis
  proof (cases "r > big")
    case True
    have "rs ! j < r" if "j < length rs" for j using i(3,5) that True by (metis le_less_trans)
    then show ?thesis using True pos i(4) unfolding selected_ball_def
      by (simp only: if_P) (intro exI [of _ "length rs"], auto simp: nth_append less_Suc_eq less_imp_le)
  next
    case False
    then show ?thesis using pos i unfolding selected_ball_def
      by (simp only: if_P if_False) (intro exI [of _ i], auto simp: nth_append less_Suc_eq)
  qed
next
  case False
  then have e: "idx = - 1" "big = 0" using assms by (auto simp: selected_ball_def)
  show ?thesis
  proof (cases "r > 0")
    case True
    have "rs ! j \<le> 0" if "j < length rs" for j using False that by (meson not_le nth_mem)
    then have "rs ! j < r" if "j < length rs" for j using that True by (metis le_less_trans)
    then show ?thesis using True e unfolding selected_ball_def
      by (simp add: nth_append less_Suc_eq) (simp add: less_imp_le)
  next
    case no: False
    then show ?thesis using False e by (auto simp: selected_ball_def)
  qed
qed

text \<open>The state after \<open>n\<close> contours of \<open>cs\<close>.\<close>

definition filter_inv :: "cv_shape \<Rightarrow> circle_fn \<Rightarrow> LED \<Rightarrow> rat \<Rightarrow> wsub \<Rightarrow> Point list list \<Rightarrow> nat \<Rightarrow> ball \<Rightarrow> bool" where
  "filter_inv gm circ primary lo w cs n b \<longleftrightarrow> b_ws b = w \<and> length (contours (b_contours b)) = length cs
     \<and> drop n (contours (b_contours b)) = drop n cs
     \<and> filtered b = map (outline circ primary (scale w)) (filter (accepted gm circ lo) (take n cs))
     \<and> selected_ball (map o_radius (filtered b)) (target_idx (b_contours b)) (area_largest (b_contours b))"

lemma accept_ball_simps:
  assumes "o_center (outline_buffer b) = fst (circ c)" "o_radius (outline_buffer b) = snd (circ c)" "length (filtered b) < 2 ^ 15"
  shows "b_ws (accept_ball primary b) = b_ws b" "contours (b_contours (accept_ball primary b)) = contours (b_contours b)"
    "filtered (accept_ball primary b) = filtered b @ [outline circ primary (scale (b_ws b)) c]"
    "selected_ball (map o_radius (filtered b)) (target_idx (b_contours b)) (area_largest (b_contours b)) \<Longrightarrow>
     selected_ball (map o_radius (filtered (accept_ball primary b))) (target_idx (b_contours (accept_ball primary b)))
       (area_largest (b_contours (accept_ball primary b)))"
proof -
  let ?r = "snd (circ c) * of_nat (scale (b_ws b))"
  have i: "int16 (int (length (filtered b))) = int (length (filtered b))" using assms(3) by (simp add: int16_id)
  show "b_ws (accept_ball primary b) = b_ws b" "contours (b_contours (accept_ball primary b)) = contours (b_contours b)"
    "filtered (accept_ball primary b) = filtered b @ [outline circ primary (scale (b_ws b)) c]"
    using assms(1,2) by (simp_all add: accept_ball_def Let_def outline_def)
  show "selected_ball (map o_radius (filtered (accept_ball primary b))) (target_idx (b_contours (accept_ball primary b)))
       (area_largest (b_contours (accept_ball primary b)))"
    if "selected_ball (map o_radius (filtered b)) (target_idx (b_contours b)) (area_largest (b_contours b))"
    using selected_snoc [OF that, of ?r] assms(1,2) i
    by (cases "?r > area_largest (b_contours b)") (simp_all add: accept_ball_def Let_def)
qed


lemma filter_inv_rescale:
  "filter_inv gm circ primary lo w cs (Suc n) b \<Longrightarrow> filter_inv gm circ primary lo w cs (Suc n)
     (b\<lparr>b_contours := (b_contours b)\<lparr>contours := (contours (b_contours b))[n := c]\<rparr>, b_marks := ms\<rparr>)"
  by (auto simp: filter_inv_def drop_update_cancel)

lemma filter_step_inv:
  assumes inv: "filter_inv gm circ primary lo w cs n b" and n: "n < length cs" "length cs \<le> 2 ^ 15"
    and step: "filter_step gm circ primary showc lo n b = Inr b'"
  shows "filter_inv gm circ primary lo w cs (Suc n) b'"
proof -
  let ?c = "cs ! n"
  have c: "contours (b_contours b) ! n = ?c"
    using inv n(1) by (metis Cons_nth_drop_Suc filter_inv_def list.inject)
  have d: "drop (Suc n) (contours (b_contours b)) = drop (Suc n) cs"
    using inv by (metis add.commute drop_drop filter_inv_def plus_1_eq_Suc)
  have t: "take (Suc n) cs = take n cs @ [?c]" using n(1) by (rule take_Suc_conv_app_nth)
  have "length (filtered b) \<le> n" using inv by (auto simp: filter_inv_def intro: le_trans [OF length_filter_le])
  then have lf: "length (filtered b) < 2 ^ 15" using n by linarith
  let ?b = "b\<lparr>outline_buffer := (outline_buffer b)\<lparr>o_center := fst (circ ?c), o_radius := snd (circ ?c)\<rparr>\<rparr>"
  let ?b1 = "if round_enough gm ?c (snd (circ ?c)) then accept_ball primary ?b else ?b"
  show ?thesis
  proof (cases "contour_area gm ?c > lo")
    case False
    then have "b' = b" using step c by (simp add: filter_step_def Let_def)
    then show ?thesis using inv d t False by (auto simp: filter_inv_def accepted_def)
  next
    case True
    note acc = accept_ball_simps [of ?b circ ?c primary]
    have i1: "filter_inv gm circ primary lo w cs (Suc n) ?b1"
    proof (cases "round_enough gm ?c (snd (circ ?c))")
      case True
      have "selected_ball (map o_radius (filtered ?b)) (target_idx (b_contours ?b)) (area_largest (b_contours ?b))"
        using inv by (auto simp: filter_inv_def)
      then have "selected_ball (map o_radius (filtered (accept_ball primary ?b))) (target_idx (b_contours (accept_ball primary ?b)))
          (area_largest (b_contours (accept_ball primary ?b)))" using acc(4) lf by simp
      moreover have "filtered (accept_ball primary ?b) =
          map (outline circ primary (scale w)) (filter (accepted gm circ lo) (take (Suc n) cs))"
        using acc(3) lf inv t True \<open>contour_area gm ?c > lo\<close> by (simp add: filter_inv_def accepted_def)
      ultimately show ?thesis using inv d True acc(1,2) lf by (simp add: filter_inv_def del: map_map)
    next
      case False
      then show ?thesis using inv d t by (auto simp: filter_inv_def accepted_def)
    qed
    show ?thesis
    proof (cases showc)
      case False
      then have "b' = ?b1" using step c True by (auto simp: filter_step_def Let_def split_beta)
      then show ?thesis using i1 by simp
    next
      case sc: True
      then obtain c' where "b' = ?b1\<lparr>b_contours := (b_contours ?b1)\<lparr>contours := (contours (b_contours ?b1))[n := c']\<rparr>,
          b_marks := b_marks ?b1 @ [MContour n]\<rparr>"
        using step c True by (auto simp: filter_step_def Let_def split_beta)
      then show ?thesis using filter_inv_rescale [OF i1] by simp
    qed
  qed
qed

lemma filter_loop_inv:
  assumes "rfold (\<lambda>i. filter_step gm circ primary (showc i) lo i) [0..<n] b = Inr b'" "n \<le> length cs" "length cs \<le> 2 ^ 15"
    and "filter_inv gm circ primary lo w cs 0 b"
  shows "filter_inv gm circ primary lo w cs n b'"
  using assms(1,2)
proof (induction n arbitrary: b')
  case (Suc n)
  then obtain b1 where "rfold (\<lambda>i. filter_step gm circ primary (showc i) lo i) [0..<n] b = Inr b1" "filter_step gm circ primary (showc n) lo n b1 = Inr b'"
    by (auto simp: rfold_append)
  then show ?case using Suc.IH [of b1] Suc.prems(2) by (intro filter_step_inv [OF _ _ assms(3), of _ _ _ _ _ n b1 "showc n"]) simp_all
qed (use assms(4) in simp)

lemma ball_difference_scale: "scale (ball_difference cv primary ch w) = scale w"
  by (simp add: ball_difference_def Let_def)

lemma ball_threshold_cases:
  assumes "ball_threshold cv gm circ primary show showc ch b = Inr (Some b')"
  obtains b1 where "scale (b_ws b1) = scale (b_ws b)" "worker b1 = worker b" "ball_search gm circ primary showc b1 = Inr b'"
proof -
  have fb: "scale w' = scale w" if "ws_fromBinary cv w = Inr (f, w')" for w w' f
    using that by (auto simp: ws_fromBinary_def Let_def)
  let ?w0 = "ball_difference cv primary ch (b_ws b)"
  let ?m = "max_pixel (pix (binary ?w0))"
  obtain bs where bs: "run_in_place vs1_memcpy_threshold_asm (of_int (rat_trunc (?m * gamma ?w0))) (pix (binary ?w0)) = Some bs"
    using assms by (auto simp: ball_threshold_def Let_def split: option.splits)
  let ?w1 = "?w0\<lparr>binary := (binary ?w0)\<lparr>pix := bs\<rparr>\<rparr>"
  obtain w where w: "(if show then rbind (ws_fromBinary cv ?w1) (\<lambda>(f, w). Inr (w\<lparr>buffer := f\<rparr>)) else Inr ?w1) = Inr w"
    and s: "ball_search gm circ primary showc (b\<lparr>b_ws := w, max_val := ?m\<rparr>) = Inr b'"
    using assms unfolding ball_threshold_def Let_def bs option.case rbind_eq_Inr sum.inject option.inject by blast
  have "scale w = scale (b_ws b)"
    using w fb [of ?w1] by (auto simp: ball_difference_scale split: if_splits)
  then show ?thesis using s by (intro that [of "b\<lparr>b_ws := w, max_val := ?m\<rparr>"]) simp_all
qed

lemma ball_threshold_filtered:
  assumes "ball_threshold cv gm circ primary show showc ch b = Inr (Some b')"
    and "\<forall>m. length (find_contours gm m) \<le> 2 ^ 15"
  shows "\<exists>lo. filtered b' = map (outline circ primary (scale (b_ws b)))
        (filter (accepted gm circ lo) (find_contours gm (binary (b_ws b'))))
      \<and> lo = of_int (sw (isz (binary (b_ws b'))) * sh (isz (binary (b_ws b')))) / 500
    \<and> selected_ball (map o_radius (filtered b')) (target_idx (b_contours b')) (area_largest (b_contours b'))
    \<and> (validTarget (b_contours b') \<longrightarrow> (\<exists>ol. vec_idx (filtered b') (getTargetIdx (b_contours b')) = Inr ol))"
proof -
  obtain b1 where b1: "scale (b_ws b1) = scale (b_ws b)" "ball_search gm circ primary showc b1 = Inr b'"
    using ball_threshold_cases [OF assms(1)] by blast
  let ?w = "b_ws b1"
  let ?cs = "find_contours gm (binary ?w)" and ?lo = "of_int (sw (isz (binary ?w)) * sh (isz (binary ?w))) / 500"
  have f: "rfold (\<lambda>i. filter_step gm circ primary (showc i) ?lo i) [0..<length ?cs] (b1\<lparr>b_contours :=
      (b_contours b1)\<lparr>contours := ?cs, target_idx := - 1, area_largest := 0\<rparr>, filtered := []\<rparr>) = Inr b'"
    using b1(2) by (auto simp: ball_search_def Let_def findContours_def)
  have l: "length ?cs \<le> 2 ^ 15" using assms(2) by blast
  have "filter_inv gm circ primary ?lo ?w ?cs (length ?cs) b'"
    by (rule filter_loop_inv [OF f order_refl l]) (simp add: filter_inv_def selected_ball_def)
  then have inv: "b_ws b' = ?w" "filtered b' = map (outline circ primary (scale ?w)) (filter (accepted gm circ ?lo) ?cs)"
    "selected_ball (map o_radius (filtered b')) (target_idx (b_contours b')) (area_largest (b_contours b'))"
    unfolding filter_inv_def by auto
  have "\<exists>ol. vec_idx (filtered b') (getTargetIdx (b_contours b')) = Inr ol" if v: "validTarget (b_contours b')"
  proof -
    obtain i where i: "i < length (filtered b')" "target_idx (b_contours b') = int i"
      using v inv(3) by (auto simp: validTarget_def selected_ball_def split: if_splits)
    have "length (filtered b') \<le> 2 ^ 15" using l unfolding inv(2) by (auto intro: le_trans [OF length_filter_le])
    then have "getTargetIdx (b_contours b') = i" using i by (simp add: getTargetIdx_def as_size_t_def)
    then show ?thesis using i(1) by (simp add: vec_idx_def)
  qed
  then show ?thesis using inv b1(1) by auto
qed

lemma ball_threshold_returns:
  assumes "length (pix (binary (ball_difference cv primary ch (b_ws b)))) < 2 ^ 31"
    and "chk (sw (isz (binary (ball_difference cv primary ch (b_ws b)))) * sh (isz (binary (ball_difference cv primary ch (b_ws b))))) = Inr a"
  shows "\<exists>b'. ball_threshold cv gm circ primary False (\<lambda>_. False) ch b = Inr (Some b')"
proof -
  have "\<exists>b'. rfold (\<lambda>i. filter_step gm circ primary False lo i) is b0 = Inr b' \<and> True" for lo "is" b0
    by (rule rfold_invariant) (auto simp: filter_step_def Let_def split_beta)
  then show ?thesis using assms run_threshold_in_place [OF assms(1)]
    by (fastforce simp: ball_threshold_def ball_search_def Let_def)
qed

text \<open>C38: The filter of a color returns, if nothing is to be shown and the area of the image fits an \<^verbatim>\<open>int\<close>. What it
  leaves, for at most \<open>2 ^ 15\<close> contours: the outlines, in image coordinates, of the
  contours that are larger than the five-hundredth part of the image and fill their circle by more than
  four fifths, in the order of the contours; and as the target the first of the greatest radius. So a
  valid target can always be read from the list.\<close>

theorem ball_filter_result:
  assumes "\<forall>m. length (find_contours gm m) \<le> 2 ^ 15"
  shows "(let D = binary (ball_difference cv primary ch (b_ws b)) in
      length (pix D) < 2 ^ 31 \<and> chk (sw (isz D) * sh (isz D)) = Inr a \<longrightarrow>
        (\<exists>b'. ball_threshold cv gm circ primary False (\<lambda>_. False) ch b = Inr (Some b')))
    \<and> (ball_threshold cv gm circ primary show showc ch b = Inr (Some b') \<longrightarrow>
        (\<exists>lo. filtered b' = map (outline circ primary (scale (b_ws b)))
            (filter (accepted gm circ lo) (find_contours gm (binary (b_ws b'))))
          \<and> lo = of_int (sw (isz (binary (b_ws b'))) * sh (isz (binary (b_ws b')))) / 500)
        \<and> selected_ball (map o_radius (filtered b')) (target_idx (b_contours b')) (area_largest (b_contours b'))
        \<and> (validTarget (b_contours b') \<longrightarrow> (\<exists>ol. vec_idx (filtered b') (getTargetIdx (b_contours b')) = Inr ol)))"
  using ball_threshold_returns [of cv primary ch b a gm circ] ball_threshold_filtered [OF _ assms, of cv circ primary "show" showc ch b b']
  unfolding Let_def by blast


subsection \<open>The active target\<close>

lemma fit_buffers_ok: "fit_buffers cv sz use b = Inr b' \<Longrightarrow> worker b' = worker b \<and> b_contours b' = b_contours b"
  by (auto simp: fit_buffers_def split: if_splits)

text \<open>A filter that is not in use is not launched, and has no valid target.\<close>

lemma launch_join:
  assumes "ball_join cv gm circ primary show showc ch (launch_or_clear use sb z b) = Inr (Some (j, b'))"
    and "\<not> worker b" "\<not> validTarget (b_contours b)"
  shows "\<not> worker b'" "validTarget (b_contours b') \<Longrightarrow> use"
  using assms by (auto simp: ball_join_def launch_or_clear_def launchThresholding_def split: if_splits)

lemma cargo_filter_ok:
  assumes "cargo_filter cv gm circ zeros rd frame c = Inr (Some c')" "\<not> worker (c_red c)" "\<not> worker (c_blue c)"
  shows "\<not> worker (c_red c')" "\<not> worker (c_blue c')" "red_c c' = red_c c" "blue_c c' = blue_c c"
    "validTarget (b_contours (c_red c')) \<Longrightarrow> do_red rd" "validTarget (b_contours (c_blue c')) \<Longrightarrow> do_blue rd"
proof -
  obtain r b buf r' b' where r: "fit_buffers cv (isz frame) (do_red rd) (resetTargetIdx (c_red c)) = Inr r"
    and b: "fit_buffers cv (isz frame) (do_blue rd) (resetTargetIdx (c_blue c)) = Inr b"
    and r': "ball_join cv gm circ RED (red_bin rd) (red_lines rd) (img_split buf) (launch_or_clear (do_red rd) (show_bin rd)
      (zeros (isz frame)) (r\<lparr>b_ws := (b_ws r)\<lparr>buffer := buf, wchannels := img_split buf\<rparr>\<rparr>)) = Inr r'"
    and b': "ball_join cv gm circ BLUE (blue_bin rd) (blue_lines rd) (img_split buf)
      (launch_or_clear (do_blue rd) (show_bin rd) (zeros (isz frame)) b) = Inr b'"
    and c': "(case (r', b') of (Some (_, r), Some (_, b)) \<Rightarrow> Some (c\<lparr>c_red := r, c_blue := b, c_frame := frame\<rparr>) | _ \<Rightarrow> None) = Some c'"
    using assms(1) unfolding cargo_filter_def Let_def rbind_eq_Inr sum.inject by blast
  obtain i j r1 b1 where s: "r' = Some (i, r1)" "b' = Some (j, b1)" "c' = c\<lparr>c_red := r1, c_blue := b1, c_frame := frame\<rparr>"
    using c' by (auto split: option.splits)
  have v: "\<not> worker r" "\<not> worker b" "\<not> validTarget (b_contours r)" "\<not> validTarget (b_contours b)"
    using fit_buffers_ok [OF r] fit_buffers_ok [OF b] assms(2,3) by (simp_all add: resetTargetIdx_def validTarget_def)
  note lr = launch_join [OF r' [unfolded s(1)]] and lb = launch_join [OF b' [unfolded s(2)] v(2,4)]
  show "\<not> worker (c_red c')" "\<not> worker (c_blue c')" "red_c c' = red_c c" "blue_c c' = blue_c c"
    "validTarget (b_contours (c_red c')) \<Longrightarrow> do_red rd" "validTarget (b_contours (c_blue c')) \<Longrightarrow> do_blue rd"
    using lr lb v by (simp_all add: s(3))
qed

lemma cargo_sort_name: "t_name (cargo_sort ol t) = t_name t"
  by (simp add: cargo_sort_def Let_def)

lemma solve_ball_server:
  "solve_ball gm now alone b t s = Inr (t', tv, rv, ps, s') \<Longrightarrow> s' = (if alone then updateTarget (t_name t) now s else s)"
  by (auto simp: solve_ball_def Let_def cargo_sort_name)

lemma report_red_ok:
  assumes "report_red gm now use c s = Inr (c', s')"
  shows "c_red c' = c_red c" "c_blue c' = c_blue c" "blue_c c' = blue_c c"
    "s' = (if validTarget (b_contours (c_red c)) \<and> use \<and> \<not> validTarget (b_contours (c_blue c))
       then updateTarget (t_name (red_c c)) now s else s)"
  using assms by (auto simp: report_red_def dest!: solve_ball_server split: if_splits)

lemma report_blue_ok:
  assumes "report_blue gm now use c s = Inr (c', s')"
  shows "c_red c' = c_red c" "c_blue c' = c_blue c"
    "s' = (if validTarget (b_contours (c_blue c)) \<and> use \<and> \<not> validTarget (b_contours (c_red c))
       then updateTarget (t_name (blue_c c)) now s else s)"
  using assms by (auto simp: report_blue_def dest!: solve_ball_server split: if_splits)

lemma cargo_process_result:
  assumes "cargo_process cv gm circ zeros bor rd frame c s = Inr (Some (c', s'))"
    and "\<not> worker (c_red c)" "\<not> worker (c_blue c)"
  shows "\<not> worker (c_red c') \<and> \<not> worker (c_blue c') \<and>
    (let r = validTarget (b_contours (c_red c')); b = validTarget (b_contours (c_blue c')) in
       (r \<longrightarrow> do_red rd) \<and> (b \<longrightarrow> do_blue rd) \<and>
       s' = (if r \<and> \<not> b then updateTarget (t_name (red_c c)) (at_time rd) s
             else if b \<and> \<not> r then updateTarget (t_name (blue_c c)) (at_time rd) s else s))"
proof -
  obtain x where x: "cargo_filter cv gm circ zeros rd frame c = Inr x"
    using assms(1) unfolding cargo_process_def rbind_eq_Inr by blast
  then obtain c1 where c1: "x = Some c1" using assms(1) by (cases x) (simp_all add: cargo_process_def)
  note f = cargo_filter_ok [OF x [unfolded c1] assms(2,3)]
  obtain c2 c3 s3 where c2: "(if show_bin rd then rbind (bor (buffer (b_ws (c_red c1))) (buffer (b_ws (c_blue c1)))) (\<lambda>f. Inr (c1\<lparr>c_frame := f\<rparr>)) else Inr c1) = Inr c2"
    and r: "report_red gm (at_time rd) (do_red rd) c2 s = Inr (c3, s3)" and b: "report_blue gm (at_time rd) (do_blue rd) c3 s3 = Inr (c', s')"
    using assms(1) by (auto simp: cargo_process_def x c1 split: if_splits)
  have "c_red c2 = c_red c1" "c_blue c2 = c_blue c1" "red_c c2 = red_c c1" "blue_c c2 = blue_c c1"
    using c2 by (auto split: if_splits)
  then show ?thesis using report_red_ok [OF r] report_blue_ok [OF b] f by (auto simp: Let_def)
qed

text \<open>A frame is processed to its end if nothing is to be shown: \<open>buf\<close> is the scaled frame, whose size OpenCV
  keeps in a subtraction and whose area fits an \<^verbatim>\<open>int\<close>.\<close>

definition nothing_shown :: "cargo_in \<Rightarrow> bool" where
  "nothing_shown rd \<longleftrightarrow> \<not> show_bin rd \<and> \<not> red_bin rd \<and> \<not> blue_bin rd \<and> red_lines rd = (\<lambda>_. False) \<and> blue_lines rd = (\<lambda>_. False)"

definition ball_ready :: "ball \<Rightarrow> bool" where
  "ball_ready b \<longleftrightarrow> 0 < scale (b_ws b) \<and> (\<exists>z. size_times (isz (buffer (b_ws b))) (c_int (scale (b_ws b))) = Inr z)"

definition cargo_ready :: "cv_lib \<Rightarrow> cv_shape \<Rightarrow> bgr img \<Rightarrow> cargo \<Rightarrow> bool" where
  "cargo_ready cv gm buf c \<longleftrightarrow> ball_ready (c_red c) \<and> ball_ready (c_blue c) \<and> length (pix buf) < 2 ^ 31
     \<and> (\<exists>a. chk (sw (isz buf) * sh (isz buf)) = Inr a) \<and> (\<forall>x y. isz (subtract cv x y) = isz x)
     \<and> (\<forall>m. length (find_contours gm m) \<le> 2 ^ 15) \<and> pnp_total gm
     \<and> length (t_world (red_c c)) = 4 \<and> length (t_world (blue_c c)) = 4"

lemma fit_buffers_returns:
  "ball_ready b \<Longrightarrow> \<exists>b'. fit_buffers cv sz use b = Inr b' \<and> scale (b_ws b') = scale (b_ws b)"
  using resizeBuffers_ok [of "b_ws b" cv sz] by (auto simp: ball_ready_def fit_buffers_def simp del: rbind_eq_Inr)

lemma img_split_sizes: "k < 3 \<Longrightarrow> isz (img_split b ! k) = isz b"
  by (cases "k = 0"; cases "k = 1") (auto simp: img_split_def numeral_3_eq_3 less_Suc_eq numeral_2_eq_2)

text \<open>A filter whose result is read afterwards: a valid target is one of those it has kept.\<close>

definition readable :: "ball \<Rightarrow> bool" where
  "readable b \<longleftrightarrow> (validTarget (b_contours b) \<longrightarrow> (\<exists>ol. vec_idx (filtered b) (getTargetIdx (b_contours b)) = Inr ol))"

lemma launch_join_returns:
  assumes "cv_arith rnd cv" "cargo_ready cv gm buf c" "\<not> worker b" "\<not> validTarget (b_contours b)"
  shows "\<exists>j b'. ball_join cv gm circ primary False (\<lambda>_. False) (img_split buf) (launch_or_clear use False z b) = Inr (Some (j, b')) \<and> readable b'"
proof (cases use)
  case True
  let ?b = "b\<lparr>worker := True\<rparr>" and ?D = "binary (ball_difference cv primary (img_split buf) (b_ws b))"
  have "length (pix ?D) = length (pix buf)" "isz ?D = isz buf"
    using assms(1,2) LED_less [of primary]
    by (simp_all add: ball_difference_def Let_def cv_arith_def cargo_ready_def img_split_nth img_split_sizes)
  then obtain b' where b': "ball_threshold cv gm circ primary False (\<lambda>_. False) (img_split buf) ?b = Inr (Some b')"
    using ball_threshold_returns [of cv primary "img_split buf" ?b _ gm circ] assms(2) by (auto simp: cargo_ready_def)
  have "readable b'"
    using ball_threshold_filtered [OF b'] assms(2) by (auto simp: readable_def cargo_ready_def)
  then show ?thesis using True b' assms(3)
    by (intro exI [of _ True] exI [of _ "b'\<lparr>worker := False\<rparr>"])
      (simp add: ball_join_def launch_or_clear_def launchThresholding_def readable_def)
qed (use assms(3,4) in \<open>auto simp: ball_join_def launch_or_clear_def readable_def\<close>)

lemma cargo_filter_returns:
  assumes "cv_arith rnd cv" "cargo_ready cv gm buf c" "\<not> worker (c_red c)" "\<not> worker (c_blue c)" "nothing_shown rd"
    and buf: "resize cv frame (dbl_div (Fin 1) (Fin (of_nat (scale (b_ws (c_red c)))))) = Inr buf"
  shows "\<exists>r b. cargo_filter cv gm circ zeros rd frame c = Inr (Some (c\<lparr>c_red := r, c_blue := b, c_frame := frame\<rparr>)) \<and> readable r \<and> readable b"
proof -
  have rdy: "ball_ready (resetTargetIdx (c_red c))" "ball_ready (resetTargetIdx (c_blue c))"
    using assms(2) by (simp_all add: cargo_ready_def ball_ready_def resetTargetIdx_def)
  obtain r b where r: "fit_buffers cv (isz frame) (do_red rd) (resetTargetIdx (c_red c)) = Inr r" "scale (b_ws r) = scale (b_ws (c_red c))"
    and b: "fit_buffers cv (isz frame) (do_blue rd) (resetTargetIdx (c_blue c)) = Inr b"
    using fit_buffers_returns [OF rdy(1)] fit_buffers_returns [OF rdy(2)] by (fastforce simp: resetTargetIdx_def)
  let ?r = "r\<lparr>b_ws := (b_ws r)\<lparr>buffer := buf, wchannels := img_split buf\<rparr>\<rparr>"
  have v: "\<not> worker ?r" "\<not> worker b" "\<not> validTarget (b_contours ?r)" "\<not> validTarget (b_contours b)"
    using fit_buffers_ok [OF r(1)] fit_buffers_ok [OF b] assms(3,4) by (simp_all add: resetTargetIdx_def validTarget_def)
  obtain i r' where r': "ball_join cv gm circ RED False (\<lambda>_. False) (img_split buf) (launch_or_clear (do_red rd) False (zeros (isz frame)) ?r) = Inr (Some (i, r'))"
    "readable r'" using launch_join_returns [OF assms(1,2) v(1,3)] by blast
  obtain j b' where b': "ball_join cv gm circ BLUE False (\<lambda>_. False) (img_split buf) (launch_or_clear (do_blue rd) False (zeros (isz frame)) b) = Inr (Some (j, b'))"
    "readable b'" using launch_join_returns [OF assms(1,2) v(2,4)] by blast
  have "cargo_filter cv gm circ zeros rd frame c = Inr (Some (c\<lparr>c_red := r', c_blue := b', c_frame := frame\<rparr>))"
    using r b buf r' b' assms(5) by (simp add: cargo_filter_def nothing_shown_def Let_def del: rbind_eq_Inr dbl_div.simps)
  then show ?thesis using r'(2) b'(2) by blast
qed

lemma solve_ball_returns:
  assumes "pnp_total gm" "readable b" "validTarget (b_contours b)" "length (t_world t) = 4"
  shows "\<exists>t' tv rv ps s'. solve_ball gm now alone b t s = Inr (t', tv, rv, ps, s')"
proof -
  obtain ol where ol: "vec_idx (filtered b) (getTargetIdx (b_contours b)) = Inr ol" using assms(2,3) by (auto simp: readable_def)
  have "target_wf (cargo_sort ol t)" using assms(4) by (simp add: target_wf_def cargo_sort_def Let_def)
  then show ?thesis using solvePerspective_total [OF assms(1)] ol by (fastforce simp: solve_ball_def Let_def)
qed

lemma report_red_returns:
  assumes "pnp_total gm" "readable (c_red c)" "length (t_world (red_c c)) = 4"
  shows "\<exists>c' s'. report_red gm now use c s = Inr (c', s') \<and> c_blue c' = c_blue c \<and> blue_c c' = blue_c c"
  using solve_ball_returns [OF assms(1,2) _ assms(3)] by (fastforce simp: report_red_def)

lemma report_blue_returns:
  assumes "pnp_total gm" "readable (c_blue c)" "length (t_world (blue_c c)) = 4"
  shows "\<exists>x. report_blue gm now use c s = Inr x"
  using solve_ball_returns [OF assms(1,2) _ assms(3)] by (fastforce simp: report_blue_def)


subsection \<open>An example\<close>

text \<open>The square of theory \<open>Legacy_Target_Props\<close>, with a circle of radius 2 around it.\<close>

definition demo_circle :: circle_fn where
  "demo_circle c = (\<lparr>fx = 2, fy = 2\<rparr>, 2)"

definition demo_ball :: ball where
  "demo_ball = \<lparr>b_ws = wsub0, b_contours = Contours0, filtered = [], outline_buffer = CargoOutline0, max_val = 0,
     worker = False, b_marks = []\<rparr>"

definition demo_cargo :: cargo where
  "demo_cargo = \<lparr>c_red = demo_ball, c_blue = demo_ball, red_c = Cargo 1 C_RED, blue_c = Cargo 1 C_BLUE, c_tvec = (0, 0, 0),
     c_rvec = (0, 0, 0), c_frame = empty_img, c_puts = []\<rparr>"

lemma demo_round: "round_enough demo_shape square4 2"
  by (simp add: round_enough_def demo_shape_def CV_PI_def)

lemma demo_difference: "b_ws b = wsub0\<lparr>buffer := x, wchannels := y\<rparr> \<or> b_ws b = wsub0 \<Longrightarrow>
    binary (ball_difference demo_cv RED (img_split empty_img) (b_ws b)) = empty_img"
  by (auto simp: ball_difference_def Let_def demo_cv_def img_split_def empty_img_def weighted_array_def wsub0_def)

lemma demo_search:
  assumes "b_ws b = w" "binary w = empty_img" "scale w = 1"
  shows "\<exists>b'. ball_search demo_shape demo_circle RED (\<lambda>_. False) b = Inr b' \<and> filtered b' = [outline demo_circle RED 1 square4]
    \<and> target_idx (b_contours b') = 0"
  using assms demo_round
  by (simp add: ball_search_def Let_def findContours_def empty_img_def chk_def
      filter_step_def demo_circle_def accept_ball_def outline_def demo_shape_def int16_def)


lemma demo_ball_threshold:
  assumes "b_ws b = wsub0\<lparr>buffer := x, wchannels := y\<rparr> \<or> b_ws b = wsub0"
  shows "\<exists>b'. ball_threshold demo_cv demo_shape demo_circle RED False (\<lambda>_. False) (img_split empty_img) b = Inr (Some b')
    \<and> filtered b' = [outline demo_circle RED 1 square4] \<and> target_idx (b_contours b') = 0"
proof -
  let ?w = "ball_difference demo_cv RED (img_split empty_img) (b_ws b)"
  let ?m = "max_pixel (pix (binary ?w))"
  have w: "binary ?w = empty_img" "scale ?w = 1"
    using demo_difference [OF assms] assms by (auto simp: ball_difference_scale wsub0_def)
  have "run_in_place vs1_memcpy_threshold_asm t (pix empty_img) = Some []" for t
    using run_threshold_in_place [of "[]" t] by (simp add: empty_img_def)
  moreover obtain b' where "ball_search demo_shape demo_circle RED (\<lambda>_. False) (b\<lparr>b_ws := ?w\<lparr>binary := empty_img\<lparr>pix := []\<rparr>\<rparr>, max_val := ?m\<rparr>) = Inr b'"
    "filtered b' = [outline demo_circle RED 1 square4]" "target_idx (b_contours b') = 0"
    using demo_search [of "b\<lparr>b_ws := ?w\<lparr>binary := empty_img\<lparr>pix := []\<rparr>\<rparr>, max_val := ?m\<rparr>"] w by (force simp: empty_img_def)
  ultimately show ?thesis using w by (simp add: ball_threshold_def Let_def)
qed

theorem ball_filter_result_witness:
  "\<exists>b'. ball_threshold demo_cv demo_shape demo_circle RED False (\<lambda>_. False) (img_split empty_img) demo_ball = Inr (Some b')
     \<and> selected_ball (map o_radius (filtered b')) (target_idx (b_contours b')) (area_largest (b_contours b'))"
proof -
  have c: "\<forall>m. length (find_contours demo_shape m) \<le> 2 ^ 15" by (simp add: demo_shape_def)
  have "binary (ball_difference demo_cv RED (img_split empty_img) (b_ws demo_ball)) = empty_img"
    using demo_difference [of demo_ball] by (simp add: demo_ball_def)
  then have "\<exists>b'. ball_threshold demo_cv demo_shape demo_circle RED False (\<lambda>_. False) (img_split empty_img) demo_ball = Inr (Some b')"
    using ball_filter_result [OF c, of demo_cv RED "img_split empty_img" demo_ball 0 demo_circle]
    by (simp add: empty_img_def chk_def Let_def)
  then show ?thesis
    using ball_filter_result [OF c, of demo_cv RED "img_split empty_img" demo_ball 0 demo_circle False "\<lambda>_. False"] by blast
qed

lemma demo_cargo_filter:
  "\<exists>c'. cargo_filter demo_cv demo_shape demo_circle (\<lambda>_. empty_img)
      \<lparr>do_red = True, do_blue = False, show_bin = False, red_bin = False, blue_bin = False, red_lines = (\<lambda>_. False), blue_lines = (\<lambda>_. False), at_time = 7\<rparr> empty_img demo_cargo = Inr (Some c')
    \<and> filtered (c_red c') = [outline demo_circle RED 1 square4] \<and> target_idx (b_contours (c_red c')) = 0
    \<and> target_idx (b_contours (c_blue c')) = - 1 \<and> red_c c' = Cargo 1 C_RED"
proof -
  let ?b = "resetTargetIdx demo_ball"
  let ?r = "?b\<lparr>b_ws := wsub0\<lparr>buffer := empty_img, wchannels := img_split empty_img\<rparr>, worker := True\<rparr>"
  have fit: "fit_buffers demo_cv (isz empty_img) use ?b = Inr ?b" for use
    by (simp add: fit_buffers_def resetTargetIdx_def demo_ball_def wsub0_def empty_img_def size_times_def chk_def)
  have w: "b_ws ?b = wsub0" by (simp add: resetTargetIdx_def demo_ball_def)
  have "\<exists>b'. ball_threshold demo_cv demo_shape demo_circle RED False (\<lambda>_. False) (img_split empty_img) ?r = Inr (Some b')
      \<and> filtered b' = [outline demo_circle RED 1 square4] \<and> target_idx (b_contours b') = 0"
    by (rule demo_ball_threshold) auto
  then obtain b' where b': "ball_threshold demo_cv demo_shape demo_circle RED False (\<lambda>_. False) (img_split empty_img) ?r = Inr (Some b')"
    "filtered b' = [outline demo_circle RED 1 square4]" "target_idx (b_contours b') = 0" by blast
  have k: "worker ?b = False" by (simp add: resetTargetIdx_def demo_ball_def)
  have x: "resize demo_cv m d = Inr m" for m d by (simp add: demo_cv_def)
  have e: "c_red demo_cargo = demo_ball" "c_blue demo_cargo = demo_ball" by (simp_all add: demo_cargo_def)
  have "target_idx (b_contours ?b) = - 1" by (simp add: resetTargetIdx_def)
  then show ?thesis using b'
    by (simp add: cargo_filter_def e fit x Let_def launch_or_clear_def launchThresholding_def k w ball_join_def)
      (simp add: demo_cargo_def)
qed


end
