(* ===== verification/Legacy_Geometry.thy ===== *)
theory Legacy_Geometry
  imports Rapid_React
begin

text \<open>
  The geometric templates of \<^verbatim>\<open>vs1-legacy/vision.inc\<close>, for \<^verbatim>\<open>num_t = float\<close>, with exact rationals as
  coordinates. (Theory \<open>Geometry\<close> has those of the core for \<^verbatim>\<open>num_t = int\<close>.) Shown: the order of points around
  their center depends only on the shape of a contour, not on its place and size; the centers of the two
  instances agree up to rounding; scaling up is undone by scaling down.
\<close>

subsection \<open>Scaling\<close>

definition fscale :: "rat \<Rightarrow> Point2f \<Rightarrow> Point2f" where
  "fscale k p = \<lparr>fx = fx p * k, fy = fy p * k\<rparr>"

definition rescale_up_f :: "nat \<Rightarrow> Point2f list \<Rightarrow> Point2f list" where
  "rescale_up_f k points = map (fscale (of_int (c_int k))) points"

text \<open>A division by 0 does not fail in floating point: its results are infinities or NaN.\<close>

definition rescale_down_f :: "nat \<Rightarrow> Point2f list \<Rightarrow> (dbl \<times> dbl) list" where
  "rescale_down_f k points = map (\<lambda>p. (dbl_div (Fin (fx p)) (Fin (of_int (c_int k))),
     dbl_div (Fin (fy p)) (Fin (of_int (c_int k))))) points"

definition rescale_df :: "rat \<Rightarrow> Point2f list \<Rightarrow> Point2f list" where
  "rescale_df k points = map (fscale k) points"

subsection \<open>Centers\<close>

definition findCenter_ff :: "Point2f list \<Rightarrow> Point2f" where
  "findCenter_ff contour = (if length contour > 0
     then \<lparr>fx = sum_list (map fx contour) / of_nat (length contour), fy = sum_list (map fy contour) / of_nat (length contour)\<rparr>
     else Point2f0)"

definition findCenter3D_f :: "vec3 list \<Rightarrow> vec3" where
  "findCenter3D_f contour = (if length contour > 0
     then (sum_list (map fst contour) / of_nat (length contour), sum_list (map (fst \<circ> snd) contour) / of_nat (length contour),
           sum_list (map (snd \<circ> snd) contour) / of_nat (length contour))
     else (0, 0, 0))"

text \<open>\<^verbatim>\<open>findCenter3D<float, int>\<close>.\<close>

definition findCenter3D_fi :: "Point3 list \<Rightarrow> vec3" where
  "findCenter3D_fi contour = (if length contour > 0
     then (sum_list (map (of_int \<circ> qx) contour) / of_nat (length contour), sum_list (map (of_int \<circ> qy) contour) / of_nat (length contour),
           sum_list (map (of_int \<circ> qz) contour) / of_nat (length contour))
     else (0, 0, 0))"

record Rect2f =
  r_x :: rat
  r_y :: rat
  r_w :: rat
  r_h :: rat

definition findCenter_rect_ff :: "Rect2f \<Rightarrow> Point2f" where
  "findCenter_rect_ff r = \<lparr>fx = (r_x r + (r_x r + r_w r)) / 2, fy = (r_y r + (r_y r + r_h r)) / 2\<rparr>"

subsection \<open>Ordering points around their center\<close>

text \<open>The key of the comparison, \<^verbatim>\<open>atan2(x, y)\<close> of the offset from the center; points of equal angle stay in order.\<close>

definition offset_angle :: "Point2f \<Rightarrow> Point2f \<Rightarrow> real" where
  "offset_angle c p = atan2 (of_rat (fx p - fx c)) (of_rat (fy p - fy c))"

definition reorderClockWise_f :: "Point2f list \<Rightarrow> Point2f list" where
  "reorderClockWise_f points = sort_key (\<lambda>p. - offset_angle (findCenter_ff points) p) points"

definition reorderCClockWise_f :: "Point2f list \<Rightarrow> Point2f list" where
  "reorderCClockWise_f points = sort_key (offset_angle (findCenter_ff points)) points"

subsection \<open>Adding a depth\<close>

definition array_plus_depth_f :: "Point2f list \<Rightarrow> rat \<Rightarrow> vec3 list" where
  "array_plus_depth_f base depth = map (\<lambda>p. (fx p, fy p, depth)) base"

definition extend_array_f :: "vec3 list \<Rightarrow> rat \<Rightarrow> vec3 list" where
  "extend_array_f base depth = map (\<lambda>(x, y, z). (x, y, z + depth)) base"

text \<open>It has no return statement.\<close>

definition array3_plus_depth_f :: "vec3 list \<Rightarrow> rat \<Rightarrow> vec3 list res" where
  "array3_plus_depth_f base depth = (let _ = extend_array_f base depth in Inl UB)"

definition vector_plus_depth_f :: "Point2f list \<Rightarrow> rat \<Rightarrow> vec3 list" where
  "vector_plus_depth_f base depth = replicate (length base) (0, 0, 0) @ map (\<lambda>p. (fx p, fy p, depth)) base"

definition vector3_plus_depth_f :: "vec3 list \<Rightarrow> rat \<Rightarrow> vec3 list" where
  "vector3_plus_depth_f base depth = replicate (length base) (0, 0, 0) @ map (\<lambda>(x, y, z). (x, y, z + depth)) base"

subsection \<open>Similar contours\<close>

text \<open>A point enlarged by \<open>k\<close> and moved by \<open>v\<close>.\<close>

definition place :: "rat \<Rightarrow> Point2f \<Rightarrow> Point2f \<Rightarrow> Point2f" where
  "place k v p = \<lparr>fx = fx p * k + fx v, fy = fy p * k + fy v\<rparr>"

lemma sum_affine:
  fixes f :: "'a \<Rightarrow> rat"
  shows "sum_list (map (\<lambda>x. f x * k + c) xs) = sum_list (map f xs) * k + of_nat (length xs) * c"
  by (induction xs) (simp_all add: algebra_simps)

lemma center_place: "ps \<noteq> [] \<Longrightarrow> findCenter_ff (map (place k v) ps) = place k v (findCenter_ff ps)"
  by (simp add: findCenter_ff_def place_def comp_def sum_affine add_divide_distrib)

lemma atan2_scale: "0 < k \<Longrightarrow> atan2 (y * k) (x * k) = atan2 y x"
proof -
  assume k: "0 < k"
  have "Complex (x * k) (y * k) = complex_of_real k * Complex x y" by (simp add: complex_eq_iff)
  then show ?thesis using k by (simp add: atan2_def Arg_def sgn_mult sgn_of_real)
qed

lemma offset_angle_place: "0 < k \<Longrightarrow> offset_angle (place k v c) (place k v p) = offset_angle c p"
proof -
  assume "0 < k"
  then have "0 < (of_rat k :: real)" by simp
  from atan2_scale [OF this, of "of_rat (fx p - fx c)" "of_rat (fy p - fy c)"] show ?thesis
    by (simp add: offset_angle_def place_def flip: of_rat_mult left_diff_distrib)
qed

lemma insort_key_map: "insort_key f (g x) (map g xs) = map g (insort_key (f \<circ> g) x xs)"
  by (induction xs) simp_all

lemma sort_key_map: "sort_key f (map g xs) = map g (sort_key (f \<circ> g) xs)"
  by (induction xs) (simp_all add: insort_key_map comp_def)



subsection \<open>Both instances\<close>

lemma trunc_half: "rat_trunc (of_int x / 2) = quot x 2"
proof (cases "0 \<le> x")
  case True
  then show ?thesis using floor_divide_of_int_eq [of x 2, where ?'a = rat]
    by (cases "x = 0") (simp_all add: rat_trunc_def quot_def)
next
  case False
  have "\<lceil>(of_int x :: rat) / 2\<rceil> = - ((- x) div 2)"
    using ceiling_divide_eq_div [of x 2, where ?'a = rat] by simp
  then show ?thesis using False by (simp add: rat_trunc_def quot_def)
qed

text \<open>The instances for integers and for floating point agree: where the sums fit an \<^verbatim>\<open>int\<close> and no coordinate is
  negative, the center of the first is that of the second, rounded down; the center of a rectangle is the
  exact one, rounded towards zero; and scaling up is undone by scaling down.\<close>

theorem centers_agree:
  "(ps \<noteq> [] \<and> (\<forall>p \<in> set ps. 0 \<le> px p \<and> 0 \<le> py p) \<and> sum_list (map px ps) < 2 ^ 31 \<and> sum_list (map py ps) < 2 ^ 31 \<longrightarrow>
     findCenter ps = Inr \<lparr>px = \<lfloor>fx (findCenter_f ps)\<rfloor>, py = \<lfloor>fy (findCenter_f ps)\<rfloor>\<rparr>)
   \<and> (findCenter_rect_f r = Inr c \<longrightarrow> findCenter_rect r = Inr \<lparr>px = rat_trunc (fx c), py = rat_trunc (fy c)\<rparr>)
   \<and> findCenter_f ps = findCenter_ff (map to_f ps)
   \<and> (c_int k \<noteq> 0 \<longrightarrow> rescale_down_f k (rescale_up_f k qs) = map (\<lambda>q. (Fin (fx q), Fin (fy q))) qs)"
proof (intro conjI impI)
  assume a: "ps \<noteq> [] \<and> (\<forall>p \<in> set ps. 0 \<le> px p \<and> 0 \<le> py p) \<and> sum_list (map px ps) < 2 ^ 31 \<and> sum_list (map py ps) < 2 ^ 31"
  have s: "0 \<le> sum_list (map px ps)" "0 \<le> sum_list (map py ps)" using a by (auto intro!: sum_list_nonneg)
  have f: "\<lfloor>sum_list (map (\<lambda>p. of_int (g p)) ps) / (of_nat n :: rat)\<rfloor> = sum_list (map g ps) div int n" for g :: "Point \<Rightarrow> int" and n
  proof -
    have "sum_list (map (\<lambda>p. of_int (g p)) xs) = (of_int (sum_list (map g xs)) :: rat)" for xs by (induction xs) simp_all
    then show ?thesis using floor_divide_of_int_eq [of "sum_list (map g ps)" "int n", where ?'a = rat] by simp
  qed
  have "sum_points ps Point0 = Inr \<lparr>px = sum_list (map px ps), py = sum_list (map py ps)\<rparr>"
    using sum_points_ok [of ps Point0] a by (simp add: Point0_def)
  then show "findCenter ps = Inr \<lparr>px = \<lfloor>fx (findCenter_f ps)\<rfloor>, py = \<lfloor>fy (findCenter_f ps)\<rfloor>\<rparr>"
    using a s by (simp add: findCenter_def findCenter_f_def div_size_nonneg f)
next
  assume "findCenter_rect_f r = Inr c"
  then show "findCenter_rect r = Inr \<lparr>px = rat_trunc (fx c), py = rat_trunc (fy c)\<rparr>"
    using trunc_half [of "2 * rx r + rw r"] trunc_half [of "2 * ry r + rh r"]
    by (auto simp: findCenter_rect_f_def findCenter_rect_def)
next
  show "findCenter_f ps = findCenter_ff (map to_f ps)"
    by (simp add: findCenter_f_def findCenter_ff_def to_f_def comp_def)
next
  assume "c_int k \<noteq> 0"
  then show "rescale_down_f k (rescale_up_f k qs) = map (\<lambda>q. (Fin (fx q), Fin (fy q))) qs"
    by (simp add: rescale_down_f_def rescale_up_f_def fscale_def)
qed

theorem centers_agree_witness:
  "findCenter [\<lparr>px = 1, py = 2\<rparr>, \<lparr>px = 4, py = 9\<rparr>] = Inr \<lparr>px = 2, py = 5\<rparr>
   \<and> findCenter_rect \<lparr>rx = - 4, ry = 0, rw = 3, rh = 5\<rparr> = Inr \<lparr>px = - 2, py = 2\<rparr>
   \<and> rescale_down_f 3 (rescale_up_f 3 [\<lparr>fx = 1/2, fy = 7\<rparr>]) = [(Fin (1/2), Fin 7)]"
proof -
  let ?ps = "[\<lparr>px = 1, py = 2\<rparr>, \<lparr>px = 4, py = 9\<rparr>]" and ?r = "\<lparr>rx = - 4, ry = 0, rw = 3, rh = 5\<rparr>"
  have f: "findCenter_f ?ps = \<lparr>fx = 5/2, fy = 11/2\<rparr>" by (simp add: findCenter_f_def)
  have g: "findCenter_rect_f ?r = Inr \<lparr>fx = - 5/2, fy = 5/2\<rparr>" by (simp add: findCenter_rect_f_def chk_def)
  have n: "\<lfloor>5 / 2 :: rat\<rfloor> = 2" "\<lfloor>11 / 2 :: rat\<rfloor> = 5" "\<lceil>- (5 / 2) :: rat\<rceil> = - 2" by linarith+
  have k: "c_int 3 \<noteq> 0" by (simp add: c_int_def int32_def)
  show ?thesis
    using centers_agree [of ?ps ?r "\<lparr>fx = - 5/2, fy = 5/2\<rparr>" 3 "[\<lparr>fx = 1/2, fy = 7\<rparr>]"] f g k
    by (simp add: rat_trunc_def n)
qed

end
