(* ===== verification/Spec2Isabelle.thy ===== *)
theory Spec2Isabelle
  imports Server_Storage Server_Threads Pipelines Neon_Wrappers Geometry Config Target_NT Tf_Props
    Legacy_Processing Legacy_Props Legacy_Threads Neon32_Props Legacy_Threshold Legacy_Target_Props Rapid_React_Props Cargo_Props
    Legacy_Geometry
begin

text \<open>
  Verification of VisionServer, the vision framework of an FRC robotics team: a program that reads
  cameras, runs image processing pipelines on their frames and serves the results as video streams,
  controlled over NetworkTables. The sources are under \<^verbatim>\<open>src/lib-vs/src\<close>: \<^verbatim>\<open>core\<close> is the current version
  (namespace \<^verbatim>\<open>vs2\<close>), \<^verbatim>\<open>vs1-legacy\<close> the one before it.

  \<^bold>\<open>The parts and how they interact.\<close>
  \<^verbatim>\<open>config.cpp\<close> reads a json file, starts NetworkTables and creates \<^verbatim>\<open>VisionCamera\<close>s, taking calibrations
  from the file or from a container of \<^verbatim>\<open>calib.h\<close>. The singleton \<^verbatim>\<open>VisionServer\<close> holds cameras, pipelines
  (pointers, some owned by the server) and output streams; each stream shows a camera or a pipeline,
  chosen by an index that the program sets or a remote user changes. \<^verbatim>\<open>run\<close> starts one thread per pipeline
  (\<^verbatim>\<open>pipelineRunner\<close>) and keeps the streams in step with their indices; \<^verbatim>\<open>runSingle\<close> does everything in
  one loop; \<^verbatim>\<open>runRaw\<close> only serves streams. Pipelines use the geometry of \<^verbatim>\<open>vision.h\<close>, the kernels of
  \<^verbatim>\<open>neon64.S\<close> through \<^verbatim>\<open>neon.h\<close>, TensorFlow models (\<^verbatim>\<open>tfmodel.h\<close>), and publish \<^verbatim>\<open>Target\<close>s. In the version before,
  a pipeline thresholds a frame (\<^verbatim>\<open>weightedsubtraction.h\<close>, \<^verbatim>\<open>mem.S\<close>), searches contours, solves the pose of a target
  (\<^verbatim>\<open>target.h\<close>), and reports it to the server, which decides which target is active.

  \<^bold>\<open>Conventions.\<close>
  Every operation of the code is a function on explicit state. Failures are values: \<open>'a res\<close> is
  \<open>err + 'a\<close> with the exception thrown or \<open>UB\<close> for a step that the language leaves undefined (theory
  \<open>VS_Prelude\<close>). Calls into cscore, NetworkTables, OpenCV's drawing and the operating system are appended in
  program order to a log (\<open>call\<close>, theory \<open>Platform\<close>); what such calls return, and the clock, are
  arguments. Integers keep their width where the code converts them (\<open>int32\<close>, \<open>int16\<close>, \<open>int8\<close>, words in the
  kernels); conversions from floating point are those of the AArch64 target, and a
  \<^verbatim>\<open>std::vector\<close> grows as that of libstdc++ does, whose \<^verbatim>\<open>std::sort\<close> keeps the order of equal elements in the short
  lists the code sorts (at most 16). Floating point values are
  exact rationals with infinities and NaN: rounding is not modelled.

  \<^bold>\<open>Theories.\<close>
  \<^item> \<open>VS_Prelude\<close>, \<open>Json\<close>, \<open>Platform\<close>: failures, vector accesses, number conversions; \<^verbatim>\<open>wpi::json\<close> values and
    their accessors; the boundary to the libraries.
  \<^item> \<open>Camera\<close>: \<^verbatim>\<open>VisionCamera\<close> and \<^verbatim>\<open>getJsonVideoMode\<close>. Matrices share buffers in a store, so the aliasing of
    \<^verbatim>\<open>cv::Mat\<close> is visible. Shown: the readers of calibrations invert writing them, what they return on
    malformed input, that cameras read from json share one calibration, and the ranges of remote
    settings.
  \<^item> \<open>Server\<close>, \<open>Server_Laws\<close>, \<open>Server_Reach\<close>, \<open>Server_Props\<close>: the registry, source selection and
    \<^verbatim>\<open>compensate\<close>. The locale \<open>registry_op\<close> is the contract of the operations that change the registry,
    interpreted on each of them; \<open>reachable\<close> is the closure of all operations in any order, and shown by
    rule induction to keep every selection safe.
  \<^item> \<open>Server_Run\<close>, \<open>Server_Run_Props\<close>: the loops. A loop takes the list of the readings of its iterations,
    that is of the iterations made until \<^verbatim>\<open>stop()\<close>; the theorems hold for every such list and state that
    the loop returns. Shown: \<^verbatim>\<open>run\<close> leaves every stream at the index last read, each enabled frame is
    processed exactly once between \<^verbatim>\<open>init\<close> and \<^verbatim>\<open>close\<close>, the pause caps the frame rate, and where an index
    is used wrongly.
  \<^item> \<open>Server_Threads\<close>: the head thread and the thread that stops it as a step relation; the flag is set only
    inside a loop, a stop inside the loop ends it, and a stop that comes too early is lost.
  \<^item> \<open>Interleaving\<close>, \<open>Server_Pool\<close>, \<open>Server_Pool_Props\<close>: \<^verbatim>\<open>run\<close> with the threads it starts and a thread that calls
    \<^verbatim>\<open>stop\<close>, on one shared server. A step is what a thread does from one test of \<^verbatim>\<open>isRunning()\<close> to the next, or
    a start or a join of a thread; an execution is a schedule, any list of steps that can be made. Two locales, a simulation that reads
    labels off the steps and a measure that every step decreases, are interpreted on the steps. Shown for every
    schedule: the streams follow a specification that knows nothing of the threads, each pipeline has one complete
    session when \<^verbatim>\<open>run\<close> returns, and \<^verbatim>\<open>run\<close> does return after a stop.
  \<^item> \<open>Server_Storage\<close>: the pointers into the vector of cameras, which pipelines and listeners keep. Which are valid in a
    reachable state, that they stay valid while the threads of \<^verbatim>\<open>run\<close> run, and that they dangle when the vector grows.
  \<^item> \<open>Pipelines\<close>: names of instances and \<^verbatim>\<open>SequentialPipeline\<close>.
  \<^item> \<open>Neon_Machine\<close>, \<open>Neon_Kernels\<close>, \<open>Neon_Props\<close>, \<open>Neon_Wrappers\<close>: an AArch64 machine (general registers as
    64-bit words, vector registers as 16 bytes, memory), the routines of \<^verbatim>\<open>neon64.S\<close> instruction by
    instruction, and the wrappers of \<^verbatim>\<open>neon.h\<close>. A loop is \<open>bne_loop\<close>, which is \<open>None\<close> if it does not end;
    the locale \<open>block_kernel\<close> proves once that a loop of a body working on disjoint blocks ends and computes
    the body's pixel function, and is interpreted on each body.
  \<^item> \<open>Neon32\<close>, \<open>Neon32_Props\<close>: the routines of \<^verbatim>\<open>neon32.S\<close> and of the legacy \<^verbatim>\<open>mem.S\<close> on the 32-bit machine, the same
    record over 32-bit words with the words pushed on the stack beside it; each pixel, and what the calling
    convention preserves. The locale of the loops is interpreted again on these bodies.
  \<^item> \<open>Geometry\<close>: the helpers of \<^verbatim>\<open>vision.h\<close> on \<^verbatim>\<open>int\<close>; \<open>Calib\<close>: the containers of \<^verbatim>\<open>calib.h\<close> against a lookup in
    association lists; \<open>Config\<close>: the loader; \<open>Target_NT\<close>: published targets.
  \<^item> \<open>Tf_Model\<close>, \<open>Tf_Props\<close>: label files, the choice of a model, and what the two TensorFlow pipelines draw.
  \<^item> \<open>Legacy_Processing\<close>, \<open>Legacy_Camera\<close>, \<open>Legacy_Server\<close>, \<open>Legacy_Props\<close>: contours, cameras and the server of
    \<^verbatim>\<open>vs1-legacy\<close>, with its workers and the vector of cameras that deletes entries when it grows.
  \<^item> \<open>Legacy_Threads\<close>: launching and stopping a worker, step by step; the steps come to the operations of the server, a
    stop ends, and one that comes while no worker is in its loop disables the workers after it.
  \<^item> \<open>Legacy_Threshold\<close>, \<open>Legacy_Target\<close>, \<open>Legacy_Target_Props\<close>: thresholding by weighted subtraction, down to the kernel
    that is run on the image, pixel by pixel; \<^verbatim>\<open>Target\<close>, \<^verbatim>\<open>TargetSolver\<close> and the pipelines of 2021: the solver keeps its
    state well formed and reports exactly the pose it solved.
  \<^item> \<open>Rapid_React\<close>, \<open>Rapid_React_Props\<close>, \<open>Cargo\<close>, \<open>Cargo_Props\<close>: the pipelines of 2022. The search of the strips changes
    its own counter; it is shown to end, to be safe unless all contours are strips, and to fail if they are.
    \<^verbatim>\<open>BallFilter\<close> and \<^verbatim>\<open>CargoFinder\<close>: the circles that are kept, and which target becomes active.
  \<^item> \<open>Legacy_Geometry\<close>: the templates of the legacy \<^verbatim>\<open>vision.inc\<close> on \<^verbatim>\<open>float\<close>: ordering depends on the shape of a contour
    only, and the centers agree with those on \<^verbatim>\<open>int\<close>.
  \<^item> This theory: what the parts do together, from a configuration file to what the streams show, and from a frame
    to the published target.

  \<^bold>\<open>Bounds.\<close> Registries are taken to hold fewer than \<open>2 ^ 31\<close> elements of a kind (predicate \<open>small\<close>),
  and fewer than \<open>2 ^ 15\<close> cameras where \<^verbatim>\<open>compensate\<close> keeps an index in 16 bits; frames fewer
  than \<open>2 ^ 31\<close> pixels, the range of the \<^verbatim>\<open>int32_t\<close> sizes. Rectangles
  of an image have coordinates below \<open>2 ^ 14\<close> (predicate \<open>small_rect\<close>), so that areas and ranges fit an \<^verbatim>\<open>int\<close>; a
  \<^verbatim>\<open>size_t\<close> has 64 bits, except in the 32-bit kernels. There is no fuel: loops over memory and the search of the strips
  are \<open>partial_function\<close>s shown to return, loops over time are given by the list of their iterations, and after a
  stop the threads of \<^verbatim>\<open>run\<close> make at most \<open>4\<close> steps for each pipeline and \<open>3\<close> more.

  \<^bold>\<open>Not modelled.\<close> Console output, the pixels drawn by OpenCV, rounding; interleavings inside one iteration of a
  loop and weak memory effects between threads, other than those of the atomic flags; \<^verbatim>\<open>aprilpose.h\<close> (commented out), the tennis demonstration of
  \<^verbatim>\<open>rapidreact.cpp\<close> (not compiled), \<^verbatim>\<open>getWeight\<close> and \<^verbatim>\<open>setWeight\<close> of the legacy thresholding (they name a member that
  does not exist), the vendored headers and the submodules.
\<close>

subsection \<open>From the configuration to the streams\<close>

lemma adjust_keeps [simp]: "m_handle (fst (adjust L c)) = m_handle c" "config (fst (adjust L c)) = config c"
  by (simp_all add: adjust_def setNetworkAdjustable_def setNetworkBase_def Let_def)

lemma addCameras_result:
  "\<not> isRunning s \<Longrightarrow> fst (addCameras L cms s) \<and> cameras (snd (addCameras L cms s)) = cameras s @ map (fst \<circ> adjust L) cms
     \<and> pipelines (snd (addCameras L cms s)) = pipelines s \<and> pheap (snd (addCameras L cms s)) = pheap s
     \<and> streams (snd (addCameras L cms s)) = streams s"
  by (simp add: addCameras_def adjust_all_def)

text \<open>C3: From the configuration file to what is shown. On a stopped server without cameras, in whatever
  reachable state its pipelines and streams are, reading a file with a list of cameras, adding what was read and
  calling \<^verbatim>\<open>compensate\<close> succeeds, if entry \<open>k\<close> of those that are kept is the first with a connected camera:
  the server has one camera for each entry, which handles the remote values for it, every pipeline has the mode of camera \<open>k\<close>
  and reads its calibration, and every
  stream has the index of the first pipeline or, if there is none, of camera \<open>k\<close>, to which it is then connected if it
  had no source.\<close>

theorem configured_cameras_reach_streams:
  assumes s: "reachable L s" "\<not> isRunning s" "cameras s = []" "length (pipelines s) < 2 ^ 31"
    and cfg: "fs f = FileJson (JObject ms)" "map_of ms ''cameras'' = Some (JArray es)" "store_ok \<sigma>"
    and k: "k < length (kept_entries rm L es)" "length (kept_entries rm L es) < 2 ^ 15"
      "is_connected L (fst (open_usb L (kept_entries rm L es ! k)))"
      "\<And>m. m < k \<Longrightarrow> \<not> is_connected L (fst (open_usb L (kept_entries rm L es ! m)))"
  shows "\<exists>cams \<sigma>' l' s'. createCameras rm L fs f ([], \<sigma>, l) = Inr (True, (cams, \<sigma>', l'))
    \<and> compensate L (snd (addCameras L cams s)) = Inr (True, s')
    \<and> map config (cameras s') = kept_entries rm L es
    \<and> (\<forall>r \<in> set (pipelines s). \<exists>p. pheap s' r = Some p \<and> src_matrix p = CameraMat (sbuf (storage s'), k)
         \<and> pmode p = get_mode L (fst (open_usb L (kept_entries rm L es ! k)))
         \<and> getSrcMatrix s' r = Inr (camera_matrix (cameras s' ! k)))
    \<and> (\<forall>i < numCameras s'. camera_event i key v s' = Inr (emit (camera_listener (cameras s' ! i) key v) s'))
    \<and> (\<forall>j < numStreams s. local_idx (streams s' ! j) = (if pipelines s = [] then - int k - 1 else 1)
         \<and> (local_idx (streams s ! j) = 0 \<and> pipelines s = [] \<longrightarrow>
              CsSetSource (shandle (streams s ! j)) (fst (open_usb L (kept_entries rm L es ! k))) \<in> set (slog s')))"
proof -
  let ?es = "kept_entries rm L es"
  obtain ns \<sigma>' l' where c: "createCameras rm L fs f ([], \<sigma>, l) = Inr (True, (ns, \<sigma>', l'))" and ns: "made_from L ?es ns"
    using create_made [where fs = fs and f = f and cams = "[]", OF cfg(3,1,2), of rm L l] by auto
  let ?s = "snd (addCameras L ns s)"
  have a: "cameras ?s = map (fst \<circ> adjust L) ns" "pipelines ?s = pipelines s" "pheap ?s = pheap s" "streams ?s = streams s"
    using addCameras_result [OF s(2), of L ns] s(3) by simp_all
  have "map config ns = ?es" "map m_handle ns = map (fst \<circ> open_usb L) ?es" using ns by (simp_all add: made_from_def)
  then have n: "length ns = length ?es" "map config (cameras ?s) = ?es"
    and h: "map m_handle (cameras ?s) = map (fst \<circ> open_usb L) ?es"
    using map_eq_imp_length_eq by (force simp: a comp_assoc [symmetric] comp_def)+
  have h': "m_handle (cameras ?s ! m) = fst (open_usb L (?es ! m))" if "m < length ?es" for m
    using arg_cong [OF h, of "\<lambda>xs. xs ! m"] that n(1) a(1) by simp
  have rs: "reachable L ?s" using reachable_step [OF s(1) step_op [of "OpAddCameras ns"]] by simp
  then have r: "registry_ok ?s" by (rule reachable_ok)
  have "small ?s" "k < numCameras ?s" "k < 2 ^ 15" using k(1,2) s(4) n(1) a by (simp_all add: small_def numCameras_def)
  moreover have "is_connected L (m_handle (cameras ?s ! k))" "\<And>m. m < k \<Longrightarrow> \<not> is_connected L (m_handle (cameras ?s ! m))"
    using k h' by simp_all
  ultimately obtain t u where u: "compensate L ?s = Inr (True, u)" "attached L k ?s (numPipelines ?s) t"
    "selected t (if pipelines s = [] then - int k - 1 else 1)
       (if pipelines s = [] then m_handle (cameras ?s ! k) else phandle (the (pheap s (hd (pipelines s))))) (numStreams t) u"
    using compensate_steps [OF r] a by metis
  have st: "streams t = streams s" using u(2) a by (simp add: attached_def)
  have cu: "cameras u = cameras ?s" "storage u = storage ?s" using u(2,3) by (simp_all add: selected_def attached_def repointed_def)
  have ok: "storage_ok u" by (rule reachable_storage [OF reachable_step [OF rs step_compensate [OF u(1)]]])
  have ku: "k < numCameras u" using cu(1) k(1) n(1) a(1) by (simp add: numCameras_def)
  have "camera_event i key v u = Inr (emit (camera_listener (cameras u ! i) key v) u)" if "i < numCameras u" for i
    using camera_event_eq [OF ok that] fresh_listeners [OF reachable_storage [OF s(1)] s(2), of ?s L 0 ns] s(3) cu that
    by (simp add: numCameras_def)
  moreover have "map config (cameras u) = ?es" using cu(1) n(2) by simp
  moreover have "\<exists>p. pheap u r = Some p \<and> src_matrix p = CameraMat (sbuf (storage u), k) \<and> pmode p = get_mode L (fst (open_usb L (?es ! k)))
      \<and> getSrcMatrix u r = Inr (camera_matrix (cameras u ! k))" if q: "r \<in> set (pipelines s)" for r
  proof -
    obtain p where "pheap ?s r = Some p" using registry_ok_pipes [OF r, of r] q a by auto
    then obtain p' where "pheap u r = Some p'" "src_matrix p' = CameraMat (sbuf (storage u), k)" "pmode p' = get_mode L (fst (open_usb L (?es ! k)))"
      using u(2,3) q a h' [OF k(1)] cu(2) by (auto simp: attached_def selected_def count_defs attach_def)
    then show ?thesis using deref_cam_eq [OF ku] by (simp add: getSrcMatrix_def deref_def read_mat_def)
  qed
  moreover have "\<forall>j < numStreams s. local_idx (streams u ! j) = (if pipelines s = [] then - int k - 1 else 1)
         \<and> (local_idx (streams s ! j) = 0 \<and> pipelines s = [] \<longrightarrow>
              CsSetSource (shandle (streams s ! j)) (fst (open_usb L (?es ! k))) \<in> set (slog u))"
    using u(3) h' [OF k(1)] by (auto simp: selected_def st numStreams_def)
  ultimately show ?thesis using c u(1) by blast
qed

theorem configured_cameras_reach_streams_witness:
  "\<exists>cams \<sigma>' l' s'. createCameras False demo_lib demo_files ''/boot/frc.json'' ([], mat_store0, []) = Inr (True, (cams, \<sigma>', l'))
    \<and> compensate demo_lib (snd (addCameras demo_lib cams (snd (addStreams demo_lib 2 VisionServer_init)))) = Inr (True, s')
    \<and> local_idx (streams s' ! 1) = - 1"
proof -
  let ?es = "[JObject [(''name'', JString ''a''), (''path'', JString ''/dev/video0'')], JNull]"
  let ?s = "snd (addStreams demo_lib 2 VisionServer_init)"
  have r: "reachable demo_lib ?s"
    using reachable_step [OF reachable_init step_op [of "OpAddStreams 2" VisionServer_init]] by simp
  have s: "\<not> isRunning ?s" "cameras ?s = []" "pipelines ?s = []" "numStreams ?s = 2"
    by (simp_all add: addStreams_def VisionServer_init_def isRunning_def numStreams_def numeral_2_eq_2 Let_def split_beta)
  have f: "demo_files ''/boot/frc.json'' = FileJson (JObject [(''ntmode'', JString ''Client''), (''cameras'', JArray ?es)])"
    by (simp add: demo_files_def)
  have e: "kept_entries False demo_lib ?es = ?es" by (simp add: kept_entries_def)
  have demo_connected: "is_connected demo_lib h" for h by (simp add: demo_lib_def)
  show ?thesis
    using configured_cameras_reach_streams [where fs = demo_files and f = "''/boot/frc.json''" and es = ?es and k = 0
        and rm = False and \<sigma> = mat_store0 and l = "[]", OF r s(1,2) _ f] s(3,4)
    unfolding e by (force simp: demo_connected)
qed

subsection \<open>From a frame to the target\<close>



text \<open>An example: a contour that is none and four strips beside each other.\<close>

definition demo_hub_shape :: cv_shape where
  "demo_hub_shape = demo_shape\<lparr>find_contours := (\<lambda>_. [[\<lparr>px = 0, py = 0\<rparr>], [\<lparr>px = 5, py = 10\<rparr>], [\<lparr>px = 30, py = 10\<rparr>],
     [\<lparr>px = 55, py = 10\<rparr>], [\<lparr>px = 80, py = 10\<rparr>]]), bounding_rect := demo_bound\<rparr>"

definition demo_pnp :: pnp_lib where
  "demo_pnp = \<lparr>ippe = (\<lambda>_ _. Inr (((3, 0, 4), (0, 0, 0)), ((3, 0, 5), (0, 0, 0)))), refine = (\<lambda>_ _ g. Inr g)\<rparr>"

definition demo_finder :: strip_finder where
  "demo_finder = \<lparr>sf_ws = wsub0, sf_contours = Contours0, sf_strips = demo_strips [], sf_hub = UpperHub, sf_tvec = (0, 0, 0),
     sf_rvec = (0, 0, 0), sf_frame = empty_img, sf_puts = []\<rparr>"


end
